theory Spec2Isabelle
  imports Main "HOL-Library.Word"
begin

section \<open>Python strings\<close>

text \<open>
  A Python \<open>str\<close> is a sequence of Unicode code points, so it is modelled as a list of
  natural numbers; \<open>bytes\<close> are lists of 8-bit words. The program's messages are Russian:
  each literal is given by its code points, with the source line and an English gloss.
\<close>

type_synonym ustr = "nat list"
type_synonym byte = "8 word"

definition asc :: "string \<Rightarrow> ustr" where
  "asc s = map of_char s"

definition py_isspace :: "nat \<Rightarrow> bool" where
  \<comment> \<open>the code points that \<open>str.strip()\<close> removes (CPython's whitespace table)\<close>
  "py_isspace c = (c \<in> {9, 10, 11, 12, 13, 28, 29, 30, 31, 32, 133, 160, 5760, 8232, 8233,
      8239, 8287, 12288} \<or> (8192 \<le> c \<and> c \<le> 8202))"

definition py_strip :: "ustr \<Rightarrow> ustr" where
  "py_strip s = rev (dropWhile py_isspace (rev (dropWhile py_isspace s)))"

definition truthy_text :: "ustr \<Rightarrow> bool" where
  \<comment> \<open>the test \<open>text and text.strip()\<close>\<close>
  "truthy_text t = (t \<noteq> [] \<and> py_strip t \<noteq> [])"

definition py_lower_cp :: "nat \<Rightarrow> nat" where
  \<comment> \<open>\<open>str.lower\<close> on one code point, for Basic Latin, Latin-1 and Cyrillic capitals; other
      code points are left as they are. The program compares lowered text with ASCII
      literals only, and no code point left out here lowers to a letter of these literals\<close>
  "py_lower_cp c =
     (if 65 \<le> c \<and> c \<le> 90 then c + 32
      else if 192 \<le> c \<and> c \<le> 222 \<and> c \<noteq> 215 then c + 32
      else if 1040 \<le> c \<and> c \<le> 1071 then c + 32
      else if 1024 \<le> c \<and> c \<le> 1039 then c + 80
      else c)"

definition py_lower :: "ustr \<Rightarrow> ustr" where
  "py_lower s = map py_lower_cp s"

definition py_endswith :: "ustr \<Rightarrow> ustr \<Rightarrow> bool" where
  "py_endswith s suf = (take (length suf) (rev s) = rev suf)"

fun py_in :: "ustr \<Rightarrow> ustr \<Rightarrow> bool" where
  \<comment> \<open>\<open>needle in hay\<close>\<close>
  "py_in needle [] = (needle = [])"
| "py_in needle (c # cs) = (take (length needle) (c # cs) = needle \<or> py_in needle cs)"

fun py_join :: "ustr \<Rightarrow> ustr list \<Rightarrow> ustr" where
  "py_join sep [] = []"
| "py_join sep [x] = x"
| "py_join sep (x # y # ys) = x @ sep @ py_join sep (y # ys)"

fun py_str_nat :: "nat \<Rightarrow> ustr" where
  \<comment> \<open>\<open>str(n)\<close> of a non-negative integer\<close>
  "py_str_nat n = (if n < 10 then [48 + n] else py_str_nat (n div 10) @ [48 + n mod 10])"

declare py_str_nat.simps [simp del]

text \<open>
  Paths are POSIX paths. \<open>Path(p)\<close> splits the text at the separator \<open>/\<close> and drops the
  empty components and the components \<open>.\<close>, so \<open>Path("backup.rar/").name\<close> is
  \<open>backup.rar\<close>; a component \<open>..\<close> is kept.
\<close>

fun py_split :: "nat \<Rightarrow> ustr \<Rightarrow> ustr list" where
  \<comment> \<open>\<open>s.split(sep)\<close> for a separator of one character\<close>
  "py_split sep [] = [[]]"
| "py_split sep (c # cs) =
     (if c = sep then [] # py_split sep cs
      else case py_split sep cs of
             [] \<Rightarrow> [[c]]
           | x # xs \<Rightarrow> (c # x) # xs)"

definition path_parts :: "ustr \<Rightarrow> ustr list" where
  "path_parts p = filter (\<lambda>x. x \<noteq> [] \<and> x \<noteq> [46]) (py_split 47 p)"

definition path_name :: "ustr \<Rightarrow> ustr" where
  \<comment> \<open>\<open>Path(p).name\<close>: the last component, or the empty string when there is none\<close>
  "path_name p = (case rev (path_parts p) of [] \<Rightarrow> [] | x # xs \<Rightarrow> x)"

definition path_suffix :: "ustr \<Rightarrow> ustr" where
  \<comment> \<open>\<open>Path(p).suffix\<close>: from the last dot of the name, when that dot is neither its first
      nor its last character\<close>
  "path_suffix p =
     (let name = path_name p; tail = rev (takeWhile (\<lambda>c. c \<noteq> 46) (rev name))
      in if 46 \<in> set name \<and> tail \<noteq> [] \<and> length tail + 1 < length name
         then 46 # tail else [])"

fun universal_newlines :: "ustr \<Rightarrow> ustr" where
  \<comment> \<open>what reading a file opened in text mode does to line ends\<close>
  "universal_newlines [] = []"
| "universal_newlines [c] = [if c = 13 then 10 else c]"
| "universal_newlines (c # d # ds) =
     (if c = 13 \<and> d = 10 then 10 # universal_newlines ds
      else if c = 13 then 10 # universal_newlines (d # ds)
      else c # universal_newlines (d # ds))"

subsection \<open>The program's string literals\<close>

definition MSG_NO_TEXT :: ustr where
  \<comment> \<open>line 327; in English: File is empty or contains no text: \<close>
  "MSG_NO_TEXT = [1060, 1072, 1081, 1083, 32, 1087, 1091, 1089, 1090, 1086, 1081, 32, 1080,
     1083, 1080, 32, 1085, 1077, 32, 1089, 1086, 1076, 1077, 1088, 1078, 1080, 1090, 32,
     1090, 1077, 1082, 1089, 1090, 1072, 58, 32]"

definition MSG_PROCESSING_ERROR :: ustr where
  \<comment> \<open>line 331; in English: Error while processing \<close>
  "MSG_PROCESSING_ERROR = [1054, 1096, 1080, 1073, 1082, 1072, 32, 1087, 1088, 1080, 32, 1086,
     1073, 1088, 1072, 1073, 1086, 1090, 1082, 1077, 32]"

definition MSG_FILE_EMPTY :: ustr where
  \<comment> \<open>line 354; in English: File is empty (0 bytes)\<close>
  "MSG_FILE_EMPTY = [1060, 1072, 1081, 1083, 32, 1087, 1091, 1089, 1090, 1086, 1081] @
     asc '' (0 '' @ [1073, 1072, 1081, 1090, 41]"

definition WARN_HEAD :: ustr where
  \<comment> \<open>line 369; in English: (warning sign) ATTENTION: the file contains \<close>
  "WARN_HEAD = [9888, 65039, 32, 1042, 1053, 1048, 1052, 1040, 1053, 1048, 1045, 58, 32, 1060,
     1072, 1081, 1083, 32, 1089, 1086, 1076, 1077, 1088, 1078, 1080, 1090, 32]"

definition WARN_TAIL :: ustr where
  \<comment> \<open>line 369; in English:  pages. Processing may take considerable time.(newline)\<close>
  "WARN_TAIL = [32, 1089, 1090, 1088, 1072, 1085, 1080, 1094, 46, 32, 1054, 1073, 1088, 1072,
     1073, 1086, 1090, 1082, 1072, 32, 1084, 1086, 1078, 1077, 1090, 32, 1079, 1072, 1085,
     1103, 1090, 1100, 32, 1079, 1085, 1072, 1095, 1080, 1090, 1077, 1083, 1100, 1085, 1086,
     1077, 32, 1074, 1088, 1077, 1084, 1103, 46, 10]"

definition WARN_TAIL_OCR :: ustr where
  \<comment> \<open>line 551; in English:  pages. OCR may take considerable time.(newline)\<close>
  "WARN_TAIL_OCR = [32, 1089, 1090, 1088, 1072, 1085, 1080, 1094] @ asc ''. OCR '' @ [1084,
     1086, 1078, 1077, 1090, 32, 1079, 1072, 1085, 1103, 1090, 1100, 32, 1079, 1085, 1072,
     1095, 1080, 1090, 1077, 1083, 1100, 1085, 1086, 1077, 32, 1074, 1088, 1077, 1084, 1103,
     46, 10]"

definition PAGE_HEAD :: ustr where
  \<comment> \<open>line 388; in English: --- PAGE \<close>
  "PAGE_HEAD = asc ''--- '' @ [1057, 1058, 1056, 1040, 1053, 1048, 1062, 1040, 32]"

definition PAGE_TAIL :: ustr where
  \<comment> \<open>line 388; in English:  ---(newline)\<close>
  "PAGE_TAIL = asc '' ---'' @ [10]"

definition PAGE_TAIL_PYMUPDF :: ustr where
  \<comment> \<open>line 430; in English:  (PyMuPDF) ---(newline)\<close>
  "PAGE_TAIL_PYMUPDF = asc '' (PyMuPDF) ---'' @ [10]"

definition PAGE_TAIL_PYPDF2 :: ustr where
  \<comment> \<open>line 478; in English:  (PyPDF2) ---(newline)\<close>
  "PAGE_TAIL_PYPDF2 = asc '' (PyPDF2) ---'' @ [10]"

definition PAGE_TAIL_OCR :: ustr where
  \<comment> \<open>line 565; in English:  (OCR) ---(newline)\<close>
  "PAGE_TAIL_OCR = asc '' (OCR) ---'' @ [10]"

definition MSG_PASSWORD_PROTECTED :: ustr where
  \<comment> \<open>line 401; in English: PDF file is password protected: \<close>
  "MSG_PASSWORD_PROTECTED = asc ''PDF '' @ [1092, 1072, 1081, 1083, 32, 1079, 1072, 1097,
     1080, 1097, 1077, 1085, 32, 1087, 1072, 1088, 1086, 1083, 1077, 1084, 58, 32]"

definition MSG_ENCRYPTED :: ustr where
  \<comment> \<open>line 467; in English: PDF file is encrypted\<close>
  "MSG_ENCRYPTED = asc ''PDF '' @ [1092, 1072, 1081, 1083, 32, 1079, 1072, 1096, 1080, 1092,
     1088, 1086, 1074, 1072, 1085]"

definition MSG_ENCRYPTED_COLON :: ustr where
  \<comment> \<open>line 489; in English: PDF file is encrypted: \<close>
  "MSG_ENCRYPTED_COLON = asc ''PDF '' @ [1092, 1072, 1081, 1083, 32, 1079, 1072, 1096, 1080,
     1092, 1088, 1086, 1074, 1072, 1085, 58, 32]"

definition MSG_TESSERACT_MISSING :: ustr where
  \<comment> \<open>line 498; in English: Tesseract OCR is not installed. Install Tesseract to process scanned documents.\<close>
  "MSG_TESSERACT_MISSING = asc ''Tesseract OCR '' @ [1085, 1077, 32, 1091, 1089, 1090, 1072,
     1085, 1086, 1074, 1083, 1077, 1085, 46, 32, 1059, 1089, 1090, 1072, 1085, 1086, 1074,
     1080, 1090, 1077] @ asc '' Tesseract '' @ [1076, 1083, 1103, 32, 1086, 1073, 1088,
     1072, 1073, 1086, 1090, 1082, 1080, 32, 1086, 1090, 1089, 1082, 1072, 1085, 1080, 1088,
     1086, 1074, 1072, 1085, 1085, 1099, 1093, 32, 1076, 1086, 1082, 1091, 1084, 1077, 1085,
     1090, 1086, 1074, 46]"

definition MSG_POPPLER_NOT_FOUND :: ustr where
  \<comment> \<open>line 536; in English: Poppler not found\<close>
  "MSG_POPPLER_NOT_FOUND = asc ''Poppler '' @ [1085, 1077, 32, 1085, 1072, 1081, 1076, 1077,
     1085]"

definition MSG_POPPLER_HINT :: ustr where
  \<comment> \<open>line 579; in English: OCR requires poppler-utils to be installed. Download from https://...\<close>
  "MSG_POPPLER_HINT = [1044, 1083, 1103] @ asc '' OCR '' @ [1090, 1088, 1077, 1073, 1091,
     1077, 1090, 1089, 1103, 32, 1091, 1089, 1090, 1072, 1085, 1086, 1074, 1080, 1090, 1100]
     @ asc '' poppler-utils. '' @ [1057, 1082, 1072, 1095, 1072, 1081, 1090, 1077, 32, 1089]
     @ asc '' https://github.com/oschwartz10612/poppler-windows/releases''"

definition MSG_CONVERT_ERROR :: ustr where
  \<comment> \<open>line 581; in English: PDF conversion error: \<close>
  "MSG_CONVERT_ERROR = [1054, 1096, 1080, 1073, 1082, 1072, 32, 1082, 1086, 1085, 1074, 1077,
     1088, 1090, 1072, 1094, 1080, 1080] @ asc '' PDF: ''"

definition MSG_PDF_NO_TEXT :: ustr where
  \<comment> \<open>line 594; in English: Could not extract text from the PDF. Possible causes: the file holds only images without a text layer, or Tesseract OCR must be installed to recognise scanned documents.\<close>
  "MSG_PDF_NO_TEXT = [1053, 1077, 32, 1091, 1076, 1072, 1083, 1086, 1089, 1100, 32, 1080,
     1079, 1074, 1083, 1077, 1095, 1100, 32, 1090, 1077, 1082, 1089, 1090, 32, 1080, 1079] @
     asc '' PDF. '' @ [1042, 1086, 1079, 1084, 1086, 1078, 1085, 1099, 1077, 32, 1087, 1088,
     1080, 1095, 1080, 1085, 1099, 58, 32, 1092, 1072, 1081, 1083, 32, 1089, 1086, 1076,
     1077, 1088, 1078, 1080, 1090, 32, 1090, 1086, 1083, 1100, 1082, 1086, 32, 1080, 1079,
     1086, 1073, 1088, 1072, 1078, 1077, 1085, 1080, 1103, 32, 1073, 1077, 1079, 32, 1090,
     1077, 1082, 1089, 1090, 1086, 1074, 1086, 1075, 1086, 32, 1089, 1083, 1086, 1103, 44,
     32, 1080, 1083, 1080, 32, 1090, 1088, 1077, 1073, 1091, 1077, 1090, 1089, 1103, 32,
     1091, 1089, 1090, 1072, 1085, 1086, 1074, 1082, 1072] @ asc '' Tesseract OCR '' @
     [1076, 1083, 1103, 32, 1088, 1072, 1089, 1087, 1086, 1079, 1085, 1072, 1074, 1072,
     1085, 1080, 1103, 32, 1086, 1090, 1089, 1082, 1072, 1085, 1080, 1088, 1086, 1074, 1072,
     1085, 1085, 1099, 1093, 32, 1076, 1086, 1082, 1091, 1084, 1077, 1085, 1090, 1086, 1074,
     46]"

definition MSG_PDF_OPEN_ERROR :: ustr where
  \<comment> \<open>line 600; in English: Error opening PDF \<close>
  "MSG_PDF_OPEN_ERROR = [1054, 1096, 1080, 1073, 1082, 1072, 32, 1086, 1090, 1082, 1088, 1099,
     1090, 1080, 1103] @ asc '' PDF ''"

definition MSG_PYTESSERACT_MISSING :: ustr where
  \<comment> \<open>line 605; in English: pytesseract is not installed\<close>
  "MSG_PYTESSERACT_MISSING = asc ''pytesseract '' @ [1085, 1077, 32, 1091, 1089, 1090, 1072,
     1085, 1086, 1074, 1083, 1077, 1085]"

definition MSG_TEXTRACT_MISSING :: ustr where
  \<comment> \<open>line 622; in English: Files .doc/.rtf are not supported. Processing them needs the textract library, which is not compatible with Python 3.13.\<close>
  "MSG_TEXTRACT_MISSING = [1060, 1072, 1081, 1083, 1099] @ asc '' .doc/.rtf '' @ [1085, 1077,
     32, 1087, 1086, 1076, 1076, 1077, 1088, 1078, 1080, 1074, 1072, 1102, 1090, 1089, 1103,
     46, 32, 1044, 1083, 1103, 32, 1080, 1093, 32, 1086, 1073, 1088, 1072, 1073, 1086, 1090,
     1082, 1080, 32, 1090, 1088, 1077, 1073, 1091, 1077, 1090, 1089, 1103, 32, 1091, 1089,
     1090, 1072, 1085, 1086, 1074, 1082, 1072, 32, 1073, 1080, 1073, 1083, 1080, 1086, 1090,
     1077, 1082, 1080] @ asc '' textract, '' @ [1082, 1086, 1090, 1086, 1088, 1072, 1103,
     32, 1085, 1077, 32, 1089, 1086, 1074, 1084, 1077, 1089, 1090, 1080, 1084, 1072, 32,
     1089] @ asc '' Python 3.13.''"

definition MSG_TESSERACT_MISSING_SIMPLE :: ustr where
  \<comment> \<open>line 672; in English: Tesseract OCR is not installed.\<close>
  "MSG_TESSERACT_MISSING_SIMPLE = asc ''Tesseract OCR '' @ [1085, 1077, 32, 1091, 1089, 1090,
     1072, 1085, 1086, 1074, 1083, 1077, 1085, 46]"

definition MSG_PDF2IMAGE_MISSING_SIMPLE :: ustr where
  \<comment> \<open>line 752; in English: pdf2image is not installed\<close>
  "MSG_PDF2IMAGE_MISSING_SIMPLE = asc ''pdf2image '' @ [1085, 1077, 32, 1091, 1089, 1090,
     1072, 1085, 1086, 1074, 1083, 1077, 1085]"

definition MSG_OCR_ERROR :: ustr where
  \<comment> \<open>line 755; in English: OCR error: \<close>
  "MSG_OCR_ERROR = [1054, 1096, 1080, 1073, 1082, 1072] @ asc '' OCR: ''"

definition MSG_PDF_PROCESSING_ERROR :: ustr where
  \<comment> \<open>line 762; in English: PDF processing error: \<close>
  "MSG_PDF_PROCESSING_ERROR = [1054, 1096, 1080, 1073, 1082, 1072, 32, 1086, 1073, 1088, 1072,
     1073, 1086, 1090, 1082, 1080] @ asc '' PDF: ''"

definition MSG_ZIP_EMPTY_FILE :: ustr where
  \<comment> \<open>line 777; in English: ZIP file is empty (0 bytes)\<close>
  "MSG_ZIP_EMPTY_FILE = asc ''ZIP '' @ [1092, 1072, 1081, 1083, 32, 1087, 1091, 1089, 1090,
     1086, 1081] @ asc '' (0 '' @ [1073, 1072, 1081, 1090, 41]"

definition MSG_ZIP_CORRUPTED :: ustr where
  \<comment> \<open>line 786; in English: ZIP file is corrupted: \<close>
  "MSG_ZIP_CORRUPTED = asc ''ZIP '' @ [1092, 1072, 1081, 1083, 32, 1087, 1086, 1074, 1088,
     1077, 1078, 1076, 1077, 1085, 58, 32]"

definition MSG_ZIP_NO_ENTRIES :: ustr where
  \<comment> \<open>line 793; in English: ZIP archive is empty\<close>
  "MSG_ZIP_NO_ENTRIES = asc ''ZIP '' @ [1072, 1088, 1093, 1080, 1074, 32, 1087, 1091, 1089,
     1090, 1086, 1081]"

definition BLOCK_FILE_HEAD :: ustr where
  \<comment> \<open>line 820; in English: === FILE IN ARCHIVE: \<close>
  "BLOCK_FILE_HEAD = asc ''=== '' @ [1060, 1040, 1049, 1051, 32, 1042, 32, 1040, 1056, 1061,
     1048, 1042, 1045, 58, 32]"

definition BLOCK_TAIL :: ustr where
  \<comment> \<open>line 820; in English:  ===(newline)\<close>
  "BLOCK_TAIL = asc '' ==='' @ [10]"

definition BLOCK_OCR_ERROR_HEAD :: ustr where
  \<comment> \<open>line 861; in English: === OCR ERROR FOR PDF IN ARCHIVE: \<close>
  "BLOCK_OCR_ERROR_HEAD = asc ''=== '' @ [1054, 1064, 1048, 1041, 1050, 1040] @
     asc '' OCR PDF '' @ [1042, 32, 1040, 1056, 1061, 1048, 1042, 1045, 58, 32]"

definition BLOCK_OCR_FAILED_TAIL :: ustr where
  \<comment> \<open>line 861; in English:  ===(newline)OCR could not recognise the text. The document may be of poor quality or hold only images.\<close>
  "BLOCK_OCR_FAILED_TAIL = asc '' ==='' @ [10] @ asc ''OCR '' @ [1085, 1077, 32, 1089, 1084,
     1086, 1075, 32, 1088, 1072, 1089, 1087, 1086, 1079, 1085, 1072, 1090, 1100, 32, 1090,
     1077, 1082, 1089, 1090, 46, 32, 1042, 1086, 1079, 1084, 1086, 1078, 1085, 1086, 44, 32,
     1076, 1086, 1082, 1091, 1084, 1077, 1085, 1090, 32, 1087, 1083, 1086, 1093, 1086, 1075,
     1086, 32, 1082, 1072, 1095, 1077, 1089, 1090, 1074, 1072, 32, 1080, 1083, 1080, 32,
     1089, 1086, 1076, 1077, 1088, 1078, 1080, 1090, 32, 1090, 1086, 1083, 1100, 1082, 1086,
     32, 1080, 1079, 1086, 1073, 1088, 1072, 1078, 1077, 1085, 1080, 1103, 46]"

definition BLOCK_PROCESSING_ERROR_HEAD :: ustr where
  \<comment> \<open>line 876; in English: === ERROR PROCESSING FILE IN ARCHIVE: \<close>
  "BLOCK_PROCESSING_ERROR_HEAD = asc ''=== '' @ [1054, 1064, 1048, 1041, 1050, 1040, 32, 1054,
     1041, 1056, 1040, 1041, 1054, 1058, 1050, 1048, 32, 1060, 1040, 1049, 1051, 1040, 32,
     1042, 32, 1040, 1056, 1061, 1048, 1042, 1045, 58, 32]"

definition BLOCK_NO_TEXT_TAIL :: ustr where
  \<comment> \<open>line 876; in English:  ===(newline)Could not extract text from the document.\<close>
  "BLOCK_NO_TEXT_TAIL = asc '' ==='' @ [10, 1053, 1077, 32, 1091, 1076, 1072, 1083, 1086,
     1089, 1100, 32, 1080, 1079, 1074, 1083, 1077, 1095, 1100, 32, 1090, 1077, 1082, 1089,
     1090, 32, 1080, 1079, 32, 1076, 1086, 1082, 1091, 1084, 1077, 1085, 1090, 1072, 46]"

definition BLOCK_READ_ERROR_HEAD :: ustr where
  \<comment> \<open>line 892; in English: === ERROR READING FILE IN ARCHIVE: \<close>
  "BLOCK_READ_ERROR_HEAD = asc ''=== '' @ [1054, 1064, 1048, 1041, 1050, 1040, 32, 1063, 1058,
     1045, 1053, 1048, 1071, 32, 1060, 1040, 1049, 1051, 1040, 32, 1042, 32, 1040, 1056,
     1061, 1048, 1042, 1045, 58, 32]"

definition MSG_ZIP_NO_SUPPORTED :: ustr where
  \<comment> \<open>line 897; in English: The ZIP archive has no supported files\<close>
  "MSG_ZIP_NO_SUPPORTED = [1042] @ asc '' ZIP '' @ [1072, 1088, 1093, 1080, 1074, 1077, 32,
     1085, 1077, 1090, 32, 1087, 1086, 1076, 1076, 1077, 1088, 1078, 1080, 1074, 1072, 1077,
     1084, 1099, 1093, 32, 1092, 1072, 1081, 1083, 1086, 1074]"

definition MSG_RAR_UNSUPPORTED :: ustr where
  \<comment> \<open>line 903; in English: RAR archives are not supported yet. Install the rarfile library for RAR support.\<close>
  "MSG_RAR_UNSUPPORTED = asc ''RAR '' @ [1072, 1088, 1093, 1080, 1074, 1099, 32, 1087, 1086,
     1082, 1072, 32, 1085, 1077, 32, 1087, 1086, 1076, 1076, 1077, 1088, 1078, 1080, 1074,
     1072, 1102, 1090, 1089, 1103, 46, 32, 1059, 1089, 1090, 1072, 1085, 1086, 1074, 1080,
     1090, 1077, 32, 1073, 1080, 1073, 1083, 1080, 1086, 1090, 1077, 1082, 1091] @
     asc '' rarfile '' @ [1076, 1083, 1103, 32, 1087, 1086, 1076, 1076, 1077, 1088, 1078,
     1082, 1080] @ asc '' RAR.''"

definition MSG_ARCHIVE_NO_TEXT :: ustr where
  \<comment> \<open>line 917; in English: Could not extract text from the archive. Possible causes: the archive is empty, corrupted, holds only unsupported files, or the PDF files inside need OCR.\<close>
  "MSG_ARCHIVE_NO_TEXT = [1053, 1077, 32, 1091, 1076, 1072, 1083, 1086, 1089, 1100, 32, 1080,
     1079, 1074, 1083, 1077, 1095, 1100, 32, 1090, 1077, 1082, 1089, 1090, 32, 1080, 1079,
     32, 1072, 1088, 1093, 1080, 1074, 1072, 46, 32, 1042, 1086, 1079, 1084, 1086, 1078,
     1085, 1099, 1077, 32, 1087, 1088, 1080, 1095, 1080, 1085, 1099, 58, 32, 1072, 1088,
     1093, 1080, 1074, 32, 1087, 1091, 1089, 1090, 1086, 1081, 44, 32, 1087, 1086, 1074,
     1088, 1077, 1078, 1076, 1077, 1085, 44, 32, 1089, 1086, 1076, 1077, 1088, 1078, 1080,
     1090, 32, 1090, 1086, 1083, 1100, 1082, 1086, 32, 1085, 1077, 1087, 1086, 1076, 1076,
     1077, 1088, 1078, 1080, 1074, 1072, 1077, 1084, 1099, 1077, 32, 1092, 1072, 1081, 1083,
     1099, 44, 32, 1080, 1083, 1080] @ asc '' PDF '' @ [1092, 1072, 1081, 1083, 1099, 32,
     1074, 1085, 1091, 1090, 1088, 1080, 32, 1072, 1088, 1093, 1080, 1074, 1072, 32, 1090,
     1088, 1077, 1073, 1091, 1102, 1090] @ asc '' OCR.''"

definition MSG_ARCHIVE_ERROR :: ustr where
  \<comment> \<open>line 920; in English: Error processing archive \<close>
  "MSG_ARCHIVE_ERROR = [1054, 1096, 1080, 1073, 1082, 1072, 32, 1086, 1073, 1088, 1072, 1073,
     1086, 1090, 1082, 1080, 32, 1072, 1088, 1093, 1080, 1074, 1072, 32]"

lemmas literal_defs =
  MSG_NO_TEXT_def MSG_PROCESSING_ERROR_def MSG_FILE_EMPTY_def WARN_HEAD_def WARN_TAIL_def
  WARN_TAIL_OCR_def PAGE_HEAD_def PAGE_TAIL_def PAGE_TAIL_PYMUPDF_def PAGE_TAIL_PYPDF2_def
  PAGE_TAIL_OCR_def MSG_PASSWORD_PROTECTED_def MSG_ENCRYPTED_def MSG_ENCRYPTED_COLON_def
  MSG_TESSERACT_MISSING_def MSG_POPPLER_NOT_FOUND_def MSG_POPPLER_HINT_def
  MSG_CONVERT_ERROR_def MSG_PDF_NO_TEXT_def MSG_PDF_OPEN_ERROR_def
  MSG_PYTESSERACT_MISSING_def MSG_TEXTRACT_MISSING_def MSG_TESSERACT_MISSING_SIMPLE_def
  MSG_PDF2IMAGE_MISSING_SIMPLE_def MSG_OCR_ERROR_def MSG_PDF_PROCESSING_ERROR_def
  MSG_ZIP_EMPTY_FILE_def MSG_ZIP_CORRUPTED_def MSG_ZIP_NO_ENTRIES_def BLOCK_FILE_HEAD_def
  BLOCK_TAIL_def BLOCK_OCR_ERROR_HEAD_def BLOCK_OCR_FAILED_TAIL_def
  BLOCK_PROCESSING_ERROR_HEAD_def BLOCK_NO_TEXT_TAIL_def BLOCK_READ_ERROR_HEAD_def
  MSG_ZIP_NO_SUPPORTED_def MSG_RAR_UNSUPPORTED_def MSG_ARCHIVE_NO_TEXT_def
  MSG_ARCHIVE_ERROR_def

definition EXT_PDF :: ustr where "EXT_PDF = asc ''.pdf''"
definition EXT_DOCX :: ustr where "EXT_DOCX = asc ''.docx''"
definition EXT_DOC :: ustr where "EXT_DOC = asc ''.doc''"
definition EXT_RTF :: ustr where "EXT_RTF = asc ''.rtf''"
definition EXT_TXT :: ustr where "EXT_TXT = asc ''.txt''"
definition EXT_MD :: ustr where "EXT_MD = asc ''.md''"
definition EXT_ZIP :: ustr where "EXT_ZIP = asc ''.zip''"
definition EXT_RAR :: ustr where "EXT_RAR = asc ''.rar''"
definition EXT_7Z :: ustr where "EXT_7Z = asc ''.7z''"

lemmas ext_defs = EXT_PDF_def EXT_DOCX_def EXT_DOC_def EXT_RTF_def EXT_TXT_def EXT_MD_def
  EXT_ZIP_def EXT_RAR_def EXT_7Z_def

definition SEP_BLANK_LINE :: ustr where
  \<comment> \<open>the separator of \<open>"\n\n".join(...)\<close>\<close>
  "SEP_BLANK_LINE = [10, 10]"

definition COLON_SPACE :: ustr where
  "COLON_SPACE = [58, 32]"

section \<open>Exceptions, the environment and the processor state\<close>

text \<open>
  An exception is its class, as far as the handlers of the program tell classes apart, and
  its message \<open>str(e)\<close>. A function that can raise returns \<open>exn + 'a\<close>.
\<close>

datatype exkind = ImportError | UnicodeDecodeError | TypeError | OSError | OtherException

datatype exn = Exn (kind: exkind) (msg: ustr)

definition file_not_found :: "ustr \<Rightarrow> exn" where
  \<comment> \<open>what opening or measuring a missing file raises\<close>
  "file_not_found filepath =
     Exn OSError (asc ''[Errno 2] No such file or directory: '' @ [39] @ filepath @ [39])"

definition package_not_found :: "ustr \<Rightarrow> exn" where
  \<comment> \<open>what \<open>Document(filepath)\<close> of python-docx raises when there is no file at the path\<close>
  "package_not_found filepath =
     Exn OtherException (asc ''Package not found at '' @ [39] @ filepath @ [39])"

definition decode_error :: exn where
  \<comment> \<open>what \<open>bytes.decode\<close> raises on undecodable input\<close>
  "decode_error = Exn UnicodeDecodeError (asc ''codec cannot decode byte'')"

definition five_arguments_error :: exn where
  \<comment> \<open>line 634 calls \<open>UnicodeDecodeError\<close> with one argument; the constructor takes five,
      so the call itself raises \<open>TypeError\<close>\<close>
  "five_arguments_error = Exn TypeError (asc ''function takes exactly 5 arguments (1 given)'')"

datatype stage = Pdfplumber | PyMuPDF | PyPDF2 | OCR

datatype extractor =
  PdfExtractor | ImageExtractor | DocxExtractor | LegacyDocExtractor | TextExtractor
  | ArchiveExtractor

text \<open>
  What the program does besides computing its result is recorded in a trace: which
  extraction routine was invoked on which path, which PDF stage was entered, and which page
  or archive entry was processed.
\<close>

datatype event =
  Invoked extractor ustr
  | StageStarted stage
  | PageProcessed stage nat
  | SimplePageProcessed nat
  | SimpleOcrProcessed nat
  | EntryProcessed ustr

datatype pypdf_reader = PdfReader (is_encrypted: bool) (reader_pages: "(exn + ustr) list")

text \<open>
  The libraries and the machine the program runs on: every field is what one import, one
  library call or one probe answers. A PDF library is given the bytes of the file and
  answers with an error or with the text (or error) of each page; \<open>textract_missing_file\<close>
  is the error of textract for a path without a file. \<open>read_cancelled st i\<close>
  is the value of the flag \<open>self._cancelled\<close>, which another thread writes, when the loop of
  stage \<open>st\<close> reads it before page index \<open>i\<close>.
\<close>

record world =
  TESSERACT_AVAILABLE :: bool
  TEXTTRACT_AVAILABLE :: bool
  read_cancelled :: "stage \<Rightarrow> nat \<Rightarrow> bool"
  bytes_decode_utf8 :: "byte list \<Rightarrow> ustr option"
  bytes_decode_cp1251 :: "byte list \<Rightarrow> ustr option"
  bytes_decode_utf8_ignore :: "byte list \<Rightarrow> ustr"
  pdfplumber_open :: "byte list \<Rightarrow> exn + (exn + ustr) list"
  import_fitz :: "exn option"
  fitz_open :: "byte list \<Rightarrow> exn + (exn + ustr) list"
  import_PyPDF2 :: "exn option"
  PyPDF2_PdfReader :: "byte list \<Rightarrow> exn + pypdf_reader"
  import_pdf2image :: "exn option"
  poppler_in_known_dir :: bool
  poppler_on_PATH :: bool
  convert_from_path :: "byte list \<Rightarrow> exn + nat"
  image_to_string :: "byte list \<Rightarrow> nat \<Rightarrow> exn + ustr"
  tesseract_subprocess :: "byte list \<Rightarrow> nat \<Rightarrow> exn + int \<times> byte list"
  image_file_to_string :: "byte list \<Rightarrow> exn + ustr"
  docx_paragraphs :: "byte list \<Rightarrow> exn + ustr list"
  textract_process :: "byte list \<Rightarrow> exn + byte list"
  textract_missing_file :: "ustr \<Rightarrow> exn"
  datetime_now :: ustr
  temp_name :: "nat \<Rightarrow> ustr"
  temp_mtime :: "nat \<Rightarrow> ustr"

text \<open>
  A file's content is its bytes and what \<open>zipfile\<close> finds in them: an error on opening, an
  error of the integrity test, and the members in the order of \<open>namelist()\<close>, each with
  the error of reading it or its own content. A file on disk is its content and the
  printed form of \<open>st_mtime\<close>; its size is the number of its bytes. The file system
  answers for the path as it is written; only regular files are modelled. A record of the
  cache holds the three fields that \<open>cache_text\<close> writes.
\<close>

datatype content =
  Content (cbytes: "byte list") (zip_open_error: "exn option") (zip_test_error: "exn option")
    (zip_members: "(ustr \<times> zmember) list")
and zmember = ZMember (zread_error: "exn option") (zdata: content)

record disk_file =
  f_content :: content
  f_mtime :: ustr

record cache_record =
  rec_hash :: ustr
  rec_text :: ustr
  rec_timestamp :: ustr

record state =
  fs :: "ustr \<rightharpoonup> disk_file"
  cache :: "ustr \<rightharpoonup> cache_record"
  error_log :: "ustr list"
  trace :: "event list"
  temp_count :: nat

section \<open>CacheManager\<close>

definition get_file_hash :: "(ustr \<rightharpoonup> disk_file) \<Rightarrow> ustr \<Rightarrow> ustr" where
  \<comment> \<open>\<open>f"{stat.st_mtime}_{stat.st_size}"\<close>, or the empty string when \<open>os.stat\<close> raises\<close>
  "get_file_hash files filepath =
     (case files filepath of
        None \<Rightarrow> []
      | Some f \<Rightarrow> f_mtime f @ [95] @ py_str_nat (length (cbytes (f_content f))))"

definition get_cached_text :: "state \<Rightarrow> ustr \<Rightarrow> ustr option" where
  "get_cached_text s filepath =
     (case cache s filepath of
        None \<Rightarrow> None
      | Some cached_data \<Rightarrow>
          if rec_hash cached_data = get_file_hash (fs s) filepath
          then Some (rec_text cached_data) else None)"

definition cache_text :: "world \<Rightarrow> state \<Rightarrow> ustr \<Rightarrow> ustr \<Rightarrow> state" where
  "cache_text w s filepath t =
     s\<lparr>cache := (cache s)(filepath \<mapsto>
         \<lparr>rec_hash = get_file_hash (fs s) filepath, rec_text = t,
          rec_timestamp = datetime_now w\<rparr>)\<rparr>"

section \<open>Extractors of one format\<close>

text \<open>
  An extractor is given the path and what the file system holds there. The plain-text
  extractor (lines 625-634) opens the file once for each encoding of its list and returns
  what the first successful read gives.
\<close>

datatype encoding = UTF8 | CP1251 | LATIN1

definition encodings :: "encoding list" where
  "encodings = [UTF8, CP1251, LATIN1]"

definition bytes_decode :: "world \<Rightarrow> encoding \<Rightarrow> byte list \<Rightarrow> ustr option" where
  \<comment> \<open>latin-1 maps every byte to the code point of the same value and never fails\<close>
  "bytes_decode w enc bs =
     (case enc of
        UTF8 \<Rightarrow> bytes_decode_utf8 w bs
      | CP1251 \<Rightarrow> bytes_decode_cp1251 w bs
      | LATIN1 \<Rightarrow> Some (map unat bs))"

fun text_loop :: "world \<Rightarrow> ustr \<Rightarrow> disk_file option \<Rightarrow> encoding list \<Rightarrow> exn + ustr" where
  "text_loop w filepath fo [] = Inl five_arguments_error"
| "text_loop w filepath fo (enc # rest) =
     (case fo of
        None \<Rightarrow> Inl (file_not_found filepath)
      | Some f \<Rightarrow>
          (case bytes_decode w enc (cbytes (f_content f)) of
             Some t \<Rightarrow> Inr (universal_newlines t)
           | None \<Rightarrow> text_loop w filepath fo rest))"

definition extract_from_text :: "world \<Rightarrow> ustr \<Rightarrow> disk_file option \<Rightarrow> exn + ustr" where
  "extract_from_text w filepath fo = text_loop w filepath fo encodings"

definition extract_from_image :: "world \<Rightarrow> ustr \<Rightarrow> disk_file option \<Rightarrow> exn + ustr" where
  "extract_from_image w filepath fo =
     (if \<not> TESSERACT_AVAILABLE w then Inl (Exn ImportError MSG_PYTESSERACT_MISSING)
      else case fo of
             None \<Rightarrow> Inl (file_not_found filepath)
           | Some f \<Rightarrow> image_file_to_string w (cbytes (f_content f)))"

definition extract_from_docx :: "world \<Rightarrow> ustr \<Rightarrow> disk_file option \<Rightarrow> exn + ustr" where
  "extract_from_docx w filepath fo =
     (case fo of
        None \<Rightarrow> Inl (package_not_found filepath)
      | Some f \<Rightarrow>
          (case docx_paragraphs w (cbytes (f_content f)) of
             Inl e \<Rightarrow> Inl e
           | Inr paragraphs \<Rightarrow> Inr (py_join [10] (filter (\<lambda>p. py_strip p \<noteq> []) paragraphs))))"

definition extract_from_legacy_doc :: "world \<Rightarrow> ustr \<Rightarrow> disk_file option \<Rightarrow> exn + ustr" where
  "extract_from_legacy_doc w filepath fo =
     (if \<not> TEXTTRACT_AVAILABLE w then Inl (Exn ImportError MSG_TEXTRACT_MISSING)
      else case fo of
             None \<Rightarrow> Inl (textract_missing_file w filepath)
           | Some f \<Rightarrow>
               (case textract_process w (cbytes (f_content f)) of
                  Inl e \<Rightarrow> Inl e
                | Inr out \<Rightarrow>
                    (case bytes_decode_utf8 w out of
                       None \<Rightarrow> Inl decode_error
                     | Some t \<Rightarrow> Inr t)))"

section \<open>The PDF fallback chain\<close>

text \<open>
  The function \<open>_extract_from_pdf\<close> (lines 345-600). A PDF library fails when it opens
  the document or on a single page; the library answers are taken from the environment.
  Each stage returns the list \<open>texts\<close> and the trace, or the error that ends the file.
\<close>

definition page_block :: "stage \<Rightarrow> nat \<Rightarrow> ustr \<Rightarrow> ustr" where
  \<comment> \<open>the labelled page blocks of lines 388, 430, 478 and 565\<close>
  "page_block st n t =
     PAGE_HEAD @ py_str_nat n @
     (case st of
        Pdfplumber \<Rightarrow> PAGE_TAIL
      | PyMuPDF \<Rightarrow> PAGE_TAIL_PYMUPDF
      | PyPDF2 \<Rightarrow> PAGE_TAIL_PYPDF2
      | OCR \<Rightarrow> PAGE_TAIL_OCR) @ t"

definition warning_block :: "stage \<Rightarrow> nat \<Rightarrow> ustr" where
  "warning_block st n =
     WARN_HEAD @ py_str_nat n @ (case st of OCR \<Rightarrow> WARN_TAIL_OCR | _ \<Rightarrow> WARN_TAIL)"

definition with_warning :: "stage \<Rightarrow> nat \<Rightarrow> ustr list \<Rightarrow> ustr list" where
  \<comment> \<open>lines 367-369, 416-418, 461-463 and 549-551: the warning is appended to \<open>texts\<close>\<close>
  "with_warning st n texts = (if n > 200 then texts @ [warning_block st n] else texts)"

text \<open>
  The page loop of a stage (lines 375-396, 420-439, 469-483, 553-570). Before each page
  the flag is read, and a set flag leaves the loop; an error of one page is caught inside
  the loop, and a page without text adds nothing.
\<close>

fun page_loop ::
  "world \<Rightarrow> stage \<Rightarrow> nat \<Rightarrow> (exn + ustr) list \<Rightarrow> ustr list \<times> event list
    \<Rightarrow> ustr list \<times> event list" where
  "page_loop w st i [] acc = acc"
| "page_loop w st i (page # pages) (texts, tr) =
     (if read_cancelled w st i then (texts, tr)
      else page_loop w st (Suc i) pages
             (case page of
                Inl e \<Rightarrow> texts
              | Inr t \<Rightarrow> if truthy_text t then texts @ [page_block st (Suc i) t] else texts,
              tr @ [PageProcessed st i]))"

definition stage_pdfplumber :: "world \<Rightarrow> byte list \<Rightarrow> (exn + ustr list) \<times> event list" where
  \<comment> \<open>lines 357-401\<close>
  "stage_pdfplumber w bs =
     (case pdfplumber_open w bs of
        Inl e \<Rightarrow>
          (if py_in (asc ''password'') (py_lower (msg e))
              \<or> py_in (asc ''encrypted'') (py_lower (msg e))
           then Inl (Exn OtherException (MSG_PASSWORD_PROTECTED @ msg e))
           else Inr [],
           [StageStarted Pdfplumber])
      | Inr pages \<Rightarrow>
          (case page_loop w Pdfplumber 0 pages
                  (with_warning Pdfplumber (length pages) [], [StageStarted Pdfplumber]) of
             (texts, tr) \<Rightarrow> (Inr texts, tr)))"

definition stage_pymupdf ::
  "world \<Rightarrow> byte list \<Rightarrow> ustr list \<times> event list \<Rightarrow> ustr list \<times> event list" where
  \<comment> \<open>lines 404-445: an import error and any other error are only printed\<close>
  "stage_pymupdf w bs acc =
     (case acc of (texts, tr) \<Rightarrow>
        (case import_fitz w of
           Some e \<Rightarrow> (texts, tr @ [StageStarted PyMuPDF])
         | None \<Rightarrow>
             (case fitz_open w bs of
                Inl e \<Rightarrow> (texts, tr @ [StageStarted PyMuPDF])
              | Inr pages \<Rightarrow>
                  page_loop w PyMuPDF 0 pages
                    (with_warning PyMuPDF (length pages) texts, tr @ [StageStarted PyMuPDF]))))"

definition pypdf2_handler :: "exn \<Rightarrow> ustr list \<Rightarrow> exn + ustr list" where
  \<comment> \<open>the handlers of lines 484-489\<close>
  "pypdf2_handler e texts =
     (if kind e = ImportError then Inr texts
      else if py_in (asc ''encrypted'') (py_lower (msg e))
      then Inl (Exn OtherException (MSG_ENCRYPTED_COLON @ msg e))
      else Inr texts)"

definition stage_pypdf2 ::
  "world \<Rightarrow> byte list \<Rightarrow> ustr list \<times> event list \<Rightarrow> (exn + ustr list) \<times> event list" where
  \<comment> \<open>lines 448-489; line 467 raises inside the \<open>try\<close> whose handlers are above\<close>
  "stage_pypdf2 w bs acc =
     (case acc of (texts, tr) \<Rightarrow>
        (case import_PyPDF2 w of
           Some e \<Rightarrow> (pypdf2_handler e texts, tr @ [StageStarted PyPDF2])
         | None \<Rightarrow>
             (case PyPDF2_PdfReader w bs of
                Inl e \<Rightarrow> (pypdf2_handler e texts, tr @ [StageStarted PyPDF2])
              | Inr pdf_reader \<Rightarrow>
                  (if is_encrypted pdf_reader
                   then (pypdf2_handler (Exn OtherException MSG_ENCRYPTED)
                           (with_warning PyPDF2 (length (reader_pages pdf_reader)) texts),
                         tr @ [StageStarted PyPDF2])
                   else (case page_loop w PyPDF2 0 (reader_pages pdf_reader)
                                (with_warning PyPDF2 (length (reader_pages pdf_reader)) texts,
                                 tr @ [StageStarted PyPDF2]) of
                           (texts', tr') \<Rightarrow> (Inr texts', tr'))))))"

definition convert_handler :: "exn \<Rightarrow> exn" where
  \<comment> \<open>the handler of lines 572-581; the two handlers after it are never reached\<close>
  "convert_handler e =
     (if py_in (asc ''poppler'') (py_lower (msg e))
         \<or> py_in (asc ''unable to get page count'') (py_lower (msg e))
      then Exn OtherException MSG_POPPLER_HINT
      else Exn OtherException (MSG_CONVERT_ERROR @ msg e))"

definition stage_ocr ::
  "world \<Rightarrow> byte list \<Rightarrow> ustr list \<times> event list \<Rightarrow> (exn + ustr list) \<times> event list" where
  \<comment> \<open>lines 492-588\<close>
  "stage_ocr w bs acc =
     (case acc of (texts, tr) \<Rightarrow>
        (if \<not> TESSERACT_AVAILABLE w
         then (Inl (Exn OtherException MSG_TESSERACT_MISSING), tr @ [StageStarted OCR])
         else case import_pdf2image w of
                Some e \<Rightarrow> (Inl (convert_handler e), tr @ [StageStarted OCR])
              | None \<Rightarrow>
                  (if \<not> (poppler_in_known_dir w \<or> poppler_on_PATH w)
                   then (Inl (convert_handler (Exn OtherException MSG_POPPLER_NOT_FOUND)),
                         tr @ [StageStarted OCR])
                   else case convert_from_path w bs of
                          Inl e \<Rightarrow> (Inl (convert_handler e), tr @ [StageStarted OCR])
                        | Inr n \<Rightarrow>
                            (case page_loop w OCR 0 (map (image_to_string w bs) [0..<n])
                                    (with_warning OCR n texts, tr @ [StageStarted OCR]) of
                               (texts', tr') \<Rightarrow> (Inr texts', tr')))))"

definition pdf_result :: "ustr list \<Rightarrow> exn + ustr" where
  \<comment> \<open>lines 590-596\<close>
  "pdf_result texts =
     (if py_strip (py_join SEP_BLANK_LINE texts) = []
      then Inl (Exn OtherException MSG_PDF_NO_TEXT)
      else Inr (py_join SEP_BLANK_LINE texts))"

definition pdf_chain :: "world \<Rightarrow> ustr \<Rightarrow> disk_file option \<Rightarrow> (exn + ustr) \<times> event list" where
  \<comment> \<open>the body of the outer \<open>try\<close>, lines 348-596; each later stage is guarded by
      \<open>if not texts\<close>\<close>
  "pdf_chain w filepath fo =
     (case fo of
        None \<Rightarrow> (Inl (file_not_found filepath), [])
      | Some f \<Rightarrow>
          (if length (cbytes (f_content f)) = 0
           then (Inl (Exn OtherException MSG_FILE_EMPTY), [])
           else case stage_pdfplumber w (cbytes (f_content f)) of
                  (Inl e, tr1) \<Rightarrow> (Inl e, tr1)
                | (Inr texts1, tr1) \<Rightarrow>
                    (case (if texts1 = []
                           then stage_pymupdf w (cbytes (f_content f)) (texts1, tr1)
                           else (texts1, tr1)) of
                       (texts2, tr2) \<Rightarrow>
                         (case (if texts2 = []
                                then stage_pypdf2 w (cbytes (f_content f)) (texts2, tr2)
                                else (Inr texts2, tr2)) of
                            (Inl e, tr3) \<Rightarrow> (Inl e, tr3)
                          | (Inr texts3, tr3) \<Rightarrow>
                              (case (if texts3 = []
                                     then stage_ocr w (cbytes (f_content f)) (texts3, tr3)
                                     else (Inr texts3, tr3)) of
                                 (Inl e, tr4) \<Rightarrow> (Inl e, tr4)
                               | (Inr texts4, tr4) \<Rightarrow> (pdf_result texts4, tr4))))))"

definition extract_from_pdf ::
  "world \<Rightarrow> ustr \<Rightarrow> disk_file option \<Rightarrow> (exn + ustr) \<times> event list" where
  \<comment> \<open>lines 598-600: every error leaves the function wrapped in one message\<close>
  "extract_from_pdf w filepath fo =
     (case pdf_chain w filepath fo of
        (Inl e, tr) \<Rightarrow>
          (Inl (Exn OtherException (MSG_PDF_OPEN_ERROR @ filepath @ COLON_SPACE @ msg e)), tr)
      | (Inr result, tr) \<Rightarrow> (Inr result, tr))"

definition flag_read :: "world \<Rightarrow> event list \<Rightarrow> bool" where
  \<comment> \<open>every page that the trace shows as processed was reached with the flag unset at
      each read of its loop up to that page\<close>
  "flag_read w tr =
     (\<forall>st i j. PageProcessed st i \<in> set tr \<and> j \<le> i \<longrightarrow> \<not> read_cancelled w st j)"

subsection \<open>The simplified PDF path of archive entries\<close>

fun simple_page_loop ::
  "nat \<Rightarrow> (exn + ustr) list \<Rightarrow> ustr list \<times> event list \<Rightarrow> ustr list \<times> event list" where
  \<comment> \<open>lines 655-663: no flag is read; a page error leaves the loop and is printed at
      line 663, the pages before it are kept\<close>
  "simple_page_loop i [] acc = acc"
| "simple_page_loop i (page # pages) (texts, tr) =
     (case page of
        Inl e \<Rightarrow> (texts, tr @ [SimplePageProcessed i])
      | Inr t \<Rightarrow>
          simple_page_loop (Suc i) pages
            (if truthy_text t then texts @ [page_block Pdfplumber (Suc i) t] else texts,
             tr @ [SimplePageProcessed i]))"

definition decode_stdout :: "world \<Rightarrow> byte list \<Rightarrow> ustr" where
  \<comment> \<open>lines 727-733\<close>
  "decode_stdout w out =
     (case bytes_decode_utf8 w out of
        Some t \<Rightarrow> py_strip t
      | None \<Rightarrow>
          (case bytes_decode_cp1251 w out of
             Some t \<Rightarrow> py_strip t
           | None \<Rightarrow> py_strip (bytes_decode_utf8_ignore w out)))"

fun simple_ocr_loop ::
  "world \<Rightarrow> byte list \<Rightarrow> nat list \<Rightarrow> ustr list \<times> event list
    \<Rightarrow> (exn + ustr list) \<times> event list" where
  \<comment> \<open>lines 712-748: no flag is read; an error of the subprocess leaves the loop\<close>
  "simple_ocr_loop w bs [] (texts, tr) = (Inr texts, tr)"
| "simple_ocr_loop w bs (i # rest) (texts, tr) =
     (case tesseract_subprocess w bs i of
        Inl e \<Rightarrow> (Inl e, tr @ [SimpleOcrProcessed i])
      | Inr (returncode, out) \<Rightarrow>
          simple_ocr_loop w bs rest
            (if returncode = 0 \<and> decode_stdout w out \<noteq> []
             then texts @ [page_block OCR (Suc i) (decode_stdout w out)] else texts,
             tr @ [SimpleOcrProcessed i]))"

definition simple_ocr_handler :: "exn \<Rightarrow> exn" where
  \<comment> \<open>the handlers of lines 750-755\<close>
  "simple_ocr_handler e =
     (if kind e = ImportError then Exn OtherException MSG_PDF2IMAGE_MISSING_SIMPLE
      else Exn OtherException (MSG_OCR_ERROR @ msg e))"

definition simple_ocr ::
  "world \<Rightarrow> byte list \<Rightarrow> event list \<Rightarrow> (exn + ustr list) \<times> event list" where
  \<comment> \<open>lines 666-755, entered with \<open>texts\<close> empty; poppler is looked for in the fixed
      directories only\<close>
  "simple_ocr w bs tr =
     (if \<not> TESSERACT_AVAILABLE w
      then (Inl (Exn OtherException MSG_TESSERACT_MISSING_SIMPLE), tr)
      else case import_pdf2image w of
             Some e \<Rightarrow> (Inl (simple_ocr_handler e), tr)
           | None \<Rightarrow>
               (if \<not> poppler_in_known_dir w
                then (Inl (simple_ocr_handler (Exn OtherException MSG_POPPLER_NOT_FOUND)), tr)
                else case convert_from_path w bs of
                       Inl e \<Rightarrow> (Inl (simple_ocr_handler e), tr)
                     | Inr n \<Rightarrow>
                         (case simple_ocr_loop w bs [0..<n] ([], tr) of
                            (Inl e, tr') \<Rightarrow> (Inl (simple_ocr_handler e), tr')
                          | (Inr texts, tr') \<Rightarrow> (Inr texts, tr'))))"

definition pdf_simple_body ::
  "world \<Rightarrow> ustr \<Rightarrow> disk_file option \<Rightarrow> (exn + ustr) \<times> event list" where
  "pdf_simple_body w filepath fo =
     (case fo of
        None \<Rightarrow> (Inl (file_not_found filepath), [])
      | Some f \<Rightarrow>
          (if length (cbytes (f_content f)) = 0
           then (Inl (Exn OtherException MSG_FILE_EMPTY), [])
           else case (case pdfplumber_open w (cbytes (f_content f)) of
                        Inl e \<Rightarrow> ([], [])
                      | Inr pages \<Rightarrow> simple_page_loop 0 pages ([], [])) of
                  (texts, tr) \<Rightarrow>
                    (if texts \<noteq> [] then (Inr (py_join SEP_BLANK_LINE texts), tr)
                     else case simple_ocr w (cbytes (f_content f)) tr of
                            (Inl e, tr') \<Rightarrow> (Inl e, tr')
                          | (Inr texts', tr') \<Rightarrow> (Inr (py_join SEP_BLANK_LINE texts'), tr'))))"

definition extract_from_pdf_simple ::
  "world \<Rightarrow> ustr \<Rightarrow> disk_file option \<Rightarrow> (exn + ustr) \<times> event list" where
  \<comment> \<open>lines 761-762\<close>
  "extract_from_pdf_simple w filepath fo =
     (case pdf_simple_body w filepath fo of
        (Inl e, tr) \<Rightarrow> (Inl (Exn OtherException (MSG_PDF_PROCESSING_ERROR @ msg e)), tr)
      | (Inr result, tr) \<Rightarrow> (Inr result, tr))"

section \<open>The archive extractor and the dispatcher\<close>

definition SUPPORTED_pdfs :: "ustr list" where
  "SUPPORTED_pdfs = [EXT_PDF]"

definition SUPPORTED_images :: "ustr list" where
  "SUPPORTED_images = [asc ''.jpg'', asc ''.jpeg'', asc ''.png'', asc ''.bmp'', asc ''.tiff'']"

definition SUPPORTED_text :: "ustr list" where
  "SUPPORTED_text = [EXT_TXT, EXT_MD]"

definition SUPPORTED_archives :: "ustr list" where
  "SUPPORTED_archives = [EXT_ZIP, EXT_RAR, EXT_7Z]"



definition supported_extensions :: "ustr list" where
  \<comment> \<open>line 796, the entries of an archive that are processed\<close>
  "supported_extensions = [EXT_TXT, EXT_MD, EXT_PDF, EXT_DOCX, EXT_DOC, EXT_RTF]"

definition ends_with_any :: "ustr \<Rightarrow> ustr list \<Rightarrow> bool" where
  \<comment> \<open>\<open>file_name.lower().endswith((...))\<close>\<close>
  "ends_with_any file_name exts = list_ex (py_endswith (py_lower file_name)) exts"

definition file_block :: "ustr \<Rightarrow> ustr \<Rightarrow> ustr" where
  "file_block file_name t = BLOCK_FILE_HEAD @ file_name @ BLOCK_TAIL @ t"

definition ocr_failed_block :: "ustr \<Rightarrow> ustr" where
  "ocr_failed_block file_name = BLOCK_OCR_ERROR_HEAD @ file_name @ BLOCK_OCR_FAILED_TAIL"

definition ocr_error_block :: "ustr \<Rightarrow> ustr \<Rightarrow> ustr" where
  "ocr_error_block file_name m = BLOCK_OCR_ERROR_HEAD @ file_name @ BLOCK_TAIL @ m"

definition no_text_block :: "ustr \<Rightarrow> ustr" where
  "no_text_block file_name = BLOCK_PROCESSING_ERROR_HEAD @ file_name @ BLOCK_NO_TEXT_TAIL"

definition read_error_block :: "ustr \<Rightarrow> ustr \<Rightarrow> ustr" where
  "read_error_block file_name m = BLOCK_READ_ERROR_HEAD @ file_name @ BLOCK_TAIL @ m"

definition key_error :: "ustr \<Rightarrow> exn" where
  "key_error file_name = Exn OtherException (asc ''There is no item named '' @ file_name)"

definition zip_open :: "(ustr \<times> zmember) list \<Rightarrow> ustr \<Rightarrow> zmember option" where
  \<comment> \<open>\<open>zip_file.open(file_name)\<close> finds the last member of that name\<close>
  "zip_open members file_name = map_of (rev members) file_name"

definition text_entry :: "world \<Rightarrow> ustr \<Rightarrow> byte list \<Rightarrow> ustr list \<Rightarrow> ustr list" where
  \<comment> \<open>lines 816-835: UTF-8, then cp1251; a blank or undecodable entry adds nothing\<close>
  "text_entry w file_name bs all_texts =
     (case bytes_decode_utf8 w bs of
        Some t \<Rightarrow> if py_strip t \<noteq> [] then all_texts @ [file_block file_name t] else all_texts
      | None \<Rightarrow>
          (case bytes_decode_cp1251 w bs of
             Some t \<Rightarrow>
               if py_strip t \<noteq> [] then all_texts @ [file_block file_name t] else all_texts
           | None \<Rightarrow> all_texts))"

definition create_temp :: "world \<Rightarrow> state \<Rightarrow> ustr \<Rightarrow> content \<Rightarrow> ustr \<times> state" where
  \<comment> \<open>lines 841-843: a new file whose name ends with the entry's suffix\<close>
  "create_temp w s file_name c =
     (temp_name w (temp_count s) @ path_suffix file_name,
      s\<lparr>fs := (fs s)(temp_name w (temp_count s) @ path_suffix file_name \<mapsto>
              \<lparr>f_content = c, f_mtime = temp_mtime w (temp_count s)\<rparr>),
        temp_count := Suc (temp_count s)\<rparr>)"

definition unlink :: "state \<Rightarrow> ustr \<Rightarrow> state" where
  "unlink s filepath = s\<lparr>fs := (fs s)(filepath := None)\<rparr>"

definition log_events :: "state \<Rightarrow> event list \<Rightarrow> state" where
  "log_events s evs = s\<lparr>trace := trace s @ evs\<rparr>"

definition pdf_entry :: "world \<Rightarrow> ustr \<Rightarrow> ustr \<Rightarrow> ustr list \<Rightarrow> state \<Rightarrow> ustr list \<times> state" where
  \<comment> \<open>lines 849-866: text, an empty result and an error each add one block\<close>
  "pdf_entry w file_name temp_file_path all_texts s =
     (case extract_from_pdf_simple w temp_file_path (fs s temp_file_path) of
        (Inr pdf_text, tr) \<Rightarrow>
          (all_texts @ [if truthy_text pdf_text then file_block file_name pdf_text
                        else ocr_failed_block file_name],
           log_events s tr)
      | (Inl e, tr) \<Rightarrow> (all_texts @ [ocr_error_block file_name (msg e)], log_events s tr))"

definition archive_result :: "ustr list \<Rightarrow> exn + ustr" where
  \<comment> \<open>lines 905-917\<close>
  "archive_result all_texts =
     (if py_strip (py_join SEP_BLANK_LINE all_texts) \<noteq> []
      then Inr (py_join SEP_BLANK_LINE all_texts)
      else Inl (Exn OtherException MSG_ARCHIVE_NO_TEXT))"

definition archive_error :: "ustr \<Rightarrow> exn \<Rightarrow> exn" where
  \<comment> \<open>lines 919-920\<close>
  "archive_error filepath e =
     Exn OtherException (MSG_ARCHIVE_ERROR @ filepath @ COLON_SPACE @ msg e)"

definition finish_extract ::
  "world \<Rightarrow> ustr \<Rightarrow> (exn + ustr) \<times> state \<Rightarrow> (ustr \<times> bool) \<times> state" where
  \<comment> \<open>lines 321-339: cache and succeed on text that is not blank, else log\<close>
  "finish_extract w filepath r =
     (case r of
        (Inl e, s) \<Rightarrow>
          (([], False),
           s\<lparr>error_log := error_log s @ [MSG_PROCESSING_ERROR @ filepath @ COLON_SPACE @ msg e]\<rparr>)
      | (Inr t, s) \<Rightarrow>
          (if truthy_text t then ((t, True), cache_text w s filepath t)
           else ((t, False), s\<lparr>error_log := error_log s @ [MSG_NO_TEXT @ filepath]\<rparr>)))"

definition run_pdf :: "world \<Rightarrow> state \<Rightarrow> ustr \<Rightarrow> (exn + ustr) \<times> state" where
  "run_pdf w s filepath =
     (case extract_from_pdf w filepath (fs s filepath) of
        (r, tr) \<Rightarrow> (r, log_events s (Invoked PdfExtractor filepath # tr)))"

text \<open>
  The dispatcher \<open>extract_text\<close> (lines 296-339) calls the archive extractor
  \<open>_extract_from_archive\<close> (lines 764-920), whose loop over the entries (lines 800-894)
  calls the dispatcher again on the temporary file of a document entry. Creating, writing
  and deleting the temporary file are taken to succeed. The recursion ends because that
  file holds a member of the archive that is being read: the measure is the size of the
  content.
\<close>

definition content_size_at :: "state \<Rightarrow> ustr \<Rightarrow> nat" where
  "content_size_at s filepath = (case fs s filepath of None \<Rightarrow> 0 | Some f \<Rightarrow> size (f_content f))"

definition members_size :: "(ustr \<times> zmember) list \<Rightarrow> nat" where
  "members_size members = size_list (size_prod (\<lambda>x. 0) size) members"

lemma members_size_content: "members_size (zip_members c) < size c"
  by (cases c) (simp add: members_size_def)

lemma zip_open_size:
  "zip_open members file_name = Some member \<Longrightarrow> size (zdata member) < members_size members"
proof -
  assume "zip_open members file_name = Some member"
  then have "(file_name, member) \<in> set members"
    unfolding zip_open_def by (auto dest: map_of_SomeD)
  moreover have "size (zdata member) < size_prod (\<lambda>x. 0) size (file_name, member)"
    by (cases member) simp
  ultimately show ?thesis
    unfolding members_size_def by (rule size_list_estimation)
qed

function (sequential)
  extract_text :: "world \<Rightarrow> state \<Rightarrow> ustr \<Rightarrow> (ustr \<times> bool) \<times> state"
  and extract_from_archive :: "world \<Rightarrow> state \<Rightarrow> ustr \<Rightarrow> (exn + ustr) \<times> state"
  and archive_loop ::
    "world \<Rightarrow> (ustr \<times> zmember) list \<Rightarrow> ustr list \<Rightarrow> ustr list \<Rightarrow> bool \<Rightarrow> state
      \<Rightarrow> ustr list \<times> bool \<times> state"
  and archive_entry ::
    "world \<Rightarrow> (ustr \<times> zmember) list \<Rightarrow> ustr \<Rightarrow> ustr list \<Rightarrow> state \<Rightarrow> ustr list \<times> state"
where
  "extract_text w s filepath =
     (case get_cached_text s filepath of
        Some cached_text \<Rightarrow> ((cached_text, True), s)
      | None \<Rightarrow>
          finish_extract w filepath
            (if py_lower (path_suffix filepath) \<in> set SUPPORTED_pdfs
             then run_pdf w s filepath
             else if py_lower (path_suffix filepath) \<in> set SUPPORTED_images
             then (extract_from_image w filepath (fs s filepath),
                   log_events s [Invoked ImageExtractor filepath])
             else if py_lower (path_suffix filepath) = EXT_DOCX
             then (extract_from_docx w filepath (fs s filepath),
                   log_events s [Invoked DocxExtractor filepath])
             else if py_lower (path_suffix filepath) \<in> set [EXT_DOC, EXT_RTF]
             then (extract_from_legacy_doc w filepath (fs s filepath),
                   log_events s [Invoked LegacyDocExtractor filepath])
             else if py_lower (path_suffix filepath) \<in> set SUPPORTED_text
             then (extract_from_text w filepath (fs s filepath),
                   log_events s [Invoked TextExtractor filepath])
             else if py_lower (path_suffix filepath) \<in> set SUPPORTED_archives
             then extract_from_archive w (log_events s [Invoked ArchiveExtractor filepath])
                    filepath
             else (Inr [], s)))"
| "extract_from_archive w s filepath =
     (if py_lower (path_suffix filepath) = EXT_ZIP then
        (case fs s filepath of
           None \<Rightarrow> (Inl (archive_error filepath (file_not_found filepath)), s)
         | Some f \<Rightarrow>
             (if length (cbytes (f_content f)) = 0
              then (Inl (archive_error filepath (Exn OtherException MSG_ZIP_EMPTY_FILE)), s)
              else case zip_open_error (f_content f) of
                     Some e \<Rightarrow> (Inl (archive_error filepath e), s)
                   | None \<Rightarrow>
                       (case zip_test_error (f_content f) of
                          Some e \<Rightarrow>
                            (Inl (archive_error filepath
                                    (Exn OtherException (MSG_ZIP_CORRUPTED @ msg e))), s)
                        | None \<Rightarrow>
                            (if zip_members (f_content f) = []
                             then (Inl (archive_error filepath
                                          (Exn OtherException MSG_ZIP_NO_ENTRIES)), s)
                             else case archive_loop w (zip_members (f_content f))
                                         (map fst (zip_members (f_content f))) [] False s of
                                    (all_texts, found_supported_files, s') \<Rightarrow>
                                      (if \<not> found_supported_files
                                       then (Inl (archive_error filepath
                                                    (Exn OtherException MSG_ZIP_NO_SUPPORTED)),
                                             s')
                                       else (case archive_result all_texts of
                                               Inl e \<Rightarrow> Inl (archive_error filepath e)
                                             | Inr result \<Rightarrow> Inr result,
                                             s'))))))
      else if py_lower (path_suffix filepath) = EXT_RAR then
        (case archive_result [MSG_RAR_UNSUPPORTED] of
           Inl e \<Rightarrow> Inl (archive_error filepath e)
         | Inr result \<Rightarrow> Inr result,
         s)
      else
        (case archive_result [] of
           Inl e \<Rightarrow> Inl (archive_error filepath e)
         | Inr result \<Rightarrow> Inr result,
         s))"
| "archive_loop w members [] all_texts found_supported_files s =
     (all_texts, found_supported_files, s)"
| "archive_loop w members (file_name # rest) all_texts found_supported_files s =
     (if ends_with_any file_name supported_extensions
      then (case archive_entry w members file_name all_texts s of
              (all_texts', s') \<Rightarrow> archive_loop w members rest all_texts' True s')
      else archive_loop w members rest all_texts found_supported_files s)"
| "archive_entry w members file_name all_texts s =
     (case zip_open members file_name of
        None \<Rightarrow>
          (all_texts @ [read_error_block file_name (msg (key_error file_name))],
           log_events s [EntryProcessed file_name])
      | Some member \<Rightarrow>
          (case zread_error member of
             Some e \<Rightarrow>
               (all_texts @ [read_error_block file_name (msg e)],
                log_events s [EntryProcessed file_name])
           | None \<Rightarrow>
               (if length (cbytes (zdata member)) = 0
                then (all_texts, log_events s [EntryProcessed file_name])
                else if ends_with_any file_name [EXT_TXT, EXT_MD]
                then (text_entry w file_name (cbytes (zdata member)) all_texts,
                      log_events s [EntryProcessed file_name])
                else if ends_with_any file_name [EXT_PDF, EXT_DOCX, EXT_DOC, EXT_RTF]
                then (case create_temp w (log_events s [EntryProcessed file_name]) file_name
                             (zdata member) of
                        (temp_file_path, s1) \<Rightarrow>
                          (if ends_with_any file_name [EXT_PDF]
                           then (case pdf_entry w file_name temp_file_path all_texts s1 of
                                   (all_texts', s2) \<Rightarrow> (all_texts', unlink s2 temp_file_path))
                           else (case extract_text w s1 temp_file_path of
                                   ((t, success), s2) \<Rightarrow>
                                     (all_texts @
                                        [if success \<and> py_strip t \<noteq> []
                                         then file_block file_name t
                                         else no_text_block file_name],
                                      unlink s2 temp_file_path))))
                else (all_texts, log_events s [EntryProcessed file_name]))))"
  by pat_completeness auto


termination
  apply (relation "measures
    [\<lambda>x. case x of
        Inl (Inl (w, s, filepath)) \<Rightarrow> 4 * content_size_at s filepath + 3
      | Inl (Inr (w, s, filepath)) \<Rightarrow> 4 * content_size_at s filepath + 2
      | Inr (Inl (w, members, names, all_texts, found, s)) \<Rightarrow> 4 * members_size members + 1
      | Inr (Inr (w, members, file_name, all_texts, s)) \<Rightarrow> 4 * members_size members,
     \<lambda>x. case x of
        Inr (Inl (w, members, names, all_texts, found, s)) \<Rightarrow> length names
      | _ \<Rightarrow> 0]")
    apply (simp_all add: content_size_at_def log_events_def create_temp_def)
  subgoal for s filepath f
    using members_size_content [of "f_content f"] by simp
  subgoal for w members file_name s member
    using zip_open_size [of members file_name member] by simp
  done

declare extract_text.simps [simp del] extract_from_archive.simps [simp del]
  archive_loop.simps [simp del] archive_entry.simps [simp del]

subsection \<open>What an entry contributes\<close>

text \<open>
  Whether an entry of an archive adds a block can be read off the archive and the codecs
  alone: it does not depend on what the extraction of the entry finds.
\<close>

definition text_decodes_nonblank :: "world \<Rightarrow> byte list \<Rightarrow> bool" where
  "text_decodes_nonblank w bs =
     (case bytes_decode_utf8 w bs of
        Some t \<Rightarrow> py_strip t \<noteq> []
      | None \<Rightarrow> (case bytes_decode_cp1251 w bs of Some t \<Rightarrow> py_strip t \<noteq> [] | None \<Rightarrow> False))"

definition contributes_block :: "world \<Rightarrow> (ustr \<times> zmember) list \<Rightarrow> ustr \<Rightarrow> bool" where
  "contributes_block w members file_name =
     (case zip_open members file_name of
        None \<Rightarrow> True
      | Some member \<Rightarrow>
          (case zread_error member of
             Some e \<Rightarrow> True
           | None \<Rightarrow>
               cbytes (zdata member) \<noteq> []
               \<and> (if ends_with_any file_name [EXT_TXT, EXT_MD]
                  then text_decodes_nonblank w (cbytes (zdata member))
                  else ends_with_any file_name [EXT_PDF, EXT_DOCX, EXT_DOC, EXT_RTF])))"


subsection \<open>The extractor behind a call\<close>

text \<open>
  Lines 303-319 on their own: the extractor that the lowered suffix selects, with what it
  returns or raises and the state it leaves. For a suffix of no list no extractor is
  called and the text stays empty. On a cache miss \<open>extract_text\<close> is \<open>finish_extract\<close>
  applied to this outcome.
\<close>

definition dispatch :: "world \<Rightarrow> state \<Rightarrow> ustr \<Rightarrow> (exn + ustr) \<times> state" where
  "dispatch w s filepath =
     (if py_lower (path_suffix filepath) \<in> set SUPPORTED_pdfs
      then run_pdf w s filepath
      else if py_lower (path_suffix filepath) \<in> set SUPPORTED_images
      then (extract_from_image w filepath (fs s filepath),
            log_events s [Invoked ImageExtractor filepath])
      else if py_lower (path_suffix filepath) = EXT_DOCX
      then (extract_from_docx w filepath (fs s filepath),
            log_events s [Invoked DocxExtractor filepath])
      else if py_lower (path_suffix filepath) \<in> set [EXT_DOC, EXT_RTF]
      then (extract_from_legacy_doc w filepath (fs s filepath),
            log_events s [Invoked LegacyDocExtractor filepath])
      else if py_lower (path_suffix filepath) \<in> set SUPPORTED_text
      then (extract_from_text w filepath (fs s filepath),
            log_events s [Invoked TextExtractor filepath])
      else if py_lower (path_suffix filepath) \<in> set SUPPORTED_archives
      then extract_from_archive w (log_events s [Invoked ArchiveExtractor filepath]) filepath
      else (Inr [], s))"

subsection \<open>The blocks of an archive, entry by entry\<close>

text \<open>
  What each supported entry of a ZIP archive is to add to the output, written out case by
  case and not taken from the loop: an entry that cannot be read gives the read-error
  block with its name; an entry of zero bytes gives nothing; a text entry gives the file
  block with its name and its decoded text (UTF-8, else cp1251) when that text is not
  blank, and nothing otherwise; a PDF entry gives the file block with its name and the text
  of the simplified extraction, or an OCR-error block with its name when that extraction
  finds nothing or raises; a document entry gives the file block with its name and the text
  that \<open>extract_text\<close> returns for its temporary file, or the processing-error block with
  its name when that call does not succeed.
\<close>

definition first_decode :: "world \<Rightarrow> byte list \<Rightarrow> ustr option" where
  "first_decode w bs =
     (case bytes_decode_utf8 w bs of Some t \<Rightarrow> Some t | None \<Rightarrow> bytes_decode_cp1251 w bs)"

definition expected_entry_blocks ::
  "world \<Rightarrow> (ustr \<times> zmember) list \<Rightarrow> ustr \<Rightarrow> state \<Rightarrow> ustr list" where
  "expected_entry_blocks w members file_name s =
     (case zip_open members file_name of
        None \<Rightarrow> [read_error_block file_name (msg (key_error file_name))]
      | Some member \<Rightarrow>
          (case zread_error member of
             Some e \<Rightarrow> [read_error_block file_name (msg e)]
           | None \<Rightarrow>
               (if cbytes (zdata member) = [] then []
                else if ends_with_any file_name [EXT_TXT, EXT_MD]
                then (case first_decode w (cbytes (zdata member)) of
                        None \<Rightarrow> []
                      | Some t \<Rightarrow> if py_strip t \<noteq> [] then [file_block file_name t] else [])
                else if ends_with_any file_name [EXT_PDF]
                then (case fst (extract_from_pdf_simple w
                                  (temp_name w (temp_count s) @ path_suffix file_name)
                                  (Some \<lparr>f_content = zdata member,
                                         f_mtime = temp_mtime w (temp_count s)\<rparr>)) of
                        Inl e \<Rightarrow> [ocr_error_block file_name (msg e)]
                      | Inr t \<Rightarrow>
                          if truthy_text t then [file_block file_name t]
                          else [ocr_failed_block file_name])
                else if ends_with_any file_name [EXT_DOCX, EXT_DOC, EXT_RTF]
                then (case fst (extract_text w
                                  (snd (create_temp w (log_events s [EntryProcessed file_name])
                                          file_name (zdata member)))
                                  (temp_name w (temp_count s) @ path_suffix file_name)) of
                        (t, success) \<Rightarrow>
                          if success \<and> py_strip t \<noteq> [] then [file_block file_name t]
                          else [no_text_block file_name])
                else [])))"

fun expected_blocks ::
  "world \<Rightarrow> (ustr \<times> zmember) list \<Rightarrow> ustr list \<Rightarrow> state \<Rightarrow> ustr list" where
  \<comment> \<open>the blocks of the supported entries in the order of the archive; each entry is met
      in the state that the entries before it have left\<close>
  "expected_blocks w members [] s = []"
| "expected_blocks w members (file_name # rest) s =
     (if ends_with_any file_name supported_extensions
      then expected_entry_blocks w members file_name s
           @ expected_blocks w members rest (snd (archive_entry w members file_name [] s))
      else expected_blocks w members rest s)"

definition block_names_entry :: "ustr \<Rightarrow> ustr \<Rightarrow> bool" where
  \<comment> \<open>the block starts with a label line of lines 820-892 that holds the entry's name\<close>
  "block_names_entry file_name b =
     list_ex (\<lambda>head. take (length (head @ file_name @ BLOCK_TAIL)) b
                      = head @ file_name @ BLOCK_TAIL)
       [BLOCK_FILE_HEAD, BLOCK_OCR_ERROR_HEAD, BLOCK_PROCESSING_ERROR_HEAD,
        BLOCK_READ_ERROR_HEAD]"
section \<open>A concrete environment\<close>

text \<open>
  An environment and some files to run the model on. The stand-in codec decodes ASCII
  bytes to themselves, as UTF-8 and cp1251 do, and rejects every other byte; it is only
  run on bytes where the real codecs answer the same.
\<close>

definition ascii_decode :: "byte list \<Rightarrow> ustr option" where
  "ascii_decode bs = (if list_all (\<lambda>b. unat b < 128) bs then Some (map unat bs) else None)"

definition demo_world :: world where
  "demo_world =
     \<lparr>TESSERACT_AVAILABLE = True, TEXTTRACT_AVAILABLE = False,
      read_cancelled = (\<lambda>st i. False),
      bytes_decode_utf8 = ascii_decode, bytes_decode_cp1251 = ascii_decode,
      bytes_decode_utf8_ignore = (\<lambda>bs. map unat (filter (\<lambda>b. unat b < 128) bs)),
      pdfplumber_open = (\<lambda>bs. Inr []),
      import_fitz = None, fitz_open = (\<lambda>bs. Inr []),
      import_PyPDF2 = None, PyPDF2_PdfReader = (\<lambda>bs. Inr (PdfReader False [])),
      import_pdf2image = None, poppler_in_known_dir = True, poppler_on_PATH = False,
      convert_from_path = (\<lambda>bs. Inr 0), image_to_string = (\<lambda>bs i. Inr []),
      tesseract_subprocess = (\<lambda>bs i. Inr (0, [])),
      image_file_to_string = (\<lambda>bs. Inr []),
      docx_paragraphs = (\<lambda>bs. Inr [asc ''Hello'']),
      textract_process = (\<lambda>bs. Inr bs),
      textract_missing_file = (\<lambda>p. Exn OtherException (asc ''The file cannot be found'')),
      datetime_now = asc ''2025-07-20T10:00:00'',
      temp_name = (\<lambda>k. asc ''/tmp/tmp'' @ py_str_nat k),
      temp_mtime = (\<lambda>k. asc ''1753000000.5'')\<rparr>"

definition plain_file :: "byte list \<Rightarrow> disk_file" where
  "plain_file bs =
     \<lparr>f_content = Content bs (Some (Exn OtherException (asc ''File is not a zip file''))) None [],
      f_mtime = asc ''1753000000.0''\<rparr>"

definition empty_state :: state where
  "empty_state = \<lparr>fs = Map.empty, cache = Map.empty, error_log = [], trace = [], temp_count = 0\<rparr>"

definition hello_bytes :: "byte list" where
  \<comment> \<open>the bytes of "Hello", a line feed and "World"\<close>
  "hello_bytes = [72, 101, 108, 108, 111, 10, 87, 111, 114, 108, 100]"

definition cached_state :: state where
  "cached_state =
     empty_state\<lparr>fs := [asc ''report.txt'' \<mapsto> plain_file hello_bytes],
       cache := [asc ''report.txt'' \<mapsto>
         \<lparr>rec_hash = asc ''1753000000.0_11'', rec_text = map unat hello_bytes,
          rec_timestamp = asc ''2025-07-20T09:00:00''\<rparr>]\<rparr>"

definition pdf_bytes :: "byte list" where
  \<comment> \<open>the bytes of "%PDF"\<close>
  "pdf_bytes = [37, 80, 68, 70]"

definition scan_world :: "nat \<Rightarrow> world" where
  \<comment> \<open>a PDF of \<open>n\<close> pages in which pdfplumber finds no text and PyMuPDF finds a title on
      the first page\<close>
  "scan_world n =
     demo_world\<lparr>pdfplumber_open := (\<lambda>bs. Inr (replicate n (Inr []))),
       fitz_open := (\<lambda>bs. Inr (Inr (asc ''Title'') # replicate (n - 1) (Inr [])))\<rparr>"

definition encrypted_world :: world where
  \<comment> \<open>a scanned one-page PDF with owner-password protection: the first two parsers open
      it and find no text, PyPDF2 reports it encrypted, OCR reads the page image\<close>
  "encrypted_world =
     demo_world\<lparr>pdfplumber_open := (\<lambda>bs. Inr [Inr []]),
       fitz_open := (\<lambda>bs. Inr [Inr []]),
       PyPDF2_PdfReader := (\<lambda>bs. Inr (PdfReader True [Inr []])),
       convert_from_path := (\<lambda>bs. Inr 1),
       image_to_string := (\<lambda>bs i. Inr (asc ''CONFIDENTIAL''))\<rparr>"

definition not_a_zip :: exn where
  "not_a_zip = Exn OtherException (asc ''File is not a zip file'')"

definition plain_content :: "byte list \<Rightarrow> content" where
  "plain_content bs = Content bs (Some not_a_zip) None []"

definition zip_file :: "(ustr \<times> zmember) list \<Rightarrow> disk_file" where
  \<comment> \<open>a sound ZIP file with the given members\<close>
  "zip_file members =
     \<lparr>f_content = Content [80, 75, 3, 4] None None members, f_mtime = asc ''1753000000.0''\<rparr>"

definition zip_state :: "(ustr \<times> zmember) list \<Rightarrow> state" where
  "zip_state members = empty_state\<lparr>fs := [asc ''bundle.zip'' \<mapsto> zip_file members]\<rparr>"

definition blank_state :: state where
  \<comment> \<open>\<open>blank.txt\<close> holds two spaces and a line feed\<close>
  "blank_state = empty_state\<lparr>fs := [asc ''blank.txt'' \<mapsto> plain_file [32, 32, 10]]\<rparr>"

definition empty_note_members :: "(ustr \<times> zmember) list" where
  \<comment> \<open>one supported entry, of zero bytes\<close>
  "empty_note_members = [(asc ''empty.txt'', ZMember None (plain_content []))]"

definition broken_pdf_world :: world where
  "broken_pdf_world =
     demo_world\<lparr>pdfplumber_open := (\<lambda>bs. Inl (Exn OtherException (asc ''No /Root object''))),
       convert_from_path := (\<lambda>bs. Inl (Exn OtherException (asc ''Unable to get page count'')))\<rparr>"

definition docx_members :: "(ustr \<times> zmember) list" where
  \<comment> \<open>one document entry; the stand-in DOCX reader finds the paragraph "Hello" in it\<close>
  "docx_members = [(asc ''report.docx'', ZMember None (plain_content [80, 75, 5, 6]))]"

definition three_pages :: "(exn + ustr) list" where
  "three_pages = [Inr (asc ''one''), Inr (asc ''two''), Inr (asc ''three'')]"

definition cancel_world :: world where
  \<comment> \<open>the flag is set at every read\<close>
  "cancel_world =
     demo_world\<lparr>read_cancelled := (\<lambda>st i. True), pdfplumber_open := (\<lambda>bs. Inr three_pages)\<rparr>"

definition two_notes :: "(ustr \<times> zmember) list" where
  "two_notes =
     [(asc ''a.txt'', ZMember None (plain_content [104, 105])),
      (asc ''b.txt'', ZMember None (plain_content [121, 111]))]"

definition uncached_state :: state where
  \<comment> \<open>\<open>report.txt\<close> on disk, nothing cached\<close>
  "uncached_state = empty_state\<lparr>fs := [asc ''report.txt'' \<mapsto> plain_file hello_bytes]\<rparr>"












fun stage_rank :: "stage \<Rightarrow> nat" where
  "stage_rank Pdfplumber = 0"
| "stage_rank PyMuPDF = 1"
| "stage_rank PyPDF2 = 2"
| "stage_rank OCR = 3"

definition blank_pages :: "(exn + ustr) list" where
  "blank_pages = [Inr [], Inr [], Inr []]"

definition cancel_in_stage_world :: "stage \<Rightarrow> world" where
  \<comment> \<open>a document of three pages in which the stages before \<open>st\<close> find no text and stage
      \<open>st\<close> finds text on every page; the flag is set while \<open>st\<close> processes its first page
      and stays set\<close>
  "cancel_in_stage_world st =
     demo_world\<lparr>read_cancelled :=
         (\<lambda>st' i. stage_rank st < stage_rank st' \<or> (st' = st \<and> 1 \<le> i)),
       pdfplumber_open := (\<lambda>bs. Inr (if st = Pdfplumber then three_pages else blank_pages)),
       fitz_open := (\<lambda>bs. Inr (if st = PyMuPDF then three_pages else blank_pages)),
       PyPDF2_PdfReader :=
         (\<lambda>bs. Inr (PdfReader False (if st = PyPDF2 then three_pages else blank_pages))),
       convert_from_path := (\<lambda>bs. Inr 3),
       image_to_string := (\<lambda>bs i. Inr (asc ''scan''))\<rparr>"

definition bad_crc :: exn where
  \<comment> \<open>what reading a member with a wrong checksum raises\<close>
  "bad_crc = Exn OtherException (asc ''Bad CRC-32 for file '' @ [39] @ asc ''lost.md'' @ [39])"

definition mixed_members :: "(ustr \<times> zmember) list" where
  \<comment> \<open>a document, a note holding "hi", a PDF that no parser opens, a note that cannot be
      read, a note of zero bytes and a picture\<close>
  "mixed_members =
     [(asc ''report.docx'', ZMember None (plain_content [80, 75, 5, 6])),
      (asc ''notes.txt'', ZMember None (plain_content [104, 105])),
      (asc ''broken.pdf'', ZMember None (plain_content [1, 2, 3])),
      (asc ''lost.md'', ZMember (Some bad_crc) (plain_content [])),
      (asc ''empty.txt'', ZMember None (plain_content [])),
      (asc ''logo.png'', ZMember None (plain_content [137, 80]))]"
section \<open>Facts about strings and the PDF chain\<close>

lemma py_strip_eq_Nil_iff: "py_strip s = [] \<longleftrightarrow> list_all py_isspace s"
proof -
  have a: "dropWhile py_isspace xs = [] \<longleftrightarrow> list_all py_isspace xs" for xs
    by (simp add: dropWhile_eq_Nil_conv list_all_iff)
  have b: "list_all py_isspace (dropWhile py_isspace xs) \<longleftrightarrow> list_all py_isspace xs" for xs
  proof (cases "dropWhile py_isspace xs = []")
    case True
    have "list_all py_isspace xs" using a [of xs] True by blast
    moreover have "list_all py_isspace (dropWhile py_isspace xs)" unfolding True by simp
    ultimately show ?thesis by blast
  next
    case False
    then have "\<not> py_isspace (hd (dropWhile py_isspace xs))" by (rule hd_dropWhile)
    with False have "\<not> list_all py_isspace (dropWhile py_isspace xs)"
      by (cases "dropWhile py_isspace xs") auto
    moreover from False have "\<not> list_all py_isspace xs" using a [of xs] by blast
    ultimately show ?thesis by simp
  qed
  have "py_strip s = [] \<longleftrightarrow> list_all py_isspace (rev (dropWhile py_isspace s))"
    unfolding py_strip_def using a [of "rev (dropWhile py_isspace s)"] by (simp only: rev_is_Nil_conv)
  also have "\<dots> \<longleftrightarrow> list_all py_isspace (dropWhile py_isspace s)"
    by (simp add: list_all_iff)
  also have "\<dots> \<longleftrightarrow> list_all py_isspace s" by (rule b)
  finally show ?thesis .
qed

lemma truthy_text_iff: "truthy_text t \<longleftrightarrow> list_ex (\<lambda>c. \<not> py_isspace c) t"
  unfolding truthy_text_def py_strip_eq_Nil_iff
  by (cases t) (auto simp: list_all_iff list_ex_iff)

lemma set_py_join: "x \<in> set xs \<Longrightarrow> set x \<subseteq> set (py_join sep xs)"
  by (induction sep xs rule: py_join.induct) auto

lemma truthy_py_join:
  "x \<in> set xs \<Longrightarrow> truthy_text x \<Longrightarrow> truthy_text (py_join sep xs)"
  using set_py_join [of x xs sep] unfolding truthy_text_iff list_ex_iff by blast

lemma strip_py_join:
  "x \<in> set xs \<Longrightarrow> truthy_text x \<Longrightarrow> py_strip (py_join sep xs) \<noteq> []"
  using truthy_py_join [of x xs sep] by (simp add: truthy_text_def)

lemma page_loop_blank_pages:
  assumes "\<And>j. \<not> read_cancelled w st j"
  shows "page_loop w st i (replicate n (Inr [])) (texts, tr)
         = (texts, tr @ map (PageProcessed st) [i..<i + n])"
proof (induction n arbitrary: i tr)
  case 0
  show ?case by simp
next
  case (Suc n)
  have "[i..<i + Suc n] = i # [Suc i..<Suc i + n]"
    by (simp add: upt_rec)
  with Suc [of "Suc i" "tr @ [PageProcessed st i]"] assms show ?case
    by (simp add: truthy_text_def)
qed

lemma warning_block_not_blank: "py_strip (warning_block st n) \<noteq> []"
  unfolding py_strip_eq_Nil_iff
  by (simp add: warning_block_def WARN_HEAD_def py_isspace_def)

lemma page_block_not_blank: "py_strip (page_block st n t) \<noteq> []"
  unfolding py_strip_eq_Nil_iff
  by (simp add: page_block_def PAGE_HEAD_def py_isspace_def asc_def)

lemma not_encrypted_in_message:
  "py_in (asc ''encrypted'') (py_lower MSG_ENCRYPTED) = False"
  by (simp add: MSG_ENCRYPTED_def asc_def py_lower_def py_lower_cp_def)

lemma page_block_truthy: "truthy_text (page_block st n t)"
  unfolding truthy_text_iff
  by (simp add: page_block_def PAGE_HEAD_def asc_def py_isspace_def)

lemma warning_block_truthy: "truthy_text (warning_block st n)"
  unfolding truthy_text_iff
  by (simp add: warning_block_def WARN_HEAD_def py_isspace_def)

lemma page_loop_take:
  assumes "read_cancelled w st (i + k)" and "k \<le> length pages"
  shows "page_loop w st i pages acc = page_loop w st i (take k pages) acc"
  using assms
proof (induction pages arbitrary: i k acc)
  case Nil
  show ?case by simp
next
  case (Cons page pages)
  obtain texts tr where acc: "acc = (texts, tr)" by (cases acc)
  show ?case
  proof (cases k)
    case 0
    with Cons.prems acc show ?thesis by simp
  next
    case (Suc k')
    with Cons.prems have "read_cancelled w st (Suc i + k')" "k' \<le> length pages" by simp_all
    from Cons.IH [OF this] Suc acc show ?thesis by simp
  qed
qed

lemma page_loop_truthy:
  "list_all truthy_text texts \<Longrightarrow> list_all truthy_text (fst (page_loop w st i pages (texts, tr)))"
proof (induction pages arbitrary: i texts tr)
  case Nil
  then show ?case by simp
next
  case (Cons page pages)
  then show ?case
    by (cases page) (simp_all add: page_block_truthy)
qed

lemma decode_stdout_flag:
  "decode_stdout (w\<lparr>read_cancelled := c\<rparr>) out = decode_stdout w out"
  by (simp add: decode_stdout_def cong: option.case_cong)

lemma simple_ocr_loop_flag:
  "simple_ocr_loop (w\<lparr>read_cancelled := c\<rparr>) bs idx acc = simple_ocr_loop w bs idx acc"
proof (induction idx arbitrary: acc)
  case Nil
  show ?case by (cases acc) simp
next
  case (Cons i idx)
  show ?case
    by (cases acc) (auto simp: Cons decode_stdout_flag split: sum.splits prod.splits)
qed

lemma simple_ocr_flag:
  "simple_ocr (w\<lparr>read_cancelled := c\<rparr>) bs tr = simple_ocr w bs tr"
  by (simp add: simple_ocr_def simple_ocr_loop_flag cong: option.case_cong sum.case_cong if_cong)

lemma extract_from_pdf_simple_flag:
  "extract_from_pdf_simple (w\<lparr>read_cancelled := c\<rparr>) filepath fo
   = extract_from_pdf_simple w filepath fo"
  by (simp add: extract_from_pdf_simple_def pdf_simple_body_def simple_ocr_flag
      cong: option.case_cong if_cong)

lemma cancelled_pdfplumber_returns_partial:
  assumes "pdfplumber_open w (cbytes (f_content f)) = Inr pages"
    and "cbytes (f_content f) \<noteq> []"
    and "read_cancelled w Pdfplumber k" and "k \<le> length pages"
    and "partial = page_loop w Pdfplumber 0 (take k pages)
           (with_warning Pdfplumber (length pages) [], [StageStarted Pdfplumber])"
    and "fst partial \<noteq> []"
  shows "extract_from_pdf w filepath (Some f)
         = (Inr (py_join SEP_BLANK_LINE (fst partial)), snd partial)"
proof -
  have loop: "page_loop w Pdfplumber 0 pages
      (with_warning Pdfplumber (length pages) [], [StageStarted Pdfplumber]) = partial"
    using page_loop_take [of w Pdfplumber 0 k pages] assms(3,4,5) by simp
  have "list_all truthy_text (with_warning Pdfplumber (length pages) [])"
    by (simp add: with_warning_def warning_block_truthy)
  from page_loop_truthy [OF this, of w Pdfplumber 0 "take k pages" "[StageStarted Pdfplumber]"]
  have "list_all truthy_text (fst partial)"
    using assms(5) by simp
  with assms(6) obtain x where "x \<in> set (fst partial)" "truthy_text x"
    by (cases "fst partial") auto
  then have "py_strip (py_join SEP_BLANK_LINE (fst partial)) \<noteq> []"
    by (rule strip_py_join)
  then have res: "pdf_result (fst partial) = Inr (py_join SEP_BLANK_LINE (fst partial))"
    by (simp add: pdf_result_def)
  have s1: "stage_pdfplumber w (cbytes (f_content f)) = (Inr (fst partial), snd partial)"
    by (simp add: stage_pdfplumber_def assms(1) loop split: prod.splits)
  show ?thesis
    using assms(2,6) by (simp add: extract_from_pdf_def pdf_chain_def s1 res)
qed

lemma pdfplumber_password_fails:
  assumes "pdfplumber_open w (cbytes (f_content f)) = Inl e"
    and "py_in (asc ''password'') (py_lower (msg e)) \<or> py_in (asc ''encrypted'') (py_lower (msg e))"
    and "cbytes (f_content f) \<noteq> []"
  shows "extract_from_pdf w filepath (Some f)
     = (Inl (Exn OtherException
          (MSG_PDF_OPEN_ERROR @ filepath @ COLON_SPACE @ MSG_PASSWORD_PROTECTED @ msg e)),
        [StageStarted Pdfplumber])"
  using assms by (simp add: extract_from_pdf_def pdf_chain_def stage_pdfplumber_def)

lemma page_loop_trace:
  "e \<in> set (snd (page_loop w st i pages (texts, tr))) \<Longrightarrow>
     e \<in> set tr
     \<or> (\<exists>j. e = PageProcessed st j \<and> i \<le> j \<and> (\<forall>l. i \<le> l \<and> l \<le> j \<longrightarrow> \<not> read_cancelled w st l))"
proof (induction pages arbitrary: i texts tr)
  case Nil
  then show ?case by simp
next
  case (Cons page pages)
  show ?case
  proof (cases "read_cancelled w st i")
    case True
    with Cons.prems show ?thesis by simp
  next
    case False
    let ?texts = "case page of Inl e \<Rightarrow> texts
                  | Inr t \<Rightarrow> if truthy_text t then texts @ [page_block st (Suc i) t] else texts"
    from Cons.prems False
    have "e \<in> set (snd (page_loop w st (Suc i) pages (?texts, tr @ [PageProcessed st i])))"
      by simp
    from Cons.IH [OF this]
    consider "e \<in> set tr" | "e = PageProcessed st i"
      | j where "e = PageProcessed st j" "Suc i \<le> j"
          "\<forall>l. Suc i \<le> l \<and> l \<le> j \<longrightarrow> \<not> read_cancelled w st l"
      by auto
    then show ?thesis
    proof cases
      case 1
      then show ?thesis by simp
    next
      case 2
      with False show ?thesis by auto
    next
      case 3
      have "\<not> read_cancelled w st l" if "i \<le> l" "l \<le> j" for l
      proof (cases "l = i")
        case True
        with False show ?thesis by simp
      next
        case ne: False
        with that have "Suc i \<le> l" by simp
        with 3(3) that show ?thesis by blast
      qed
      with 3(1,2) show ?thesis by auto
    qed
  qed
qed

lemma page_loop_flag_read:
  assumes "flag_read w tr"
  shows "flag_read w (snd (page_loop w st 0 pages (texts, tr @ [StageStarted st'])))"
  unfolding flag_read_def
proof (intro allI impI, elim conjE)
  fix sx i j
  assume e: "PageProcessed sx i \<in> set (snd (page_loop w st 0 pages (texts, tr @ [StageStarted st'])))"
    and j: "j \<le> i"
  from page_loop_trace [OF e]
  consider "PageProcessed sx i \<in> set tr"
    | "sx = st" "\<forall>l. l \<le> i \<longrightarrow> \<not> read_cancelled w st l"
    by auto
  then show "\<not> read_cancelled w sx j"
  proof cases
    case 1
    with assms j show ?thesis unfolding flag_read_def by blast
  next
    case 2
    with j show ?thesis by simp
  qed
qed

lemma flag_read_stage_started:
  "flag_read w tr \<Longrightarrow> flag_read w (tr @ [StageStarted st])"
  by (simp add: flag_read_def)

lemma flag_read_Nil: "flag_read w []" "flag_read w [StageStarted st]"
  by (simp_all add: flag_read_def)

lemma stage_pdfplumber_flag_read: "flag_read w (snd (stage_pdfplumber w bs))"
  using page_loop_flag_read [OF flag_read_Nil(1), of w Pdfplumber _ _ Pdfplumber]
  by (auto simp: stage_pdfplumber_def flag_read_Nil case_prod_beta split: sum.splits)

lemma stage_pymupdf_flag_read:
  "flag_read w tr \<Longrightarrow> flag_read w (snd (stage_pymupdf w bs (texts, tr)))"
  using page_loop_flag_read [of w tr PyMuPDF _ _ PyMuPDF]
  by (auto simp: stage_pymupdf_def flag_read_stage_started split: option.splits sum.splits)

lemma stage_pypdf2_flag_read:
  "flag_read w tr \<Longrightarrow> flag_read w (snd (stage_pypdf2 w bs (texts, tr)))"
  using page_loop_flag_read [of w tr PyPDF2 _ _ PyPDF2]
  by (auto simp: stage_pypdf2_def flag_read_stage_started case_prod_beta
      split: option.splits sum.splits)

lemma stage_ocr_flag_read:
  "flag_read w tr \<Longrightarrow> flag_read w (snd (stage_ocr w bs (texts, tr)))"
  using page_loop_flag_read [of w tr OCR _ _ OCR]
  by (auto simp: stage_ocr_def flag_read_stage_started case_prod_beta
      split: option.splits sum.splits)

lemma pdf_chain_flag_read: "flag_read w (snd (pdf_chain w filepath fo))"
proof (cases fo)
  case None
  then show ?thesis by (simp add: pdf_chain_def flag_read_Nil)
next
  case (Some f)
  let ?bs = "cbytes (f_content f)"
  obtain r1 tr1 where s1: "stage_pdfplumber w ?bs = (r1, tr1)"
    by (cases "stage_pdfplumber w ?bs")
  have f1: "flag_read w tr1"
    using stage_pdfplumber_flag_read [of w ?bs] s1 by simp
  show ?thesis
  proof (cases r1)
    case (Inl e)
    with Some s1 f1 show ?thesis
      by (simp add: pdf_chain_def flag_read_Nil)
  next
    case (Inr texts1)
    obtain texts2 tr2 where s2: "(if texts1 = [] then stage_pymupdf w ?bs (texts1, tr1)
        else (texts1, tr1)) = (texts2, tr2)"
      by (cases "if texts1 = [] then stage_pymupdf w ?bs (texts1, tr1) else (texts1, tr1)")
    have f2: "flag_read w tr2"
      using stage_pymupdf_flag_read [OF f1, of ?bs texts1] s2 f1
      by (auto split: if_splits)
    obtain r3 tr3 where s3: "(if texts2 = [] then stage_pypdf2 w ?bs (texts2, tr2)
        else (Inr texts2, tr2)) = (r3, tr3)"
      by (cases "if texts2 = [] then stage_pypdf2 w ?bs (texts2, tr2) else (Inr texts2, tr2)")
    have f3: "flag_read w tr3"
      using stage_pypdf2_flag_read [OF f2, of ?bs texts2] s3 f2
      by (auto split: if_splits)
    show ?thesis
    proof (cases r3)
      case (Inl e)
      with Some s1 Inr s2 s3 f3 show ?thesis
        by (simp add: pdf_chain_def flag_read_Nil)
    next
      case r3: (Inr texts3)
      obtain r4 tr4 where s4: "(if texts3 = [] then stage_ocr w ?bs (texts3, tr3)
          else (Inr texts3, tr3)) = (r4, tr4)"
        by (cases "if texts3 = [] then stage_ocr w ?bs (texts3, tr3) else (Inr texts3, tr3)")
      have f4: "flag_read w tr4"
        using stage_ocr_flag_read [OF f3, of ?bs texts3] s4 f3
        by (auto split: if_splits)
      from Some s1 Inr s2 s3 r3 s4 f4 show ?thesis
        by (cases r4) (simp_all add: pdf_chain_def flag_read_Nil)
    qed
  qed
qed

lemma extract_from_pdf_flag_read:
  "PageProcessed st i \<in> set (snd (extract_from_pdf w filepath fo)) \<Longrightarrow> j \<le> i
    \<Longrightarrow> \<not> read_cancelled w st j"
proof -
  have "snd (extract_from_pdf w filepath fo) = snd (pdf_chain w filepath fo)"
    by (simp add: extract_from_pdf_def split: prod.splits sum.splits)
  with pdf_chain_flag_read [of w filepath fo] show
    "PageProcessed st i \<in> set (snd (extract_from_pdf w filepath fo)) \<Longrightarrow> j \<le> i
    \<Longrightarrow> \<not> read_cancelled w st j"
    unfolding flag_read_def by metis
qed

lemma pdf_result_blocks:
  assumes "list_all truthy_text texts" and "texts \<noteq> []"
  shows "pdf_result texts = Inr (py_join SEP_BLANK_LINE texts)"
proof -
  from assms obtain x where "x \<in> set texts" "truthy_text x"
    by (cases texts) auto
  then have "py_strip (py_join SEP_BLANK_LINE texts) \<noteq> []"
    by (rule strip_py_join)
  then show ?thesis by (simp add: pdf_result_def)
qed

lemma partial_truthy:
  assumes "partial = page_loop w st 0 pages (with_warning st n [], tr)"
  shows "list_all truthy_text (fst partial)"
proof -
  have "list_all truthy_text (with_warning st n [])"
    by (simp add: with_warning_def warning_block_truthy)
  from page_loop_truthy [OF this, of w st 0 pages tr] assms show ?thesis by simp
qed

lemma cancelled_pymupdf_returns_partial:
  assumes "cbytes (f_content f) \<noteq> []"
    and "stage_pdfplumber w (cbytes (f_content f)) = (Inr [], tr1)"
    and "import_fitz w = None" and "fitz_open w (cbytes (f_content f)) = Inr pages"
    and "read_cancelled w PyMuPDF k" and "k \<le> length pages"
    and "partial = page_loop w PyMuPDF 0 (take k pages)
           (with_warning PyMuPDF (length pages) [], tr1 @ [StageStarted PyMuPDF])"
    and "fst partial \<noteq> []"
  shows "extract_from_pdf w filepath (Some f)
         = (Inr (py_join SEP_BLANK_LINE (fst partial)), snd partial)"
proof -
  have loop: "page_loop w PyMuPDF 0 pages
      (with_warning PyMuPDF (length pages) [], tr1 @ [StageStarted PyMuPDF]) = partial"
    using page_loop_take [of w PyMuPDF 0 k pages] assms(5,6,7) by simp
  have res: "pdf_result (fst partial) = Inr (py_join SEP_BLANK_LINE (fst partial))"
    using pdf_result_blocks [OF partial_truthy [OF assms(7)] assms(8)] .
  obtain ts tr where p: "partial = (ts, tr)" by (cases partial)
  have s2: "stage_pymupdf w (cbytes (f_content f)) ([], tr1) = (ts, tr)"
    by (simp add: stage_pymupdf_def assms(3,4) loop p)
  show ?thesis
    using assms(1,8) res by (simp add: extract_from_pdf_def pdf_chain_def assms(2) s2 p)
qed

lemma cancelled_pypdf2_returns_partial:
  assumes "cbytes (f_content f) \<noteq> []"
    and "stage_pdfplumber w (cbytes (f_content f)) = (Inr [], tr1)"
    and "stage_pymupdf w (cbytes (f_content f)) ([], tr1) = ([], tr2)"
    and "import_PyPDF2 w = None"
    and "PyPDF2_PdfReader w (cbytes (f_content f)) = Inr (PdfReader False pages)"
    and "read_cancelled w PyPDF2 k" and "k \<le> length pages"
    and "partial = page_loop w PyPDF2 0 (take k pages)
           (with_warning PyPDF2 (length pages) [], tr2 @ [StageStarted PyPDF2])"
    and "fst partial \<noteq> []"
  shows "extract_from_pdf w filepath (Some f)
         = (Inr (py_join SEP_BLANK_LINE (fst partial)), snd partial)"
proof -
  have loop: "page_loop w PyPDF2 0 pages
      (with_warning PyPDF2 (length pages) [], tr2 @ [StageStarted PyPDF2]) = partial"
    using page_loop_take [of w PyPDF2 0 k pages] assms(6,7,8) by simp
  have res: "pdf_result (fst partial) = Inr (py_join SEP_BLANK_LINE (fst partial))"
    using pdf_result_blocks [OF partial_truthy [OF assms(8)] assms(9)] .
  have s3: "stage_pypdf2 w (cbytes (f_content f)) ([], tr2) = (Inr (fst partial), snd partial)"
    by (simp add: stage_pypdf2_def assms(4,5) loop case_prod_beta)
  show ?thesis
    using assms(1,9)
    by (simp add: extract_from_pdf_def pdf_chain_def assms(2,3) s3 res)
qed

lemma cancelled_ocr_returns_partial:
  assumes "cbytes (f_content f) \<noteq> []"
    and "stage_pdfplumber w (cbytes (f_content f)) = (Inr [], tr1)"
    and "stage_pymupdf w (cbytes (f_content f)) ([], tr1) = ([], tr2)"
    and "stage_pypdf2 w (cbytes (f_content f)) ([], tr2) = (Inr [], tr3)"
    and "TESSERACT_AVAILABLE w" and "import_pdf2image w = None"
    and "poppler_in_known_dir w \<or> poppler_on_PATH w"
    and "convert_from_path w (cbytes (f_content f)) = Inr n"
    and "read_cancelled w OCR k" and "k \<le> n"
    and "partial = page_loop w OCR 0 (map (image_to_string w (cbytes (f_content f))) [0..<k])
           (with_warning OCR n [], tr3 @ [StageStarted OCR])"
    and "fst partial \<noteq> []"
  shows "extract_from_pdf w filepath (Some f)
         = (Inr (py_join SEP_BLANK_LINE (fst partial)), snd partial)"
proof -
  let ?bs = "cbytes (f_content f)"
  have tk: "take k (map (image_to_string w ?bs) [0..<n]) = map (image_to_string w ?bs) [0..<k]"
    using assms(10) by (simp add: take_map min_def)
  have loop: "page_loop w OCR 0 (map (image_to_string w ?bs) [0..<n])
      (with_warning OCR n [], tr3 @ [StageStarted OCR]) = partial"
    using page_loop_take [of w OCR 0 k "map (image_to_string w ?bs) [0..<n]"] assms(9,10,11)
    by (simp add: tk)
  have res: "pdf_result (fst partial) = Inr (py_join SEP_BLANK_LINE (fst partial))"
    using pdf_result_blocks [OF partial_truthy [OF assms(11)] assms(12)] .
  have s4: "stage_ocr w ?bs ([], tr3) = (Inr (fst partial), snd partial)"
    using assms(5,6,7,8) by (simp add: stage_ocr_def loop case_prod_beta)
  show ?thesis
    using assms(1,12)
    by (simp add: extract_from_pdf_def pdf_chain_def assms(2,3,4) s4 res)
qed

lemma blank_stage:
  assumes "\<And>i. \<not> read_cancelled w st i"
  shows "page_loop w st 0 blank_pages ([], tr)
     = ([], tr @ [PageProcessed st 0, PageProcessed st 1, PageProcessed st 2])"
  using assms by (simp add: blank_pages_def truthy_text_def numeral_2_eq_2)

lemma first_page_only:
  assumes "\<not> read_cancelled w st 0" and "read_cancelled w st 1" and "truthy_text t"
  shows "page_loop w st 0 (Inr t # rest) ([], tr)
     = ([page_block st 1 t], tr @ [PageProcessed st 0])"
  using assms by (cases rest) simp_all


section \<open>Facts about the archive extractor and the dispatcher\<close>

text \<open>
  Every block the archive extractor appends starts with a visible label, so a joined
  result is blank only when there is no block.
\<close>

lemma file_block_truthy: "truthy_text (file_block n t)"
  unfolding truthy_text_iff
  by (simp add: file_block_def BLOCK_FILE_HEAD_def asc_def py_isspace_def)

lemma ocr_failed_block_truthy: "truthy_text (ocr_failed_block n)"
  unfolding truthy_text_iff
  by (simp add: ocr_failed_block_def BLOCK_OCR_ERROR_HEAD_def asc_def py_isspace_def)

lemma ocr_error_block_truthy: "truthy_text (ocr_error_block n m)"
  unfolding truthy_text_iff
  by (simp add: ocr_error_block_def BLOCK_OCR_ERROR_HEAD_def asc_def py_isspace_def)

lemma no_text_block_truthy: "truthy_text (no_text_block n)"
  unfolding truthy_text_iff
  by (simp add: no_text_block_def BLOCK_PROCESSING_ERROR_HEAD_def asc_def py_isspace_def)

lemma read_error_block_truthy: "truthy_text (read_error_block n m)"
  unfolding truthy_text_iff
  by (simp add: read_error_block_def BLOCK_READ_ERROR_HEAD_def asc_def py_isspace_def)

lemmas block_truthy = file_block_truthy ocr_failed_block_truthy ocr_error_block_truthy
  no_text_block_truthy read_error_block_truthy

lemma cache_log_events [simp]: "cache (log_events s evs) = cache s"
  by (simp add: log_events_def)

lemma cache_unlink [simp]: "cache (unlink s p) = cache s"
  by (simp add: unlink_def)

lemma cache_create_temp [simp]: "cache (snd (create_temp w s n c)) = cache s"
  by (simp add: create_temp_def)

lemma pdf_entry_shape:
  "\<exists>b. pdf_entry w n p all_texts s = (all_texts @ [b], log_events s (snd (extract_from_pdf_simple w p (fs s p))))
       \<and> truthy_text b"
  by (auto simp: pdf_entry_def block_truthy split: prod.splits sum.splits)

lemma text_entry_shape:
  "\<exists>more. text_entry w n bs all_texts = all_texts @ more \<and> list_all truthy_text more
      \<and> length more = (if text_decodes_nonblank w bs then 1 else 0)"
  by (auto simp: text_entry_def text_decodes_nonblank_def block_truthy split: option.splits)

lemma archive_entry_shape:
  "\<exists>more. fst (archive_entry w members n all_texts s) = all_texts @ more
      \<and> list_all truthy_text more
      \<and> length more = (if contributes_block w members n then 1 else 0)
      \<and> (cache (snd (archive_entry w members n all_texts s)) = cache s \<or> more \<noteq> [])"
proof (cases "zip_open members n")
  case None
  then show ?thesis
    by (simp add: archive_entry.simps contributes_block_def block_truthy)
next
  case (Some member)
  show ?thesis
  proof (cases "zread_error member")
    case e: (Some e)
    with Some show ?thesis
      by (simp add: archive_entry.simps contributes_block_def block_truthy)
  next
    case None
    show ?thesis
    proof (cases "cbytes (zdata member) = []")
      case True
      with Some None show ?thesis
        by (simp add: archive_entry.simps contributes_block_def)
    next
      case False
      show ?thesis
      proof (cases "ends_with_any n [EXT_TXT, EXT_MD]")
        case True
        from text_entry_shape [of w n "cbytes (zdata member)" all_texts]
        obtain more where "text_entry w n (cbytes (zdata member)) all_texts = all_texts @ more"
          "list_all truthy_text more"
          "length more = (if text_decodes_nonblank w (cbytes (zdata member)) then 1 else 0)"
          by blast
        with Some None False True show ?thesis
          by (simp add: archive_entry.simps contributes_block_def)
      next
        case notext: False
        show ?thesis
        proof (cases "ends_with_any n [EXT_PDF, EXT_DOCX, EXT_DOC, EXT_RTF]")
          case False
          with Some None \<open>cbytes (zdata member) \<noteq> []\<close> notext show ?thesis
            by (simp add: archive_entry.simps contributes_block_def)
        next
          case True
          show ?thesis
          proof (cases "ends_with_any n [EXT_PDF]")
            case pdf: True
            obtain p s1 where ct: "create_temp w (log_events s [EntryProcessed n]) n (zdata member) = (p, s1)"
              by (cases "create_temp w (log_events s [EntryProcessed n]) n (zdata member)")
            have c1: "cache s1 = cache s"
              using cache_create_temp [of w "log_events s [EntryProcessed n]" n "zdata member"] ct
              by simp
            from pdf_entry_shape [of w n p all_texts s1]
            obtain b where "pdf_entry w n p all_texts s1
                = (all_texts @ [b], log_events s1 (snd (extract_from_pdf_simple w p (fs s1 p))))"
              "truthy_text b" by blast
            with Some None \<open>cbytes (zdata member) \<noteq> []\<close> notext True pdf ct c1 show ?thesis
              by (simp add: archive_entry.simps contributes_block_def)
          next
            case nopdf: False
            with Some None \<open>cbytes (zdata member) \<noteq> []\<close> notext True show ?thesis
              by (simp add: archive_entry.simps contributes_block_def block_truthy
                  split: prod.splits)
          qed
        qed
      qed
    qed
  qed
qed

lemma archive_loop_shape:
  "\<exists>more. fst (archive_loop w members names all_texts found s) = all_texts @ more
      \<and> list_all truthy_text more
      \<and> length more
          = length (filter (\<lambda>n. ends_with_any n supported_extensions
                                  \<and> contributes_block w members n) names)
      \<and> (cache (snd (snd (archive_loop w members names all_texts found s))) = cache s
          \<or> more \<noteq> [])
      \<and> fst (snd (archive_loop w members names all_texts found s))
          = (found \<or> list_ex (\<lambda>n. ends_with_any n supported_extensions) names)"
proof (induction names arbitrary: all_texts found s)
  case Nil
  show ?case by (simp add: archive_loop.simps)
next
  case (Cons n names)
  show ?case
  proof (cases "ends_with_any n supported_extensions")
    case False
    with Cons [of all_texts found s] show ?thesis
      by (simp add: archive_loop.simps)
  next
    case True
    obtain texts1 s1 where e: "archive_entry w members n all_texts s = (texts1, s1)"
      by (cases "archive_entry w members n all_texts s")
    from archive_entry_shape [of w members n all_texts s] e
    obtain m1 where m1: "texts1 = all_texts @ m1" "list_all truthy_text m1"
      "length m1 = (if contributes_block w members n then 1 else 0)"
      "cache s1 = cache s \<or> m1 \<noteq> []"
      by auto
    from Cons [of texts1 True s1]
    obtain m2 where m2: "fst (archive_loop w members names texts1 True s1) = texts1 @ m2"
      "list_all truthy_text m2"
      "length m2 = length (filter (\<lambda>n. ends_with_any n supported_extensions
                                  \<and> contributes_block w members n) names)"
      "cache (snd (snd (archive_loop w members names texts1 True s1))) = cache s1 \<or> m2 \<noteq> []"
      "fst (snd (archive_loop w members names texts1 True s1))
          = (True \<or> list_ex (\<lambda>n. ends_with_any n supported_extensions) names)"
      by blast
    have step: "archive_loop w members (n # names) all_texts found s
        = archive_loop w members names texts1 True s1"
      using True e by (simp add: archive_loop.simps)
    show ?thesis
      apply (rule exI [where x = "m1 @ m2"])
      using True m1 m2 by (auto simp: step)
  qed
qed

text \<open>
  A relation between states that holds across each elementary update holds across
  \<open>extract_text\<close> and the archive functions: the induction follows their recursion.
\<close>

lemma state_relation:
  fixes Rel :: "state \<Rightarrow> state \<Rightarrow> bool"
  assumes refl: "\<And>s. Rel s s"
    and trans: "\<And>s s' s''. Rel s s' \<Longrightarrow> Rel s' s'' \<Longrightarrow> Rel s s''"
    and log: "\<And>s evs. Rel s (log_events s evs)"
    and tmp: "\<And>w s n c. Rel s (snd (create_temp w s n c))"
    and unl: "\<And>s p. Rel s (unlink s p)"
    and cch: "\<And>w s p t. truthy_text t \<Longrightarrow> Rel s (cache_text w s p t)"
    and err: "\<And>s m. Rel s (s\<lparr>error_log := error_log s @ [m]\<rparr>)"
  shows "Rel s (snd (extract_text w s filepath))"
    and "Rel s (snd (extract_from_archive w s filepath))"
    and "Rel s (snd (snd (archive_loop w members names all_texts found s)))"
    and "Rel s (snd (archive_entry w members file_name all_texts s))"
proof (induction w s filepath and w s filepath and w members names all_texts found s
    and w members file_name all_texts s
    rule: extract_text_extract_from_archive_archive_loop_archive_entry.induct)
  case (1 w s filepath)
  have fin: "Rel s (snd (finish_extract w filepath (r, s1)))" if "Rel s s1" for r s1
  proof (cases r)
    case (Inl e)
    then show ?thesis
      using trans [OF that err] by (simp add: finish_extract_def)
  next
    case (Inr t)
    then show ?thesis
      using trans [OF that err] trans [OF that cch]
      by (simp add: finish_extract_def)
  qed
  show ?case
  proof (cases "get_cached_text s filepath")
    case (Some t)
    then show ?thesis by (simp add: extract_text.simps refl)
  next
    case None
    let ?ext = "py_lower (path_suffix filepath)"
    show ?thesis
    proof (cases "?ext \<notin> set SUPPORTED_pdfs \<and> ?ext \<notin> set SUPPORTED_images \<and> ?ext \<noteq> EXT_DOCX
        \<and> ?ext \<notin> set [EXT_DOC, EXT_RTF] \<and> ?ext \<notin> set SUPPORTED_text
        \<and> ?ext \<in> set SUPPORTED_archives")
      case True
      then have "Rel (log_events s [Invoked ArchiveExtractor filepath])
          (snd (extract_from_archive w (log_events s [Invoked ArchiveExtractor filepath]) filepath))"
        using "1.IH" None by blast
      then have "Rel s
          (snd (extract_from_archive w (log_events s [Invoked ArchiveExtractor filepath]) filepath))"
        using trans log by blast
      then have "Rel s (snd (finish_extract w filepath
          (extract_from_archive w (log_events s [Invoked ArchiveExtractor filepath]) filepath)))"
        using fin [of "snd (extract_from_archive w (log_events s [Invoked ArchiveExtractor filepath]) filepath)"
            "fst (extract_from_archive w (log_events s [Invoked ArchiveExtractor filepath]) filepath)"]
        by simp
      with None True show ?thesis
        by (simp add: extract_text.simps)
    next
      case False
      with None show ?thesis
        by (auto simp: extract_text.simps run_pdf_def split: prod.splits intro!: fin log refl)
    qed
  qed
next
  case (2 w s filepath)
  show ?case
    using "2.IH" refl
    by (auto simp: extract_from_archive.simps split: option.splits prod.splits)
next
  case (3 w members all_texts found s)
  show ?case by (simp add: archive_loop.simps refl)
next
  case (4 w members file_name rest all_texts found s)
  show ?case
  proof (cases "ends_with_any file_name supported_extensions")
    case False
    with "4.IH"(3) show ?thesis by (simp add: archive_loop.simps)
  next
    case True
    obtain x y where e: "archive_entry w members file_name all_texts s = (x, y)"
      by (cases "archive_entry w members file_name all_texts s")
    from "4.IH"(1) [OF True] e have "Rel s y" by simp
    moreover from "4.IH"(2) [OF True e [symmetric]]
    have "Rel y (snd (snd (archive_loop w members rest x True y)))" .
    ultimately show ?thesis
      using True e trans by (auto simp: archive_loop.simps)
  qed
next
  case (5 w members file_name all_texts s)
  show ?case
  proof (cases "zip_open members file_name")
    case None
    then show ?thesis by (simp add: archive_entry.simps log)
  next
    case (Some member)
    show ?thesis
    proof (cases "zread_error member = None \<and> cbytes (zdata member) \<noteq> []
        \<and> \<not> ends_with_any file_name [EXT_TXT, EXT_MD]
        \<and> ends_with_any file_name [EXT_PDF, EXT_DOCX, EXT_DOC, EXT_RTF]")
      case False
      with Some show ?thesis
        by (auto simp: archive_entry.simps log split: option.splits)
    next
      case True
      obtain p s1 where ct:
        "create_temp w (log_events s [EntryProcessed file_name]) file_name (zdata member) = (p, s1)"
        by (cases "create_temp w (log_events s [EntryProcessed file_name]) file_name (zdata member)")
      have "Rel (log_events s [EntryProcessed file_name])
          (snd (create_temp w (log_events s [EntryProcessed file_name]) file_name (zdata member)))"
        by (rule tmp)
      with ct have s1: "Rel s s1"
        using trans [OF log, of s "[EntryProcessed file_name]" s1] by simp
      show ?thesis
      proof (cases "ends_with_any file_name [EXT_PDF]")
        case pdf: True
        from pdf_entry_shape [of w file_name p all_texts s1]
        obtain b where "pdf_entry w file_name p all_texts s1
            = (all_texts @ [b], log_events s1 (snd (extract_from_pdf_simple w p (fs s1 p))))"
          by blast
        moreover have "Rel s (unlink (log_events s1 (snd (extract_from_pdf_simple w p (fs s1 p)))) p)"
          using trans [OF s1 trans [OF log unl]] .
        ultimately show ?thesis
          using Some True pdf ct by (simp add: archive_entry.simps)
      next
        case nopdf: False
        from True have "Rel s1 (snd (extract_text w s1 p))"
          using "5.IH" [OF Some _ _ _ _ ct [symmetric] nopdf] by simp
        then have "Rel s (unlink (snd (extract_text w s1 p)) p)"
          using trans [OF s1] trans [OF _ unl] by blast
        then show ?thesis
          using Some True nopdf ct by (auto simp: archive_entry.simps split: prod.splits)
      qed
    qed
  qed
qed

lemma archive_result_blocks:
  assumes "list_all truthy_text texts" and "texts \<noteq> []"
  shows "archive_result texts = Inr (py_join SEP_BLANK_LINE texts)"
    and "truthy_text (py_join SEP_BLANK_LINE texts)"
proof -
  from assms obtain x where "x \<in> set texts" "truthy_text x"
    by (cases texts) auto
  then show "truthy_text (py_join SEP_BLANK_LINE texts)"
    by (rule truthy_py_join)
  then show "archive_result texts = Inr (py_join SEP_BLANK_LINE texts)"
    by (simp add: archive_result_def truthy_text_def)
qed

lemma archive_result_Nil: "archive_result [] = Inl (Exn OtherException MSG_ARCHIVE_NO_TEXT)"
  by (simp add: archive_result_def py_strip_def)

lemma extract_from_archive_zip:
  assumes "py_lower (path_suffix filepath) = EXT_ZIP" and "fs s filepath = Some f"
    and "cbytes (f_content f) \<noteq> []" and "zip_open_error (f_content f) = None"
    and "zip_test_error (f_content f) = None"
  shows "fst (extract_from_archive w s filepath)
     = (if fst (archive_loop w (zip_members (f_content f)) (map fst (zip_members (f_content f)))
                 [] False s) = []
        then Inl (archive_error filepath (Exn OtherException
               (if zip_members (f_content f) = [] then MSG_ZIP_NO_ENTRIES
                else if list_ex (\<lambda>n. ends_with_any n supported_extensions)
                          (map fst (zip_members (f_content f)))
                then MSG_ARCHIVE_NO_TEXT else MSG_ZIP_NO_SUPPORTED)))
        else Inr (py_join SEP_BLANK_LINE
               (fst (archive_loop w (zip_members (f_content f))
                  (map fst (zip_members (f_content f))) [] False s))))"
    and "snd (extract_from_archive w s filepath)
     = snd (snd (archive_loop w (zip_members (f_content f)) (map fst (zip_members (f_content f)))
                 [] False s))"
proof -
  let ?ms = "zip_members (f_content f)"
  let ?loop = "archive_loop w ?ms (map fst ?ms) [] False s"
  from archive_loop_shape [of w ?ms "map fst ?ms" "[]" False s]
  obtain more where m: "fst ?loop = more" "list_all truthy_text more"
    "length more = length (filter (\<lambda>n. ends_with_any n supported_extensions
                                  \<and> contributes_block w ?ms n) (map fst ?ms))"
    "fst (snd ?loop) = list_ex (\<lambda>n. ends_with_any n supported_extensions) (map fst ?ms)"
    by auto
  have found: "fst (snd ?loop)" if "more \<noteq> []"
  proof -
    from that m(3) have "filter (\<lambda>n. ends_with_any n supported_extensions
        \<and> contributes_block w ?ms n) (map fst ?ms) \<noteq> []"
      by (metis length_0_conv)
    then obtain n where "n \<in> set (map fst ?ms)" "ends_with_any n supported_extensions"
      unfolding filter_empty_conv by blast
    then show ?thesis unfolding m(4) list_ex_iff by blast
  qed
  obtain texts fnd s' where l: "?loop = (texts, fnd, s')"
    by (cases ?loop) auto
  have nil: "?ms = [] \<Longrightarrow> ?loop = ([], False, s)"
    by (simp add: archive_loop.simps)
  show "fst (extract_from_archive w s filepath)
     = (if fst ?loop = []
        then Inl (archive_error filepath (Exn OtherException
               (if ?ms = [] then MSG_ZIP_NO_ENTRIES
                else if list_ex (\<lambda>n. ends_with_any n supported_extensions) (map fst ?ms)
                then MSG_ARCHIVE_NO_TEXT else MSG_ZIP_NO_SUPPORTED)))
        else Inr (py_join SEP_BLANK_LINE (fst ?loop)))"
  proof (cases "?ms = []")
    case True
    with assms nil show ?thesis
      by (simp add: extract_from_archive.simps)
  next
    case False
    show ?thesis
    proof (cases "texts = []")
      case True
      with assms False l m(4) show ?thesis
        by (auto simp: extract_from_archive.simps archive_result_Nil)
    next
      case ne: False
      with l m(1) have "more \<noteq> []" by simp
      from found [OF this] l have "fnd" by simp
      moreover from l m(1,2) ne have "archive_result texts = Inr (py_join SEP_BLANK_LINE texts)"
        using archive_result_blocks(1) [of texts] by simp
      ultimately show ?thesis
        using assms False l ne by (simp add: extract_from_archive.simps)
    qed
  qed
  show "snd (extract_from_archive w s filepath) = snd (snd ?loop)"
  proof (cases "?ms = []")
    case True
    with assms nil show ?thesis
      by (simp add: extract_from_archive.simps)
  next
    case False
    with assms l show ?thesis
      by (simp add: extract_from_archive.simps)
  qed
qed

lemma extract_from_archive_cache:
  "cache (snd (extract_from_archive w s filepath)) = cache s
   \<or> (\<exists>t. fst (extract_from_archive w s filepath) = Inr t \<and> truthy_text t)"
proof (cases "py_lower (path_suffix filepath) = EXT_ZIP \<and> (\<exists>f. fs s filepath = Some f
    \<and> cbytes (f_content f) \<noteq> [] \<and> zip_open_error (f_content f) = None
    \<and> zip_test_error (f_content f) = None)")
  case False
  then have "snd (extract_from_archive w s filepath) = s"
    by (auto simp: extract_from_archive.simps split: option.splits)
  then show ?thesis by simp
next
  case True
  then obtain f where f: "py_lower (path_suffix filepath) = EXT_ZIP" "fs s filepath = Some f"
    "cbytes (f_content f) \<noteq> []" "zip_open_error (f_content f) = None"
    "zip_test_error (f_content f) = None" by blast
  let ?ms = "zip_members (f_content f)"
  let ?loop = "archive_loop w ?ms (map fst ?ms) [] False s"
  from archive_loop_shape [of w ?ms "map fst ?ms" "[]" False s]
  have m: "list_all truthy_text (fst ?loop)"
    "cache (snd (snd ?loop)) = cache s \<or> fst ?loop \<noteq> []"
    by auto
  show ?thesis
  proof (cases "fst ?loop = []")
    case True
    with m(2) show ?thesis
      using extract_from_archive_zip(2) [OF f, of w] by simp
  next
    case False
    with m(1) show ?thesis
      using extract_from_archive_zip(1) [OF f, of w] archive_result_blocks(2) [of "fst ?loop"]
      by simp
  qed
qed

lemma new_records_truthy:
  "cache (snd (extract_text w s filepath)) q = Some r
    \<Longrightarrow> cache s q = Some r \<or> truthy_text (rec_text r)"
proof -
  let ?Rel = "\<lambda>s s'. \<forall>q r. cache s' q = Some r \<longrightarrow> cache s q = Some r \<or> truthy_text (rec_text r)"
  have "?Rel s (snd (extract_text w s filepath))"
  proof (rule state_relation(1) [where Rel = ?Rel], goal_cases)
    case 1 show ?case by simp
  next
    case (2 s s' s'') then show ?case by blast
  next
    case 3 show ?case by simp
  next
    case 4 show ?case by simp
  next
    case 5 show ?case by simp
  next
    case 6 then show ?case by (simp add: cache_text_def)
  next
    case 7 show ?case by simp
  qed
  then show "cache (snd (extract_text w s filepath)) q = Some r
    \<Longrightarrow> cache s q = Some r \<or> truthy_text (rec_text r)" by blast
qed

lemma finish_extract_result:
  "snd (fst (finish_extract w filepath (r, s1)))
     = truthy_text (fst (fst (finish_extract w filepath (r, s1))))"
  "\<not> snd (fst (finish_extract w filepath (r, s1)))
     \<Longrightarrow> cache (snd (finish_extract w filepath (r, s1))) = cache s1"
  "snd (fst (finish_extract w filepath (r, s1)))
     \<Longrightarrow> \<exists>rec. cache (snd (finish_extract w filepath (r, s1))) filepath = Some rec
           \<and> rec_text rec = fst (fst (finish_extract w filepath (r, s1)))"
  "snd (fst (finish_extract w filepath (r, s1))) \<Longrightarrow> r = Inr (fst (fst (finish_extract w filepath (r, s1))))"
  by (auto simp: finish_extract_def cache_text_def truthy_text_def split: sum.splits)

lemma extract_text_miss_shape:
  assumes "get_cached_text s filepath = None"
  shows "\<exists>r s1. extract_text w s filepath = finish_extract w filepath (r, s1)
      \<and> (cache s1 = cache s \<or> (\<exists>t. r = Inr t \<and> truthy_text t))"
proof -
  let ?ext = "py_lower (path_suffix filepath)"
  let ?a = "extract_from_archive w (log_events s [Invoked ArchiveExtractor filepath]) filepath"
  have ex: "\<exists>r s1. finish_extract w filepath x = finish_extract w filepath (r, s1)
      \<and> (cache s1 = cache s \<or> (\<exists>t. r = Inr t \<and> truthy_text t))"
    if "cache (snd x) = cache s \<or> (\<exists>t. fst x = Inr t \<and> truthy_text t)" for x
    using that by (cases x) auto
  have arch: "cache (snd ?a) = cache s \<or> (\<exists>t. fst ?a = Inr t \<and> truthy_text t)"
    using extract_from_archive_cache [of w "log_events s [Invoked ArchiveExtractor filepath]" filepath]
    by simp
  have pdf: "cache (snd (run_pdf w s filepath)) = cache s"
    by (simp add: run_pdf_def split: prod.splits)
  show ?thesis
    unfolding extract_text.simps [of w s filepath] assms option.case
    by (intro ex) (simp add: arch pdf)
qed

lemma endswith_both:
  assumes "py_endswith s a" and "py_endswith s b" and "length b \<le> length a"
  shows "take (length b) (rev a) = rev b"
proof -
  from assms(1) have "take (length b) (take (length a) (rev s)) = take (length b) (rev a)"
    by (simp add: py_endswith_def)
  with assms(2,3) show ?thesis
    by (simp add: py_endswith_def min_def)
qed

lemma document_entry_not_text_or_pdf:
  assumes "ends_with_any n [EXT_DOCX, EXT_DOC, EXT_RTF]"
  shows "\<not> ends_with_any n [EXT_TXT, EXT_MD]" and "\<not> ends_with_any n [EXT_PDF]"
    and "ends_with_any n [EXT_PDF, EXT_DOCX, EXT_DOC, EXT_RTF]"
proof -
  have x: "\<not> (py_endswith s a \<and> py_endswith s b)"
    if "length b \<le> length a" "take (length b) (rev a) \<noteq> rev b" for s a b
    using endswith_both [of s a b] that by blast
  have d: "\<not> (py_endswith s EXT_DOCX \<and> py_endswith s EXT_TXT)"
    "\<not> (py_endswith s EXT_DOCX \<and> py_endswith s EXT_MD)"
    "\<not> (py_endswith s EXT_DOCX \<and> py_endswith s EXT_PDF)"
    "\<not> (py_endswith s EXT_DOC \<and> py_endswith s EXT_TXT)"
    "\<not> (py_endswith s EXT_DOC \<and> py_endswith s EXT_MD)"
    "\<not> (py_endswith s EXT_DOC \<and> py_endswith s EXT_PDF)"
    "\<not> (py_endswith s EXT_RTF \<and> py_endswith s EXT_TXT)"
    "\<not> (py_endswith s EXT_RTF \<and> py_endswith s EXT_MD)"
    "\<not> (py_endswith s EXT_RTF \<and> py_endswith s EXT_PDF)" for s
    by (rule x; simp add: ext_defs asc_def)+
  from assms d [of "py_lower n"] show "\<not> ends_with_any n [EXT_TXT, EXT_MD]"
    by (auto simp: ends_with_any_def)
  from assms d [of "py_lower n"] show "\<not> ends_with_any n [EXT_PDF]"
    by (auto simp: ends_with_any_def)
  from assms show "ends_with_any n [EXT_PDF, EXT_DOCX, EXT_DOC, EXT_RTF]"
    by (auto simp: ends_with_any_def)
qed

lemma extract_text_success_cached:
  assumes "extract_text w s filepath = ((t, True), s')"
  shows "\<exists>rec. cache s' filepath = Some rec \<and> rec_text rec = t"
proof (cases "get_cached_text s filepath")
  case (Some c)
  with assms have "s' = s" "t = c" by (simp_all add: extract_text.simps)
  with Some show ?thesis
    by (auto simp: get_cached_text_def split: option.splits if_splits)
next
  case None
  from extract_text_miss_shape [OF None, of w]
  obtain r s1 where run: "extract_text w s filepath = finish_extract w filepath (r, s1)"
    by blast
  from assms have "snd (fst (finish_extract w filepath (r, s1)))"
    unfolding run [symmetric] by simp
  from finish_extract_result(3) [OF this] assms show ?thesis
    unfolding run [symmetric] by simp
qed

lemma trace_grows:
  "set (trace s) \<subseteq> set (trace (snd (extract_text w s filepath)))"
  "set (trace s) \<subseteq> set (trace (snd (snd (archive_loop w members names all_texts found s))))"
proof -
  let ?Rel = "\<lambda>s s'. set (trace s) \<subseteq> set (trace s')"
  show "set (trace s) \<subseteq> set (trace (snd (extract_text w s filepath)))"
  proof (rule state_relation(1) [where Rel = ?Rel], goal_cases)
    case 1 show ?case by simp
  next
    case (2 s s' s'') then show ?case by blast
  next
    case 3 show ?case by (auto simp: log_events_def)
  next
    case 4 show ?case by (simp add: create_temp_def)
  next
    case 5 show ?case by (simp add: unlink_def)
  next
    case 6 show ?case by (simp add: cache_text_def)
  next
    case 7 show ?case by simp
  qed
  show "set (trace s) \<subseteq> set (trace (snd (snd (archive_loop w members names all_texts found s))))"
  proof (rule state_relation(3) [where Rel = ?Rel], goal_cases)
    case 1 show ?case by simp
  next
    case (2 s s' s'') then show ?case by blast
  next
    case 3 show ?case by (auto simp: log_events_def)
  next
    case 4 show ?case by (simp add: create_temp_def)
  next
    case 5 show ?case by (simp add: unlink_def)
  next
    case 6 show ?case by (simp add: cache_text_def)
  next
    case 7 show ?case by simp
  qed
qed

lemma entry_processed_logged:
  "EntryProcessed n \<in> set (trace (snd (archive_entry w members n all_texts s)))"
proof -
  let ?s0 = "log_events s [EntryProcessed n]"
  have s0: "EntryProcessed n \<in> set (trace ?s0)"
    by (simp add: log_events_def)
  show ?thesis
  proof (cases "zip_open members n")
    case None
    with s0 show ?thesis by (simp add: archive_entry.simps)
  next
    case (Some member)
    show ?thesis
    proof (cases "zread_error member = None \<and> cbytes (zdata member) \<noteq> []
        \<and> \<not> ends_with_any n [EXT_TXT, EXT_MD]
        \<and> ends_with_any n [EXT_PDF, EXT_DOCX, EXT_DOC, EXT_RTF]")
      case False
      with Some s0 show ?thesis
        by (auto simp: archive_entry.simps split: option.splits)
    next
      case True
      obtain p s1 where ct: "create_temp w ?s0 n (zdata member) = (p, s1)"
        by (cases "create_temp w ?s0 n (zdata member)")
      have s1: "EntryProcessed n \<in> set (trace s1)"
        using ct s0 by (auto simp: create_temp_def)
      show ?thesis
      proof (cases "ends_with_any n [EXT_PDF]")
        case pdf: True
        from pdf_entry_shape [of w n p all_texts s1]
        obtain b where "pdf_entry w n p all_texts s1
            = (all_texts @ [b], log_events s1 (snd (extract_from_pdf_simple w p (fs s1 p))))"
          by blast
        with Some True ct pdf s1 show ?thesis
          by (simp add: archive_entry.simps unlink_def log_events_def)
      next
        case nopdf: False
        have "EntryProcessed n \<in> set (trace (snd (extract_text w s1 p)))"
          using trace_grows(1) [of s1 w p] s1 by blast
        with Some True ct nopdf show ?thesis
          by (auto simp: archive_entry.simps unlink_def split: prod.splits)
      qed
    qed
  qed
qed

lemma supported_entries_processed:
  "n \<in> set names \<Longrightarrow> ends_with_any n supported_extensions
    \<Longrightarrow> EntryProcessed n
          \<in> set (trace (snd (snd (archive_loop w members names all_texts found s))))"
proof (induction names arbitrary: all_texts found s)
  case Nil
  then show ?case by simp
next
  case (Cons a names)
  show ?case
  proof (cases "ends_with_any a supported_extensions")
    case False
    with Cons.prems have "n \<in> set names" by auto
    from Cons.IH [OF this Cons.prems(2)] False show ?thesis
      by (simp add: archive_loop.simps)
  next
    case True
    obtain x y where e: "archive_entry w members a all_texts s = (x, y)"
      by (cases "archive_entry w members a all_texts s")
    have step: "archive_loop w members (a # names) all_texts found s
        = archive_loop w members names x True y"
      using True e by (simp add: archive_loop.simps)
    show ?thesis
    proof (cases "n = a")
      case True
      with entry_processed_logged [of a w members all_texts s] e
      have "EntryProcessed n \<in> set (trace y)" by simp
      with trace_grows(2) [of y w members names x True] show ?thesis
        unfolding step by blast
    next
      case False
      with Cons.prems have "n \<in> set names" by simp
      from Cons.IH [OF this Cons.prems(2)] show ?thesis
        unfolding step .
    qed
  qed
qed

section \<open>Facts about the dispatch and the blocks of an archive\<close>

lemma extract_text_dispatch:
  "extract_text w s filepath =
     (case get_cached_text s filepath of
        Some cached_text \<Rightarrow> ((cached_text, True), s)
      | None \<Rightarrow> finish_extract w filepath (dispatch w s filepath))"
  by (simp add: extract_text.simps [of w s filepath] dispatch_def cong: option.case_cong)

lemma dispatch_cache:
  "cache (snd (dispatch w s filepath)) = cache s
   \<or> (\<exists>t. fst (dispatch w s filepath) = Inr t \<and> truthy_text t)"
proof -
  let ?a = "extract_from_archive w (log_events s [Invoked ArchiveExtractor filepath]) filepath"
  have arch: "cache (snd ?a) = cache s \<or> (\<exists>t. fst ?a = Inr t \<and> truthy_text t)"
    using extract_from_archive_cache [of w "log_events s [Invoked ArchiveExtractor filepath]" filepath]
    by simp
  have pdf: "cache (snd (run_pdf w s filepath)) = cache s"
    by (simp add: run_pdf_def split: prod.splits)
  show ?thesis
    unfolding dispatch_def using arch pdf by simp
qed

lemma archive_entry_blocks:
  "archive_entry w members n ts s
     = (ts @ expected_entry_blocks w members n s, snd (archive_entry w members n [] s))"
proof (cases "zip_open members n")
  case None
  then show ?thesis
    by (simp add: archive_entry.simps expected_entry_blocks_def)
next
  case (Some member)
  show ?thesis
  proof (cases "zread_error member")
    case e: (Some e)
    with Some show ?thesis
      by (simp add: archive_entry.simps expected_entry_blocks_def)
  next
    case None
    show ?thesis
    proof (cases "cbytes (zdata member) = []")
      case True
      with Some None show ?thesis
        by (simp add: archive_entry.simps expected_entry_blocks_def)
    next
      case False
      show ?thesis
      proof (cases "ends_with_any n [EXT_TXT, EXT_MD]")
        case True
        with Some None False show ?thesis
          by (simp add: archive_entry.simps expected_entry_blocks_def text_entry_def first_decode_def
              split: option.splits)
      next
        case notext: False
        show ?thesis
        proof (cases "ends_with_any n [EXT_PDF]")
          case True
          then have "ends_with_any n [EXT_PDF, EXT_DOCX, EXT_DOC, EXT_RTF]"
            by (simp add: ends_with_any_def)
          with Some None False notext True show ?thesis
            by (simp add: archive_entry.simps expected_entry_blocks_def pdf_entry_def create_temp_def
                log_events_def split: prod.splits sum.splits)
        next
          case nopdf: False
          show ?thesis
          proof (cases "ends_with_any n [EXT_DOCX, EXT_DOC, EXT_RTF]")
            case True
            then have "ends_with_any n [EXT_PDF, EXT_DOCX, EXT_DOC, EXT_RTF]"
              by (simp add: ends_with_any_def)
            with Some None False notext nopdf True show ?thesis
              by (simp add: archive_entry.simps expected_entry_blocks_def create_temp_def
                  log_events_def split: prod.splits)
          next
            case nodoc: False
            with nopdf have "\<not> ends_with_any n [EXT_PDF, EXT_DOCX, EXT_DOC, EXT_RTF]"
              by (simp add: ends_with_any_def)
            with Some None False notext nopdf nodoc show ?thesis
              by (simp add: archive_entry.simps expected_entry_blocks_def)
          qed
        qed
      qed
    qed
  qed
qed

lemma archive_loop_blocks:
  "fst (archive_loop w members names ts found s) = ts @ expected_blocks w members names s"
proof (induction names arbitrary: ts found s)
  case Nil
  show ?case by (simp add: archive_loop.simps)
next
  case (Cons n names)
  show ?case
  proof (cases "ends_with_any n supported_extensions")
    case False
    with Cons [of ts found s] show ?thesis
      by (simp add: archive_loop.simps)
  next
    case True
    with Cons [of "ts @ expected_entry_blocks w members n s" True "snd (archive_entry w members n [] s)"]
    show ?thesis
      by (simp add: archive_loop.simps archive_entry_blocks [of w members n ts s])
  qed
qed

lemma block_names_entry_blocks:
  "block_names_entry n (file_block n t)" "block_names_entry n (ocr_failed_block n)"
  "block_names_entry n (ocr_error_block n m)" "block_names_entry n (no_text_block n)"
  "block_names_entry n (read_error_block n m)"
  by (simp_all add: block_names_entry_def file_block_def ocr_failed_block_def
      ocr_error_block_def no_text_block_def read_error_block_def BLOCK_OCR_FAILED_TAIL_def
      BLOCK_NO_TEXT_TAIL_def BLOCK_TAIL_def)

lemma entry_blocks_shape:
  "list_all (block_names_entry n) (expected_entry_blocks w members n s)"
  "length (expected_entry_blocks w members n s) = (if contributes_block w members n then 1 else 0)"
proof -
  have pdf: "ends_with_any n [EXT_PDF, EXT_DOCX, EXT_DOC, EXT_RTF]
      \<longleftrightarrow> ends_with_any n [EXT_PDF] \<or> ends_with_any n [EXT_DOCX, EXT_DOC, EXT_RTF]"
    by (auto simp: ends_with_any_def)
  show "list_all (block_names_entry n) (expected_entry_blocks w members n s)"
    by (simp add: expected_entry_blocks_def block_names_entry_blocks
        split: option.splits sum.splits prod.splits)
  show "length (expected_entry_blocks w members n s) = (if contributes_block w members n then 1 else 0)"
    by (simp add: expected_entry_blocks_def contributes_block_def text_decodes_nonblank_def
        first_decode_def pdf split: option.splits sum.splits prod.splits)
qed

lemma archive_blocks_names:
  "list_all2 block_names_entry
     (filter (\<lambda>n. ends_with_any n supported_extensions \<and> contributes_block w members n) names)
     (expected_blocks w members names s)"
proof (induction names arbitrary: s)
  case Nil
  show ?case by simp
next
  case (Cons n names)
  show ?case
  proof (cases "ends_with_any n supported_extensions")
    case False
    with Cons [of s] show ?thesis by simp
  next
    case sup: True
    show ?thesis
    proof (cases "contributes_block w members n")
      case True
      with entry_blocks_shape [where n = n and w = w and members = members and s = s]
      obtain b where b: "expected_entry_blocks w members n s = [b]" "block_names_entry n b"
        by (cases "expected_entry_blocks w members n s") auto
      with sup True Cons [of "snd (archive_entry w members n [] s)"] show ?thesis
        by simp
    next
      case False
      with entry_blocks_shape(2) [where n = n and w = w and members = members and s = s]
      have "expected_entry_blocks w members n s = []" by simp
      with sup False Cons [of "snd (archive_entry w members n [] s)"] show ?thesis
        by simp
    qed
  qed
qed


lemma dispatch_txt:
  assumes "py_lower (path_suffix filepath) = EXT_TXT"
  shows "dispatch w s filepath
     = (extract_from_text w filepath (fs s filepath), log_events s [Invoked TextExtractor filepath])"
proof -
  have "EXT_TXT \<notin> set SUPPORTED_pdfs" "EXT_TXT \<notin> set SUPPORTED_images" "EXT_TXT \<noteq> EXT_DOCX"
    "EXT_TXT \<notin> set [EXT_DOC, EXT_RTF]" "EXT_TXT \<in> set SUPPORTED_text"
    by (simp_all add: SUPPORTED_pdfs_def SUPPORTED_images_def SUPPORTED_text_def ext_defs asc_def)
  then show ?thesis by (simp add: dispatch_def assms)
qed


section \<open>Facts about the concrete environment\<close>

lemma suffix_blank_txt: "py_lower (path_suffix (asc ''blank.txt'')) = EXT_TXT"
  by (simp add: EXT_TXT_def asc_def path_suffix_def path_name_def path_parts_def py_lower_def py_lower_cp_def)

lemma numbers_truthy:
  "truthy_text (asc ''one'')" "truthy_text (asc ''two'')" "truthy_text (asc ''three'')"
  by (simp_all add: truthy_text_iff asc_def py_isspace_def)

lemma suffix_report_txt: "py_lower (path_suffix (asc ''report.txt'')) = EXT_TXT"
  by (simp add: EXT_TXT_def asc_def path_suffix_def path_name_def path_parts_def py_lower_def py_lower_cp_def)


lemma suffix_gone_txt: "py_lower (path_suffix (asc ''gone.txt'')) = EXT_TXT"
  by (simp add: EXT_TXT_def asc_def path_suffix_def path_name_def path_parts_def py_lower_def
      py_lower_cp_def)

lemma suffix_trailing_separator:
  "path_name (asc ''backup.rar/'') = asc ''backup.rar''"
  "path_suffix (asc ''backup.rar/'') = asc ''.rar''"
  "path_suffix (asc ''a.txt/.'') = asc ''.txt''"
  "path_suffix (asc ''.bashrc'') = []"
  by (simp_all add: asc_def path_suffix_def path_name_def path_parts_def)





lemma ends_with_mixed:
  "ends_with_any (asc ''report.docx'') supported_extensions"
  "ends_with_any (asc ''notes.txt'') supported_extensions"
  "ends_with_any (asc ''broken.pdf'') supported_extensions"
  "ends_with_any (asc ''lost.md'') supported_extensions"
  "ends_with_any (asc ''empty.txt'') supported_extensions"
  "\<not> ends_with_any (asc ''logo.png'') supported_extensions"
  "ends_with_any (asc ''notes.txt'') [EXT_TXT, EXT_MD]"
  "\<not> ends_with_any (asc ''broken.pdf'') [EXT_TXT, EXT_MD]"
  "ends_with_any (asc ''broken.pdf'') [EXT_PDF]"
  "\<not> ends_with_any (asc ''report.docx'') [EXT_TXT, EXT_MD]"
  "\<not> ends_with_any (asc ''report.docx'') [EXT_PDF]"
  "ends_with_any (asc ''report.docx'') [EXT_DOCX, EXT_DOC, EXT_RTF]"
  by (simp_all add: ends_with_any_def supported_extensions_def py_endswith_def py_lower_def
      py_lower_cp_def ext_defs asc_def)

lemma zip_open_mixed:
  "zip_open mixed_members (asc ''report.docx'') = Some (ZMember None (plain_content [80, 75, 5, 6]))"
  "zip_open mixed_members (asc ''notes.txt'') = Some (ZMember None (plain_content [104, 105]))"
  "zip_open mixed_members (asc ''broken.pdf'') = Some (ZMember None (plain_content [1, 2, 3]))"
  "zip_open mixed_members (asc ''lost.md'')
     = Some (ZMember (Some bad_crc) (plain_content []))"
  "zip_open mixed_members (asc ''empty.txt'') = Some (ZMember None (plain_content []))"
  by (simp_all add: zip_open_def mixed_members_def asc_def)

lemma entry_notes:
  "expected_entry_blocks broken_pdf_world mixed_members (asc ''notes.txt'') s
     = [file_block (asc ''notes.txt'') [104, 105]]"
proof -
  have "py_strip [104, 105] \<noteq> []"
    by (simp add: py_strip_eq_Nil_iff py_isspace_def)
  then show ?thesis
    using ends_with_mixed
    by (simp add: expected_entry_blocks_def zip_open_mixed plain_content_def first_decode_def
        broken_pdf_world_def demo_world_def ascii_decode_def)
qed

lemma entry_lost:
  "expected_entry_blocks broken_pdf_world mixed_members (asc ''lost.md'') s
     = [read_error_block (asc ''lost.md'') (msg bad_crc)]"
  by (simp add: expected_entry_blocks_def zip_open_mixed)

lemma entry_empty:
  "expected_entry_blocks broken_pdf_world mixed_members (asc ''empty.txt'') s = []"
  by (simp add: expected_entry_blocks_def zip_open_mixed plain_content_def)

lemma entry_broken:
  "expected_entry_blocks broken_pdf_world mixed_members (asc ''broken.pdf'') s
     = [ocr_error_block (asc ''broken.pdf'')
          (MSG_PDF_PROCESSING_ERROR @ MSG_OCR_ERROR @ asc ''Unable to get page count'')]"
proof -
  have "extract_from_pdf_simple broken_pdf_world p
      (Some \<lparr>f_content = plain_content [1, 2, 3], f_mtime = m\<rparr>)
      = (Inl (Exn OtherException
           (MSG_PDF_PROCESSING_ERROR @ MSG_OCR_ERROR @ asc ''Unable to get page count'')), [])"
    for p m
    by (simp add: extract_from_pdf_simple_def pdf_simple_body_def plain_content_def
        broken_pdf_world_def demo_world_def simple_ocr_def simple_ocr_handler_def)
  then show ?thesis
    using ends_with_mixed
    by (simp add: expected_entry_blocks_def zip_open_mixed plain_content_def)
qed

lemma entry_report:
  "expected_entry_blocks broken_pdf_world mixed_members (asc ''report.docx'') (zip_state mixed_members)
     = [file_block (asc ''report.docx'') (asc ''Hello'')]"
proof -
  let ?w = broken_pdf_world
  let ?s0 = "log_events (zip_state mixed_members) [EntryProcessed (asc ''report.docx'')]"
  let ?s1 = "snd (create_temp ?w ?s0 (asc ''report.docx'') (plain_content [80, 75, 5, 6]))"
  let ?run = "extract_text ?w ?s1 (asc ''/tmp/tmp0.docx'')"
  have suf: "path_suffix (asc ''report.docx'') = asc ''.docx''"
    by (simp add: asc_def path_suffix_def path_name_def path_parts_def)
  have cnt: "temp_count (zip_state mixed_members) = 0" "temp_count ?s0 = 0"
    by (simp_all add: zip_state_def empty_state_def log_events_def)
  have name: "temp_name ?w 0 @ asc ''.docx'' = asc ''/tmp/tmp0.docx''"
    by (simp add: broken_pdf_world_def demo_world_def py_str_nat.simps asc_def)
  have cache0: "cache (zip_state mixed_members) = Map.empty"
    by (simp add: zip_state_def empty_state_def)
  have s1: "fs ?s1 (asc ''/tmp/tmp0.docx'')
        = Some \<lparr>f_content = plain_content [80, 75, 5, 6], f_mtime = temp_mtime ?w 0\<rparr>"
      "cache ?s1 = Map.empty"
    unfolding create_temp_def suf cnt name by (simp_all add: cache0)
  have suf2: "py_lower (path_suffix (asc ''/tmp/tmp0.docx'')) = EXT_DOCX"
    by (simp add: EXT_DOCX_def asc_def path_suffix_def path_name_def path_parts_def py_lower_def
        py_lower_cp_def)
  have branch: "EXT_DOCX \<notin> set SUPPORTED_pdfs" "EXT_DOCX \<notin> set SUPPORTED_images"
    by (simp_all add: SUPPORTED_pdfs_def SUPPORTED_images_def ext_defs asc_def)
  have miss: "get_cached_text ?s1 (asc ''/tmp/tmp0.docx'') = None"
    unfolding get_cached_text_def s1 by simp
  have hello: "truthy_text (asc ''Hello'')" "py_strip (asc ''Hello'') \<noteq> []"
    by (simp_all add: truthy_text_iff py_strip_eq_Nil_iff asc_def py_isspace_def)
  have paras: "docx_paragraphs ?w bs = Inr [asc ''Hello'']" for bs
    by (simp add: broken_pdf_world_def demo_world_def)
  have docx: "extract_from_docx ?w (asc ''/tmp/tmp0.docx'') (fs ?s1 (asc ''/tmp/tmp0.docx''))
      = Inr (asc ''Hello'')"
    unfolding s1 extract_from_docx_def using hello by (simp add: paras)
  have run: "fst ?run = (asc ''Hello'', True)"
    using branch hello
    by (subst extract_text.simps, simp only: miss option.simps)
      (simp add: suf2 docx finish_extract_def)
  have ne: "cbytes (plain_content [80, 75, 5, 6]) \<noteq> []"
    by (simp add: plain_content_def)
  show ?thesis
    using ends_with_mixed hello ne
    by (simp add: expected_entry_blocks_def zip_open_mixed cnt suf name run)
qed


lemma cancel_in_stage_world_simps:
  "read_cancelled (cancel_in_stage_world st) st' i
     = (stage_rank st < stage_rank st' \<or> (st' = st \<and> 1 \<le> i))"
  "pdfplumber_open (cancel_in_stage_world st) bs
     = Inr (if st = Pdfplumber then three_pages else blank_pages)"
  "fitz_open (cancel_in_stage_world st) bs
     = Inr (if st = PyMuPDF then three_pages else blank_pages)"
  "PyPDF2_PdfReader (cancel_in_stage_world st) bs
     = Inr (PdfReader False (if st = PyPDF2 then three_pages else blank_pages))"
  "convert_from_path (cancel_in_stage_world st) bs = Inr 3"
  "image_to_string (cancel_in_stage_world st) bs i = Inr (asc ''scan'')"
  "import_fitz (cancel_in_stage_world st) = None"
  "import_PyPDF2 (cancel_in_stage_world st) = None"
  "import_pdf2image (cancel_in_stage_world st) = None"
  "TESSERACT_AVAILABLE (cancel_in_stage_world st)"
  "poppler_in_known_dir (cancel_in_stage_world st)"
  by (simp_all add: cancel_in_stage_world_def demo_world_def)

section \<open>The result cache and the dispatcher\<close>

text \<open>
  Claim C3. When the cache holds a record for the path and the record's signature equals
  the file's current signature (modification time and size), \<open>extract_text\<close> returns the
  cached text with success, and the state is returned as it was: nothing is added to the
  trace, so no extractor is invoked, and the cache and the files are untouched.
\<close>

theorem cache_hit_returns_cached:
  assumes "cache s filepath = Some cached_data"
    and "rec_hash cached_data = get_file_hash (fs s) filepath"
  shows "extract_text w s filepath = ((rec_text cached_data, True), s)"
  using assms by (simp add: extract_text.simps get_cached_text_def)

text \<open>The hypotheses hold for \<open>report.txt\<close>, cached with the signature of its 11 bytes.\<close>

theorem cache_hit_returns_cached_witness:
  "cache cached_state (asc ''report.txt'') \<noteq> None
   \<and> rec_hash (the (cache cached_state (asc ''report.txt'')))
       = get_file_hash (fs cached_state) (asc ''report.txt'')
   \<and> extract_text demo_world cached_state (asc ''report.txt'')
       = ((map unat hello_bytes, True), cached_state)"
proof -
  have c: "cache cached_state (asc ''report.txt'') =
      Some \<lparr>rec_hash = asc ''1753000000.0_11'', rec_text = map unat hello_bytes,
            rec_timestamp = asc ''2025-07-20T09:00:00''\<rparr>"
    by (simp add: cached_state_def empty_state_def)
  have h: "get_file_hash (fs cached_state) (asc ''report.txt'') = asc ''1753000000.0_11''"
    by (simp add: cached_state_def empty_state_def get_file_hash_def plain_file_def
        hello_bytes_def asc_def py_str_nat.simps)
  show ?thesis
    using cache_hit_returns_cached [of cached_state "asc ''report.txt''" _ demo_world, OF c]
    by (simp add: c h)
qed




section \<open>The plain-text extractor\<close>



section \<open>The PDF fallback chain on two inputs\<close>

text \<open>
  Claim C1. The warning for more than 200 pages is appended to \<open>texts\<close>, the list whose
  emptiness guards every later stage. On a PDF of 201 pages without a text layer
  pdfplumber leaves \<open>texts\<close> holding the warning alone: no later stage is entered and the
  warning is returned as the text of the file. On the same PDF with 200 pages PyMuPDF is
  entered and finds the title.
\<close>

theorem warning_block_stops_fallback:
  "extract_from_pdf (scan_world 201) (asc ''scan.pdf'') (Some (plain_file pdf_bytes))
     = (Inr (warning_block Pdfplumber 201),
        StageStarted Pdfplumber # map (PageProcessed Pdfplumber) [0..<201])
   \<and> extract_from_pdf (scan_world 200) (asc ''scan.pdf'') (Some (plain_file pdf_bytes))
     = (Inr (page_block PyMuPDF 1 (asc ''Title'')),
        StageStarted Pdfplumber # map (PageProcessed Pdfplumber) [0..<200]
        @ StageStarted PyMuPDF # map (PageProcessed PyMuPDF) [0..<200])"
proof -
  have nc: "\<not> read_cancelled (scan_world n) st j" for n st j
    by (simp add: scan_world_def demo_world_def)
  have loop: "page_loop (scan_world n) st i (replicate m (Inr [])) (texts, tr)
      = (texts, tr @ map (PageProcessed st) [i..<i + m])" for n st i m texts tr
    by (rule page_loop_blank_pages) (rule nc)
  have open1: "pdfplumber_open (scan_world n) bs = Inr (replicate n (Inr []))" for n bs
    by (simp add: scan_world_def)
  have open2: "fitz_open (scan_world n) bs = Inr (Inr (asc ''Title'') # replicate (n - 1) (Inr []))"
    and imp2: "import_fitz (scan_world n) = None" for n bs
    by (simp_all add: scan_world_def demo_world_def)
  have s201: "stage_pdfplumber (scan_world 201) pdf_bytes
      = (Inr [warning_block Pdfplumber 201],
         StageStarted Pdfplumber # map (PageProcessed Pdfplumber) [0..<201])"
    by (simp add: stage_pdfplumber_def open1 loop with_warning_def)
  have s200: "stage_pdfplumber (scan_world 200) pdf_bytes
      = (Inr [], StageStarted Pdfplumber # map (PageProcessed Pdfplumber) [0..<200])"
    by (simp add: stage_pdfplumber_def open1 loop with_warning_def)
  have title: "truthy_text (asc ''Title'')"
    by (simp add: truthy_text_iff asc_def py_isspace_def)
  have upt: "[0..<200] = 0 # [Suc 0..<Suc 0 + 199]"
    by (simp add: upt_rec)
  have m200: "stage_pymupdf (scan_world 200) pdf_bytes ([], tr)
      = ([page_block PyMuPDF 1 (asc ''Title'')],
         tr @ StageStarted PyMuPDF # map (PageProcessed PyMuPDF) [0..<200])" for tr
    unfolding upt
    by (simp add: stage_pymupdf_def open2 imp2 with_warning_def nc title loop)
  have size: "pdf_bytes \<noteq> []" "cbytes (f_content (plain_file pdf_bytes)) = pdf_bytes"
    by (simp_all add: plain_file_def pdf_bytes_def)
  have a: "pdf_chain (scan_world 201) (asc ''scan.pdf'') (Some (plain_file pdf_bytes))
      = (Inr (warning_block Pdfplumber 201),
         StageStarted Pdfplumber # map (PageProcessed Pdfplumber) [0..<201])"
    using warning_block_not_blank [of Pdfplumber 201]
    by (simp add: pdf_chain_def size s201 pdf_result_def)
  have b: "pdf_chain (scan_world 200) (asc ''scan.pdf'') (Some (plain_file pdf_bytes))
      = (Inr (page_block PyMuPDF 1 (asc ''Title'')),
         StageStarted Pdfplumber # map (PageProcessed Pdfplumber) [0..<200]
         @ StageStarted PyMuPDF # map (PageProcessed PyMuPDF) [0..<200])"
    using page_block_not_blank [of PyMuPDF 1 "asc ''Title''"]
    by (simp add: pdf_chain_def size s200 m200 pdf_result_def)
  show ?thesis
    by (simp add: extract_from_pdf_def a b)
qed

text \<open>
  Claim C2. The error raised at line 467 for an encrypted document carries a Russian
  message, and the handler of line 488 looks for the word "encrypted" in it: the error is
  swallowed. On a scanned PDF that PyPDF2 reports encrypted the chain goes on to OCR and
  returns the recognised text; without Tesseract it fails with the message about
  Tesseract, not about encryption.
\<close>

theorem encrypted_flag_falls_through_to_ocr:
  "pypdf2_handler (Exn OtherException MSG_ENCRYPTED) texts = Inr texts
   \<and> extract_from_pdf encrypted_world (asc ''locked.pdf'') (Some (plain_file pdf_bytes))
     = (Inr (page_block OCR 1 (asc ''CONFIDENTIAL'')),
        [StageStarted Pdfplumber, PageProcessed Pdfplumber 0,
         StageStarted PyMuPDF, PageProcessed PyMuPDF 0,
         StageStarted PyPDF2,
         StageStarted OCR, PageProcessed OCR 0])
   \<and> fst (extract_from_pdf (encrypted_world\<lparr>TESSERACT_AVAILABLE := False\<rparr>) (asc ''locked.pdf'')
        (Some (plain_file pdf_bytes)))
     = Inl (Exn OtherException
         (MSG_PDF_OPEN_ERROR @ asc ''locked.pdf'' @ COLON_SPACE @ MSG_TESSERACT_MISSING))"
proof -
  have h: "pypdf2_handler (Exn OtherException MSG_ENCRYPTED) ts = Inr ts" for ts
    by (simp add: pypdf2_handler_def not_encrypted_in_message)
  have size: "pdf_bytes \<noteq> []" "cbytes (f_content (plain_file pdf_bytes)) = pdf_bytes"
    by (simp_all add: plain_file_def pdf_bytes_def)
  have conf: "truthy_text (asc ''CONFIDENTIAL'')"
    by (simp add: truthy_text_iff asc_def py_isspace_def)
  have s1: "stage_pdfplumber (encrypted_world\<lparr>TESSERACT_AVAILABLE := b\<rparr>) pdf_bytes
      = (Inr [], [StageStarted Pdfplumber, PageProcessed Pdfplumber 0])" for b
    by (simp add: stage_pdfplumber_def encrypted_world_def demo_world_def with_warning_def
        truthy_text_def)
  have s2: "stage_pymupdf (encrypted_world\<lparr>TESSERACT_AVAILABLE := b\<rparr>) pdf_bytes ([], tr)
      = ([], tr @ [StageStarted PyMuPDF, PageProcessed PyMuPDF 0])" for b tr
    by (simp add: stage_pymupdf_def encrypted_world_def demo_world_def with_warning_def
        truthy_text_def)
  have s3: "stage_pypdf2 (encrypted_world\<lparr>TESSERACT_AVAILABLE := b\<rparr>) pdf_bytes ([], tr)
      = (Inr [], tr @ [StageStarted PyPDF2])" for b tr
    by (simp add: stage_pypdf2_def encrypted_world_def demo_world_def with_warning_def h)
  have e: "encrypted_world\<lparr>TESSERACT_AVAILABLE := True\<rparr> = encrypted_world"
    by (simp add: encrypted_world_def demo_world_def)
  have s4: "stage_ocr encrypted_world pdf_bytes ([], tr)
      = (Inr [page_block OCR 1 (asc ''CONFIDENTIAL'')],
         tr @ [StageStarted OCR, PageProcessed OCR 0])" for tr
    by (simp add: stage_ocr_def encrypted_world_def demo_world_def with_warning_def conf)
  have s4': "stage_ocr (encrypted_world\<lparr>TESSERACT_AVAILABLE := False\<rparr>) pdf_bytes ([], tr)
      = (Inl (Exn OtherException MSG_TESSERACT_MISSING), tr @ [StageStarted OCR])" for tr
    by (simp add: stage_ocr_def)
  have a: "extract_from_pdf encrypted_world (asc ''locked.pdf'') (Some (plain_file pdf_bytes))
     = (Inr (page_block OCR 1 (asc ''CONFIDENTIAL'')),
        [StageStarted Pdfplumber, PageProcessed Pdfplumber 0,
         StageStarted PyMuPDF, PageProcessed PyMuPDF 0,
         StageStarted PyPDF2,
         StageStarted OCR, PageProcessed OCR 0])"
    using page_block_not_blank [of OCR 1 "asc ''CONFIDENTIAL''"]
    by (simp add: extract_from_pdf_def pdf_chain_def size s1 [of True, unfolded e]
        s2 [of True, unfolded e] s3 [of True, unfolded e] s4 pdf_result_def)
  have b: "fst (extract_from_pdf (encrypted_world\<lparr>TESSERACT_AVAILABLE := False\<rparr>)
        (asc ''locked.pdf'') (Some (plain_file pdf_bytes)))
     = Inl (Exn OtherException
         (MSG_PDF_OPEN_ERROR @ asc ''locked.pdf'' @ COLON_SPACE @ MSG_TESSERACT_MISSING))"
    by (simp add: extract_from_pdf_def pdf_chain_def size s1 s2 s3 s4')
  from h [of texts] a b show ?thesis by blast
qed

section \<open>Archives that are not ZIP\<close>

text \<open>
  Claim C6. The suffix \<open>.7z\<close> reaches the archive extractor, which has a branch for
  \<open>.zip\<close> and one for \<open>.rar\<close> only: for \<open>.7z\<close> nothing is appended, the empty result
  raises, and \<open>extract_text\<close> reports failure. For \<open>.rar\<close> the fixed text is returned.
\<close>

theorem seven_zip_fails:
  "extract_from_archive w s (asc ''backup.7z'')
     = (Inl (archive_error (asc ''backup.7z'') (Exn OtherException MSG_ARCHIVE_NO_TEXT)), s)
   \<and> extract_text w empty_state (asc ''backup.7z'')
     = (([], False),
        empty_state\<lparr>error_log :=
            [MSG_PROCESSING_ERROR @ asc ''backup.7z'' @ COLON_SPACE
             @ msg (archive_error (asc ''backup.7z'') (Exn OtherException MSG_ARCHIVE_NO_TEXT))],
          trace := [Invoked ArchiveExtractor (asc ''backup.7z'')]\<rparr>)
   \<and> extract_from_archive w s (asc ''backup.rar'') = (Inr MSG_RAR_UNSUPPORTED, s)"
proof -
  have suf7: "py_lower (path_suffix (asc ''backup.7z'')) = EXT_7Z"
    by (simp add: EXT_7Z_def asc_def path_suffix_def path_name_def path_parts_def py_lower_def py_lower_cp_def)
  have sufr: "py_lower (path_suffix (asc ''backup.rar'')) = EXT_RAR"
    by (simp add: EXT_RAR_def asc_def path_suffix_def path_name_def path_parts_def py_lower_def
        py_lower_cp_def)
  have ne: "EXT_7Z \<noteq> EXT_ZIP" "EXT_7Z \<noteq> EXT_RAR" "EXT_RAR \<noteq> EXT_ZIP"
    by (simp_all add: ext_defs asc_def)
  have branch: "EXT_7Z \<notin> set SUPPORTED_pdfs" "EXT_7Z \<notin> set SUPPORTED_images"
    "EXT_7Z \<noteq> EXT_DOCX" "EXT_7Z \<notin> set [EXT_DOC, EXT_RTF]"
    "EXT_7Z \<notin> set SUPPORTED_text" "EXT_7Z \<in> set SUPPORTED_archives"
    by (simp_all add: SUPPORTED_pdfs_def SUPPORTED_images_def SUPPORTED_text_def
        SUPPORTED_archives_def ext_defs asc_def)
  have rar: "py_strip MSG_RAR_UNSUPPORTED \<noteq> []"
    unfolding py_strip_eq_Nil_iff
    by (simp add: MSG_RAR_UNSUPPORTED_def asc_def py_isspace_def)
  have a: "extract_from_archive w' s' (asc ''backup.7z'')
     = (Inl (archive_error (asc ''backup.7z'') (Exn OtherException MSG_ARCHIVE_NO_TEXT)), s')"
    for w' s'
    by (simp add: extract_from_archive.simps suf7 ne archive_result_def py_strip_def)
  have c: "extract_from_archive w s (asc ''backup.rar'') = (Inr MSG_RAR_UNSUPPORTED, s)"
    using rar by (simp add: extract_from_archive.simps sufr ne archive_result_def)
  have miss: "get_cached_text empty_state p = None" for p
    by (simp add: get_cached_text_def empty_state_def)
  have b: "extract_text w empty_state (asc ''backup.7z'')
     = (([], False),
        empty_state\<lparr>error_log :=
            [MSG_PROCESSING_ERROR @ asc ''backup.7z'' @ COLON_SPACE
             @ msg (archive_error (asc ''backup.7z'') (Exn OtherException MSG_ARCHIVE_NO_TEXT))],
          trace := [Invoked ArchiveExtractor (asc ''backup.7z'')]\<rparr>)"
    using branch
    by (subst extract_text.simps, simp only: miss option.simps)
      (simp add: suf7 a finish_extract_def log_events_def empty_state_def)
  from a [of w s] b c show ?thesis by blast
qed

section \<open>What reaches the cache\<close>

text \<open>
  Claim C4. On a cache miss \<open>extract_text\<close> calls the extractor of the suffix. When the
  extractor raises, the call returns the empty text with failure and the cache is as it
  was; when it returns blank text, the call returns that text with failure and the cache
  is as it was; when it returns text that is not blank, the call returns the text with
  success and a record with that text stands under the path. So success is reported
  exactly when the returned text is not blank, a call that reports failure leaves the
  cache unchanged, and every record that a call adds or replaces, also through the
  documents inside an archive, holds text that is not blank.
\<close>

theorem failed_extraction_not_cached:
  "(get_cached_text s filepath = None \<and> fst (dispatch w s filepath) = Inl e \<longrightarrow>
      fst (extract_text w s filepath) = ([], False)
      \<and> cache (snd (extract_text w s filepath)) = cache s)
   \<and> (get_cached_text s filepath = None \<and> fst (dispatch w s filepath) = Inr t
        \<and> \<not> truthy_text t \<longrightarrow>
      fst (extract_text w s filepath) = (t, False)
      \<and> cache (snd (extract_text w s filepath)) = cache s)
   \<and> (get_cached_text s filepath = None \<and> fst (dispatch w s filepath) = Inr t
        \<and> truthy_text t \<longrightarrow>
      fst (extract_text w s filepath) = (t, True)
      \<and> (\<exists>rec. cache (snd (extract_text w s filepath)) filepath = Some rec \<and> rec_text rec = t))
   \<and> (get_cached_text s filepath = None \<longrightarrow>
      snd (fst (extract_text w s filepath)) = truthy_text (fst (fst (extract_text w s filepath))))
   \<and> (\<not> snd (fst (extract_text w s filepath)) \<longrightarrow>
      cache (snd (extract_text w s filepath)) = cache s)
   \<and> (get_cached_text s filepath = None \<and> snd (fst (extract_text w s filepath)) \<longrightarrow>
      (\<exists>rec. cache (snd (extract_text w s filepath)) filepath = Some rec
         \<and> rec_text rec = fst (fst (extract_text w s filepath))))
   \<and> (\<forall>q rec. cache (snd (extract_text w s filepath)) q = Some rec \<longrightarrow>
        cache s q = Some rec \<or> truthy_text (rec_text rec))"
proof (cases "get_cached_text s filepath")
  case (Some c)
  then have "extract_text w s filepath = ((c, True), s)"
    by (simp add: extract_text.simps)
  with Some show ?thesis by simp
next
  case None
  obtain r s1 where d: "dispatch w s filepath = (r, s1)"
    by (cases "dispatch w s filepath")
  have run: "extract_text w s filepath = finish_extract w filepath (r, s1)"
    using None d by (simp add: extract_text_dispatch)
  have s1: "cache s1 = cache s \<or> (\<exists>t. r = Inr t \<and> truthy_text t)"
    using dispatch_cache [of w s filepath] d by simp
  have raised: "fst (extract_text w s filepath) = ([], False)
      \<and> cache (snd (extract_text w s filepath)) = cache s" if "r = Inl e"
    using that s1 by (auto simp: run finish_extract_def)
  have blank: "fst (extract_text w s filepath) = (t, False)
      \<and> cache (snd (extract_text w s filepath)) = cache s" if "r = Inr t" "\<not> truthy_text t"
    using that s1 by (auto simp: run finish_extract_def)
  have kept: "fst (extract_text w s filepath) = (t, True)
      \<and> (\<exists>rec. cache (snd (extract_text w s filepath)) filepath = Some rec \<and> rec_text rec = t)"
    if "r = Inr t" "truthy_text t"
    using that by (simp add: run finish_extract_def cache_text_def)
  have fail: "cache (snd (extract_text w s filepath)) = cache s"
    if "\<not> snd (fst (extract_text w s filepath))"
  proof -
    from that have a: "cache (snd (extract_text w s filepath)) = cache s1"
      unfolding run by (rule finish_extract_result(2))
    have "\<not> (\<exists>t. r = Inr t \<and> truthy_text t)"
      using that unfolding run by (auto simp: finish_extract_def)
    with s1 have "cache s1 = cache s" by (elim disjE) simp_all
    with a show ?thesis by simp
  qed
  have ok: "snd (fst (extract_text w s filepath))
      = truthy_text (fst (fst (extract_text w s filepath)))"
    unfolding run by (rule finish_extract_result(1))
  have written: "\<exists>rec. cache (snd (extract_text w s filepath)) filepath = Some rec
      \<and> rec_text rec = fst (fst (extract_text w s filepath))"
    if "snd (fst (extract_text w s filepath))"
    using that unfolding run by (rule finish_extract_result(3))
  have new: "\<forall>q rec. cache (snd (extract_text w s filepath)) q = Some rec \<longrightarrow>
        cache s q = Some rec \<or> truthy_text (rec_text rec)"
    using new_records_truthy [of w s filepath] by blast
  from raised blank kept d have first:
    "fst (dispatch w s filepath) = Inl e \<longrightarrow>
      fst (extract_text w s filepath) = ([], False)
      \<and> cache (snd (extract_text w s filepath)) = cache s"
    "fst (dispatch w s filepath) = Inr t \<and> \<not> truthy_text t \<longrightarrow>
      fst (extract_text w s filepath) = (t, False)
      \<and> cache (snd (extract_text w s filepath)) = cache s"
    "fst (dispatch w s filepath) = Inr t \<and> truthy_text t \<longrightarrow>
      fst (extract_text w s filepath) = (t, True)
      \<and> (\<exists>rec. cache (snd (extract_text w s filepath)) filepath = Some rec \<and> rec_text rec = t)"
    by simp_all
  from first ok fail written new show ?thesis
    by (intro conjI impI) simp_all
qed

text \<open>
  The file \<open>gone.txt\<close> is not on disk and opening it raises: failure, and the cache
  stays empty. The file \<open>blank.txt\<close> holds white space only: failure, and the cache stays
  empty. The file \<open>report.txt\<close> holds two words: success, and its text is cached under
  its path.
\<close>

theorem failed_extraction_not_cached_witness:
  "get_cached_text empty_state (asc ''gone.txt'') = None
   \<and> fst (dispatch demo_world empty_state (asc ''gone.txt''))
      = Inl (file_not_found (asc ''gone.txt''))
   \<and> fst (extract_text demo_world empty_state (asc ''gone.txt'')) = ([], False)
   \<and> cache (snd (extract_text demo_world empty_state (asc ''gone.txt''))) = Map.empty
   \<and> get_cached_text blank_state (asc ''blank.txt'') = None
   \<and> fst (dispatch demo_world blank_state (asc ''blank.txt'')) = Inr [32, 32, 10]
   \<and> \<not> truthy_text [32, 32, 10]
   \<and> fst (extract_text demo_world blank_state (asc ''blank.txt'')) = ([32, 32, 10], False)
   \<and> cache (snd (extract_text demo_world blank_state (asc ''blank.txt''))) = Map.empty
   \<and> get_cached_text uncached_state (asc ''report.txt'') = None
   \<and> fst (dispatch demo_world uncached_state (asc ''report.txt'')) = Inr (map unat hello_bytes)
   \<and> truthy_text (map unat hello_bytes)
   \<and> fst (extract_text demo_world uncached_state (asc ''report.txt''))
      = (map unat hello_bytes, True)
   \<and> map_option rec_text (cache (snd (extract_text demo_world uncached_state (asc ''report.txt'')))
        (asc ''report.txt'')) = Some (map unat hello_bytes)"
proof -
  have miss0: "get_cached_text empty_state (asc ''gone.txt'') = None"
    by (simp add: get_cached_text_def empty_state_def)
  have d0: "fst (dispatch demo_world empty_state (asc ''gone.txt''))
      = Inl (file_not_found (asc ''gone.txt''))"
    by (simp add: dispatch_txt [OF suffix_gone_txt] extract_from_text_def encodings_def
        empty_state_def)
  have c0: "cache empty_state = Map.empty"
    by (simp add: empty_state_def)
  have miss: "get_cached_text blank_state (asc ''blank.txt'') = None"
    by (simp add: get_cached_text_def blank_state_def empty_state_def)
  have blank: "\<not> truthy_text [32, 32, 10]"
    by (simp add: truthy_text_iff py_isspace_def)
  have d1: "fst (dispatch demo_world blank_state (asc ''blank.txt'')) = Inr [32, 32, 10]"
    by (simp add: dispatch_txt [OF suffix_blank_txt] extract_from_text_def encodings_def
        bytes_decode_def demo_world_def ascii_decode_def blank_state_def empty_state_def
        plain_file_def)
  have c1: "cache blank_state = Map.empty"
    by (simp add: blank_state_def empty_state_def)
  have miss2: "get_cached_text uncached_state (asc ''report.txt'') = None"
    by (simp add: get_cached_text_def uncached_state_def empty_state_def)
  have hello: "truthy_text (map unat hello_bytes)"
    by (simp add: truthy_text_iff hello_bytes_def py_isspace_def)
  have d2: "fst (dispatch demo_world uncached_state (asc ''report.txt''))
      = Inr (map unat hello_bytes)"
    by (simp add: dispatch_txt [OF suffix_report_txt] extract_from_text_def encodings_def
        bytes_decode_def demo_world_def ascii_decode_def uncached_state_def empty_state_def
        plain_file_def hello_bytes_def)
  from failed_extraction_not_cached [where s = empty_state and filepath = "asc ''gone.txt''"
      and w = demo_world and e = "file_not_found (asc ''gone.txt'')"] miss0 d0
  have a: "fst (extract_text demo_world empty_state (asc ''gone.txt'')) = ([], False)"
    "cache (snd (extract_text demo_world empty_state (asc ''gone.txt''))) = Map.empty"
    by (simp_all add: c0)
  from failed_extraction_not_cached [where s = blank_state and filepath = "asc ''blank.txt''"
      and w = demo_world and t = "[32, 32, 10]"] miss d1 blank
  have b: "fst (extract_text demo_world blank_state (asc ''blank.txt'')) = ([32, 32, 10], False)"
    "cache (snd (extract_text demo_world blank_state (asc ''blank.txt''))) = Map.empty"
    by (simp_all add: c1)
  from failed_extraction_not_cached [where s = uncached_state and filepath = "asc ''report.txt''"
      and w = demo_world and t = "map unat hello_bytes"] miss2 d2 hello
  have c: "fst (extract_text demo_world uncached_state (asc ''report.txt''))
      = (map unat hello_bytes, True)"
    "map_option rec_text (cache (snd (extract_text demo_world uncached_state
      (asc ''report.txt''))) (asc ''report.txt'')) = Some (map unat hello_bytes)"
    by auto
  from miss0 d0 a miss d1 blank b miss2 d2 hello c show ?thesis by (intro conjI)
qed

section \<open>Blocks of a ZIP archive\<close>

text \<open>
  Claim C5, as stated, fails: an archive whose only supported entry has zero bytes has
  one supported entry, yields no block, and the extractor fails.
\<close>

theorem archive_blocks_counterexample:
  "length (filter (\<lambda>n. ends_with_any n supported_extensions) (map fst empty_note_members)) = 1
   \<and> fst (archive_loop demo_world empty_note_members (map fst empty_note_members) [] False
          (zip_state empty_note_members)) = []
   \<and> fst (extract_from_archive demo_world (zip_state empty_note_members) (asc ''bundle.zip''))
      = Inl (archive_error (asc ''bundle.zip'') (Exn OtherException MSG_ARCHIVE_NO_TEXT))"
proof -
  have sup: "ends_with_any (asc ''empty.txt'') supported_extensions"
    by (simp add: ends_with_any_def supported_extensions_def py_endswith_def py_lower_def
        py_lower_cp_def ext_defs asc_def)
  have entry: "archive_entry demo_world empty_note_members (asc ''empty.txt'') [] s
      = ([], log_events s [EntryProcessed (asc ''empty.txt'')])" for s
    by (simp add: archive_entry.simps zip_open_def empty_note_members_def plain_content_def)
  have loop: "archive_loop demo_world empty_note_members (map fst empty_note_members) [] False s
      = ([], True, log_events s [EntryProcessed (asc ''empty.txt'')])" for s
    using sup entry [of s] by (simp add: archive_loop.simps empty_note_members_def)
  have suf: "py_lower (path_suffix (asc ''bundle.zip'')) = EXT_ZIP"
    by (simp add: EXT_ZIP_def asc_def path_suffix_def path_name_def path_parts_def py_lower_def py_lower_cp_def)
  have f: "fs (zip_state empty_note_members) (asc ''bundle.zip'') = Some (zip_file empty_note_members)"
    by (simp add: zip_state_def empty_state_def)
  have z: "cbytes (f_content (zip_file m)) \<noteq> []" "zip_open_error (f_content (zip_file m)) = None"
    "zip_test_error (f_content (zip_file m)) = None" "zip_members (f_content (zip_file m)) = m" for m
    by (simp_all add: zip_file_def)
  have "fst (extract_from_archive demo_world (zip_state empty_note_members) (asc ''bundle.zip''))
      = Inl (archive_error (asc ''bundle.zip'') (Exn OtherException MSG_ARCHIVE_NO_TEXT))"
    using extract_from_archive_zip(1) [OF suf f z(1-3), of demo_world] sup
    by (simp add: z(4) loop) (simp add: empty_note_members_def)
  with sup loop show ?thesis
    by (simp add: empty_note_members_def)
qed

text \<open>
  Claim C5, amended. For a ZIP file that opens and passes the integrity test, the output
  is made of the blocks of its supported entries, entry by entry in the order of the
  archive (\<open>expected_blocks\<close>): an entry that cannot be read gives the read-error block,
  a PDF entry of at least one byte the file block with its text or an OCR-error block, a
  document entry of at least one byte the file block with its text or the
  processing-error block, a text entry the file block with its decoded text when that is
  not blank; an entry of zero bytes and a blank or undecodable text entry give nothing.
  Each block starts with a label line that holds the name of its entry, and the blocks
  are as many as the entries that contribute one. When there is a block the result is
  the blocks joined by blank lines, which is not blank; when there is none the archive
  fails.
\<close>

theorem archive_block_count:
  assumes "py_lower (path_suffix filepath) = EXT_ZIP" and "fs s filepath = Some f"
    and "cbytes (f_content f) \<noteq> []" and "zip_open_error (f_content f) = None"
    and "zip_test_error (f_content f) = None"
    and "names = map fst (zip_members (f_content f))"
    and "blocks = fst (archive_loop w (zip_members (f_content f)) names [] False s)"
  shows "blocks = expected_blocks w (zip_members (f_content f)) names s
     \<and> list_all2 block_names_entry
          (filter (\<lambda>n. ends_with_any n supported_extensions
                        \<and> contributes_block w (zip_members (f_content f)) n) names) blocks
     \<and> length blocks
       = length (filter (\<lambda>n. ends_with_any n supported_extensions
                            \<and> contributes_block w (zip_members (f_content f)) n) names)
     \<and> (blocks \<noteq> [] \<longrightarrow>
          fst (extract_from_archive w s filepath) = Inr (py_join SEP_BLANK_LINE blocks)
          \<and> truthy_text (py_join SEP_BLANK_LINE blocks))
     \<and> (blocks = [] \<longrightarrow> (\<exists>e. fst (extract_from_archive w s filepath) = Inl e))"
proof -
  have eq: "blocks = expected_blocks w (zip_members (f_content f)) names s"
    using archive_loop_blocks [of w "zip_members (f_content f)" names "[]" False s] assms(7)
    by simp
  have named: "list_all2 block_names_entry
      (filter (\<lambda>n. ends_with_any n supported_extensions
                    \<and> contributes_block w (zip_members (f_content f)) n) names) blocks"
    unfolding eq by (rule archive_blocks_names)
  from archive_loop_shape [of w "zip_members (f_content f)" names "[]" False s] assms(7)
  have shape: "list_all truthy_text blocks"
    "length blocks = length (filter (\<lambda>n. ends_with_any n supported_extensions
                            \<and> contributes_block w (zip_members (f_content f)) n) names)"
    by auto
  have res: "fst (extract_from_archive w s filepath)
     = (if blocks = []
        then Inl (archive_error filepath (Exn OtherException
               (if zip_members (f_content f) = [] then MSG_ZIP_NO_ENTRIES
                else if list_ex (\<lambda>n. ends_with_any n supported_extensions) names
                then MSG_ARCHIVE_NO_TEXT else MSG_ZIP_NO_SUPPORTED)))
        else Inr (py_join SEP_BLANK_LINE blocks))"
    using extract_from_archive_zip(1) [OF assms(1-5), of w] assms(6,7) by simp
  from eq named shape res show ?thesis
    using archive_result_blocks(2) [of blocks] by simp
qed

text \<open>
  An archive with a document, a note, a PDF that no parser opens, a note that cannot be
  read, a note of zero bytes and a picture: five supported entries, four blocks, each
  with the name of its entry, and the archive succeeds.
\<close>

theorem archive_block_count_witness:
  "py_lower (path_suffix (asc ''bundle.zip'')) = EXT_ZIP
   \<and> fs (zip_state mixed_members) (asc ''bundle.zip'') = Some (zip_file mixed_members)
   \<and> filter (\<lambda>n. ends_with_any n supported_extensions) (map fst mixed_members)
      = [asc ''report.docx'', asc ''notes.txt'', asc ''broken.pdf'', asc ''lost.md'',
         asc ''empty.txt'']
   \<and> fst (archive_loop broken_pdf_world mixed_members (map fst mixed_members) [] False
        (zip_state mixed_members))
      = [file_block (asc ''report.docx'') (asc ''Hello''),
         file_block (asc ''notes.txt'') [104, 105],
         ocr_error_block (asc ''broken.pdf'')
           (MSG_PDF_PROCESSING_ERROR @ MSG_OCR_ERROR @ asc ''Unable to get page count''),
         read_error_block (asc ''lost.md'') (msg bad_crc)]
   \<and> fst (extract_from_archive broken_pdf_world (zip_state mixed_members) (asc ''bundle.zip''))
      = Inr (py_join SEP_BLANK_LINE
          [file_block (asc ''report.docx'') (asc ''Hello''),
           file_block (asc ''notes.txt'') [104, 105],
           ocr_error_block (asc ''broken.pdf'')
             (MSG_PDF_PROCESSING_ERROR @ MSG_OCR_ERROR @ asc ''Unable to get page count''),
           read_error_block (asc ''lost.md'') (msg bad_crc)])"
proof -
  let ?blocks = "fst (archive_loop broken_pdf_world mixed_members (map fst mixed_members) []
        False (zip_state mixed_members))"
  let ?expected = "[file_block (asc ''report.docx'') (asc ''Hello''),
         file_block (asc ''notes.txt'') [104, 105],
         ocr_error_block (asc ''broken.pdf'')
           (MSG_PDF_PROCESSING_ERROR @ MSG_OCR_ERROR @ asc ''Unable to get page count''),
         read_error_block (asc ''lost.md'') (msg bad_crc)]"
  have suf: "py_lower (path_suffix (asc ''bundle.zip'')) = EXT_ZIP"
    by (simp add: EXT_ZIP_def asc_def path_suffix_def path_name_def path_parts_def py_lower_def
        py_lower_cp_def)
  have f: "fs (zip_state mixed_members) (asc ''bundle.zip'') = Some (zip_file mixed_members)"
    by (simp add: zip_state_def empty_state_def)
  have z: "cbytes (f_content (zip_file m)) \<noteq> []" "zip_open_error (f_content (zip_file m)) = None"
    "zip_test_error (f_content (zip_file m)) = None" "zip_members (f_content (zip_file m)) = m" for m
    by (simp_all add: zip_file_def)
  have n: "map fst mixed_members = map fst (zip_members (f_content (zip_file mixed_members)))"
    by (simp add: z(4))
  have b: "?blocks = fst (archive_loop broken_pdf_world
      (zip_members (f_content (zip_file mixed_members))) (map fst mixed_members) [] False
      (zip_state mixed_members))"
    by (simp add: z(4))
  have names: "map fst mixed_members
      = [asc ''report.docx'', asc ''notes.txt'', asc ''broken.pdf'', asc ''lost.md'',
         asc ''empty.txt'', asc ''logo.png'']"
    by (simp add: mixed_members_def)
  have sup: "filter (\<lambda>n. ends_with_any n supported_extensions) (map fst mixed_members)
      = [asc ''report.docx'', asc ''notes.txt'', asc ''broken.pdf'', asc ''lost.md'',
         asc ''empty.txt'']"
    unfolding names using ends_with_mixed by simp
  have expected: "expected_blocks broken_pdf_world mixed_members (map fst mixed_members)
      (zip_state mixed_members) = ?expected"
    unfolding names using ends_with_mixed
    by (simp add: entry_report entry_notes entry_broken entry_lost entry_empty)
  note inst = archive_block_count [OF suf f z(1-3) n b]
  from inst expected have blocks: "?blocks = ?expected"
    by (simp add: z(4))
  then have "?blocks \<noteq> []" by simp
  with inst have "fst (extract_from_archive broken_pdf_world (zip_state mixed_members)
      (asc ''bundle.zip'')) = Inr (py_join SEP_BLANK_LINE ?blocks)"
    by blast
  with blocks have res: "fst (extract_from_archive broken_pdf_world (zip_state mixed_members)
      (asc ''bundle.zip'')) = Inr (py_join SEP_BLANK_LINE ?expected)"
    by simp
  from suf f sup blocks res show ?thesis by (intro conjI)
qed

section \<open>Documents inside an archive and the cache\<close>

text \<open>
  Claim C10. A document entry (\<open>.docx\<close>, \<open>.doc\<close>, \<open>.rtf\<close>) of at least one byte is written
  to a temporary file and handed to \<open>extract_text\<close>. When that call succeeds, the state
  after the entry holds a cache record with the extracted text under the temporary path,
  and no file at that path.
\<close>

theorem archive_document_cached_under_temp_path:
  assumes "zip_open members file_name = Some member" and "zread_error member = None"
    and "cbytes (zdata member) \<noteq> []"
    and "ends_with_any file_name [EXT_DOCX, EXT_DOC, EXT_RTF]"
    and "temp_file_path = temp_name w (temp_count s) @ path_suffix file_name"
    and "extract_text w (snd (create_temp w (log_events s [EntryProcessed file_name]) file_name
           (zdata member))) temp_file_path = ((t, True), s2)"
  shows "(\<exists>rec. cache (snd (archive_entry w members file_name all_texts s)) temp_file_path
            = Some rec \<and> rec_text rec = t)
     \<and> fs (snd (archive_entry w members file_name all_texts s)) temp_file_path = None"
proof -
  let ?s0 = "log_events s [EntryProcessed file_name]"
  obtain p s1 where ct: "create_temp w ?s0 file_name (zdata member) = (p, s1)"
    by (cases "create_temp w ?s0 file_name (zdata member)")
  have p: "p = temp_file_path"
    using ct assms(5) by (simp add: create_temp_def log_events_def)
  have run: "extract_text w s1 temp_file_path = ((t, True), s2)"
    using assms(6) ct by simp
  note kind = document_entry_not_text_or_pdf [OF assms(4)]
  have entry: "snd (archive_entry w members file_name all_texts s) = unlink s2 temp_file_path"
    using assms(1-3) kind
    by (subst archive_entry.simps) (simp add: ct p run)
  from extract_text_success_cached [OF run]
  obtain rec where "cache s2 temp_file_path = Some rec" "rec_text rec = t" by blast
  then show ?thesis
    unfolding entry by (simp add: unlink_def)
qed

text \<open>
  For the entry \<open>report.docx\<close> the record is left under \<open>/tmp/tmp0.docx\<close>, a path
  that held no file before the archive was read and holds none after.
\<close>

theorem archive_document_cached_under_temp_path_witness:
  "zip_open docx_members (asc ''report.docx'') = Some (ZMember None (plain_content [80, 75, 5, 6]))
   \<and> ends_with_any (asc ''report.docx'') [EXT_DOCX, EXT_DOC, EXT_RTF]
   \<and> fst (extract_text demo_world
        (snd (create_temp demo_world
           (log_events (zip_state docx_members) [EntryProcessed (asc ''report.docx'')])
           (asc ''report.docx'') (plain_content [80, 75, 5, 6])))
        (asc ''/tmp/tmp0.docx'')) = (asc ''Hello'', True)
   \<and> cache (snd (archive_entry demo_world docx_members (asc ''report.docx'') []
        (zip_state docx_members))) (asc ''/tmp/tmp0.docx'') \<noteq> None
   \<and> fs (snd (archive_entry demo_world docx_members (asc ''report.docx'') []
        (zip_state docx_members))) (asc ''/tmp/tmp0.docx'') = None
   \<and> fs (zip_state docx_members) (asc ''/tmp/tmp0.docx'') = None"
proof -
  let ?m = "ZMember None (plain_content [80, 75, 5, 6])"
  let ?s0 = "log_events (zip_state docx_members) [EntryProcessed (asc ''report.docx'')]"
  let ?s1 = "snd (create_temp demo_world ?s0 (asc ''report.docx'') (plain_content [80, 75, 5, 6]))"
  let ?run = "extract_text demo_world ?s1 (asc ''/tmp/tmp0.docx'')"
  have zo: "zip_open docx_members (asc ''report.docx'') = Some ?m"
    by (simp add: zip_open_def docx_members_def)
  have re: "zread_error ?m = None" and ne: "cbytes (zdata ?m) \<noteq> []"
    by (simp_all add: plain_content_def)
  have kind: "ends_with_any (asc ''report.docx'') [EXT_DOCX, EXT_DOC, EXT_RTF]"
    by (simp add: ends_with_any_def py_endswith_def py_lower_def py_lower_cp_def ext_defs asc_def)
  have suf: "path_suffix (asc ''report.docx'') = asc ''.docx''"
    by (simp add: asc_def path_suffix_def path_name_def path_parts_def)
  have cnt: "temp_count (zip_state docx_members) = 0" "temp_count ?s0 = 0"
    by (simp_all add: zip_state_def empty_state_def log_events_def)
  have name: "temp_name demo_world 0 @ asc ''.docx'' = asc ''/tmp/tmp0.docx''"
    by (simp add: demo_world_def py_str_nat.simps asc_def)
  have tmp: "asc ''/tmp/tmp0.docx''
      = temp_name demo_world (temp_count (zip_state docx_members)) @ path_suffix (asc ''report.docx'')"
    unfolding suf cnt name ..
  have cache0: "cache (zip_state docx_members) = Map.empty"
    by (simp add: zip_state_def empty_state_def)
  have s1: "fs ?s1 (asc ''/tmp/tmp0.docx'')
        = Some \<lparr>f_content = plain_content [80, 75, 5, 6], f_mtime = temp_mtime demo_world 0\<rparr>"
      "cache ?s1 = Map.empty"
    unfolding create_temp_def suf cnt name by (simp_all add: cache0)
  have suf2: "py_lower (path_suffix (asc ''/tmp/tmp0.docx'')) = EXT_DOCX"
    by (simp add: EXT_DOCX_def asc_def path_suffix_def path_name_def path_parts_def py_lower_def py_lower_cp_def)
  have branch: "EXT_DOCX \<notin> set SUPPORTED_pdfs" "EXT_DOCX \<notin> set SUPPORTED_images"
    by (simp_all add: SUPPORTED_pdfs_def SUPPORTED_images_def ext_defs asc_def)
  have miss: "get_cached_text ?s1 (asc ''/tmp/tmp0.docx'') = None"
    unfolding get_cached_text_def s1 by simp
  have hello: "truthy_text (asc ''Hello'')" "py_strip (asc ''Hello'') \<noteq> []"
    by (simp_all add: truthy_text_iff py_strip_eq_Nil_iff asc_def py_isspace_def)
  have paras: "docx_paragraphs demo_world bs = Inr [asc ''Hello'']" for bs
    by (simp add: demo_world_def)
  have docx: "extract_from_docx demo_world (asc ''/tmp/tmp0.docx'') (fs ?s1 (asc ''/tmp/tmp0.docx''))
      = Inr (asc ''Hello'')"
    unfolding s1 extract_from_docx_def using hello by (simp add: paras)
  have run: "fst ?run = (asc ''Hello'', True)"
    using branch hello
    by (subst extract_text.simps, simp only: miss option.simps)
      (simp add: suf2 docx finish_extract_def)
  have run': "?run = ((asc ''Hello'', True), snd ?run)"
    using run by (cases ?run) simp
  have before: "fs (zip_state docx_members) (asc ''/tmp/tmp0.docx'') = None"
    by (simp add: zip_state_def empty_state_def asc_def)
  from archive_document_cached_under_temp_path [OF zo re ne kind tmp, of "asc ''Hello''" "snd ?run" "[]"]
    run'
  have "(\<exists>rec. cache (snd (archive_entry demo_world docx_members (asc ''report.docx'') []
            (zip_state docx_members))) (asc ''/tmp/tmp0.docx'') = Some rec
          \<and> rec_text rec = asc ''Hello'')
     \<and> fs (snd (archive_entry demo_world docx_members (asc ''report.docx'') []
            (zip_state docx_members))) (asc ''/tmp/tmp0.docx'') = None"
    by simp
  then have "cache (snd (archive_entry demo_world docx_members (asc ''report.docx'') []
        (zip_state docx_members))) (asc ''/tmp/tmp0.docx'') \<noteq> None"
    and "fs (snd (archive_entry demo_world docx_members (asc ''report.docx'') []
        (zip_state docx_members))) (asc ''/tmp/tmp0.docx'') = None"
    by auto
  with zo kind run before show ?thesis by (intro conjI)
qed

section \<open>Cancellation\<close>

text \<open>
  Claim C7, as stated, fails for the archive paths: with the flag set at every read the
  PDF chain processes no page, but the archive loop still processes both entries and the
  simplified PDF path all three pages.
\<close>

theorem cancellation_not_read_in_archive_counterexample:
  "read_cancelled cancel_world = (\<lambda>st i. True)
   \<and> stage_pdfplumber cancel_world pdf_bytes = (Inr [], [StageStarted Pdfplumber])
   \<and> fst (archive_loop cancel_world two_notes (map fst two_notes) [] False (zip_state two_notes))
      = [file_block (asc ''a.txt'') [104, 105], file_block (asc ''b.txt'') [121, 111]]
   \<and> extract_from_pdf_simple cancel_world (asc ''/tmp/tmp0.pdf'') (Some (plain_file pdf_bytes))
      = (Inr (py_join SEP_BLANK_LINE
            [page_block Pdfplumber 1 (asc ''one''), page_block Pdfplumber 2 (asc ''two''),
             page_block Pdfplumber 3 (asc ''three'')]),
         [SimplePageProcessed 0, SimplePageProcessed 1, SimplePageProcessed 2])"
proof -
  have flag: "read_cancelled cancel_world = (\<lambda>st i. True)"
    by (simp add: cancel_world_def)
  have open1: "pdfplumber_open cancel_world bs = Inr three_pages" for bs
    by (simp add: cancel_world_def)
  have chain: "stage_pdfplumber cancel_world pdf_bytes = (Inr [], [StageStarted Pdfplumber])"
    by (simp add: stage_pdfplumber_def open1 flag three_pages_def with_warning_def)
  have sup: "ends_with_any (asc ''a.txt'') supported_extensions"
    "ends_with_any (asc ''b.txt'') supported_extensions"
    "ends_with_any (asc ''a.txt'') [EXT_TXT, EXT_MD]"
    "ends_with_any (asc ''b.txt'') [EXT_TXT, EXT_MD]"
    by (simp_all add: ends_with_any_def supported_extensions_def py_endswith_def py_lower_def
        py_lower_cp_def ext_defs asc_def)
  have dec: "bytes_decode_utf8 cancel_world [104, 105] = Some [104, 105]"
    "bytes_decode_utf8 cancel_world [121, 111] = Some [121, 111]"
    by (simp_all add: cancel_world_def demo_world_def ascii_decode_def)
  have strip: "py_strip [104, 105] \<noteq> []" "py_strip [121, 111] \<noteq> []"
    by (simp_all add: py_strip_eq_Nil_iff py_isspace_def)
  have zo: "zip_open two_notes (asc ''a.txt'') = Some (ZMember None (plain_content [104, 105]))"
    "zip_open two_notes (asc ''b.txt'') = Some (ZMember None (plain_content [121, 111]))"
    by (simp_all add: zip_open_def two_notes_def asc_def)
  have e1: "archive_entry cancel_world two_notes (asc ''a.txt'') ts s
      = (ts @ [file_block (asc ''a.txt'') [104, 105]], log_events s [EntryProcessed (asc ''a.txt'')])"
    for ts s
    using sup strip by (simp add: archive_entry.simps zo plain_content_def text_entry_def dec)
  have e2: "archive_entry cancel_world two_notes (asc ''b.txt'') ts s
      = (ts @ [file_block (asc ''b.txt'') [121, 111]], log_events s [EntryProcessed (asc ''b.txt'')])"
    for ts s
    using sup strip by (simp add: archive_entry.simps zo plain_content_def text_entry_def dec)
  have names: "map fst two_notes = [asc ''a.txt'', asc ''b.txt'']"
    by (simp add: two_notes_def)
  have loop: "fst (archive_loop cancel_world two_notes (map fst two_notes) [] False s)
      = [file_block (asc ''a.txt'') [104, 105], file_block (asc ''b.txt'') [121, 111]]" for s
    unfolding names using sup by (simp add: archive_loop.simps e1 e2)
  have size: "pdf_bytes \<noteq> []" "cbytes (f_content (plain_file pdf_bytes)) = pdf_bytes"
    by (simp_all add: plain_file_def pdf_bytes_def)
  have simple: "extract_from_pdf_simple cancel_world (asc ''/tmp/tmp0.pdf'') (Some (plain_file pdf_bytes))
      = (Inr (py_join SEP_BLANK_LINE
            [page_block Pdfplumber 1 (asc ''one''), page_block Pdfplumber 2 (asc ''two''),
             page_block Pdfplumber 3 (asc ''three'')]),
         [SimplePageProcessed 0, SimplePageProcessed 1, SimplePageProcessed 2])"
    using numbers_truthy
    by (simp add: extract_from_pdf_simple_def pdf_simple_body_def size open1 three_pages_def
        numeral_2_eq_2 numeral_3_eq_3)
  from flag chain loop [of "zip_state two_notes"] simple show ?thesis by (intro conjI)
qed

text \<open>
  Claim C7, amended. In the PDF chain a page is processed only after the flag has been
  read unset before it and before every earlier page of the same loop: this holds for the
  loops of all four stages. Once the flag is read as set before a page, the loop ends as
  if the document ended there, and the text accumulated so far is kept: when the loop of
  pdfplumber, of PyMuPDF, of PyPDF2 or of OCR is left with text, that text is what
  \<open>extract_from_pdf\<close> returns. The simplified PDF path does not depend on the flag, and
  the archive loop processes every supported entry.
\<close>

theorem cancellation_read_in_pdf_page_loops:
  "(PageProcessed st i \<in> set (snd (extract_from_pdf w filepath fo)) \<and> j \<le> i \<longrightarrow>
      \<not> read_cancelled w st j)
   \<and> (read_cancelled w st (i + k) \<and> k \<le> length pages \<longrightarrow>
      page_loop w st i pages acc = page_loop w st i (take k pages) acc)
   \<and> (cbytes (f_content f) \<noteq> []
        \<and> pdfplumber_open w (cbytes (f_content f)) = Inr pages1
        \<and> read_cancelled w Pdfplumber k1 \<and> k1 \<le> length pages1
        \<and> partial1 = page_loop w Pdfplumber 0 (take k1 pages1)
             (with_warning Pdfplumber (length pages1) [], [StageStarted Pdfplumber])
        \<and> fst partial1 \<noteq> [] \<longrightarrow>
      extract_from_pdf w filepath (Some f)
        = (Inr (py_join SEP_BLANK_LINE (fst partial1)), snd partial1))
   \<and> (cbytes (f_content f) \<noteq> []
        \<and> stage_pdfplumber w (cbytes (f_content f)) = (Inr [], tr1)
        \<and> import_fitz w = None \<and> fitz_open w (cbytes (f_content f)) = Inr pages2
        \<and> read_cancelled w PyMuPDF k2 \<and> k2 \<le> length pages2
        \<and> partial2 = page_loop w PyMuPDF 0 (take k2 pages2)
             (with_warning PyMuPDF (length pages2) [], tr1 @ [StageStarted PyMuPDF])
        \<and> fst partial2 \<noteq> [] \<longrightarrow>
      extract_from_pdf w filepath (Some f)
        = (Inr (py_join SEP_BLANK_LINE (fst partial2)), snd partial2))
   \<and> (cbytes (f_content f) \<noteq> []
        \<and> stage_pdfplumber w (cbytes (f_content f)) = (Inr [], tr1)
        \<and> stage_pymupdf w (cbytes (f_content f)) ([], tr1) = ([], tr2)
        \<and> import_PyPDF2 w = None
        \<and> PyPDF2_PdfReader w (cbytes (f_content f)) = Inr (PdfReader False pages3)
        \<and> read_cancelled w PyPDF2 k3 \<and> k3 \<le> length pages3
        \<and> partial3 = page_loop w PyPDF2 0 (take k3 pages3)
             (with_warning PyPDF2 (length pages3) [], tr2 @ [StageStarted PyPDF2])
        \<and> fst partial3 \<noteq> [] \<longrightarrow>
      extract_from_pdf w filepath (Some f)
        = (Inr (py_join SEP_BLANK_LINE (fst partial3)), snd partial3))
   \<and> (cbytes (f_content f) \<noteq> []
        \<and> stage_pdfplumber w (cbytes (f_content f)) = (Inr [], tr1)
        \<and> stage_pymupdf w (cbytes (f_content f)) ([], tr1) = ([], tr2)
        \<and> stage_pypdf2 w (cbytes (f_content f)) ([], tr2) = (Inr [], tr3)
        \<and> TESSERACT_AVAILABLE w \<and> import_pdf2image w = None
        \<and> (poppler_in_known_dir w \<or> poppler_on_PATH w)
        \<and> convert_from_path w (cbytes (f_content f)) = Inr n4
        \<and> read_cancelled w OCR k4 \<and> k4 \<le> n4
        \<and> partial4 = page_loop w OCR 0
             (map (image_to_string w (cbytes (f_content f))) [0..<k4])
             (with_warning OCR n4 [], tr3 @ [StageStarted OCR])
        \<and> fst partial4 \<noteq> [] \<longrightarrow>
      extract_from_pdf w filepath (Some f)
        = (Inr (py_join SEP_BLANK_LINE (fst partial4)), snd partial4))
   \<and> extract_from_pdf_simple (w\<lparr>read_cancelled := c\<rparr>) filepath fo
      = extract_from_pdf_simple w filepath fo
   \<and> (n \<in> set names \<and> ends_with_any n supported_extensions \<longrightarrow>
      EntryProcessed n
        \<in> set (trace (snd (snd (archive_loop w members names all_texts found s)))))"
  using extract_from_pdf_flag_read [of st i w filepath fo j]
    page_loop_take [of w st i k pages acc]
    cancelled_pdfplumber_returns_partial [of w f pages1 k1 partial1 filepath]
    cancelled_pymupdf_returns_partial [of f w tr1 pages2 k2 partial2 filepath]
    cancelled_pypdf2_returns_partial [of f w tr1 tr2 pages3 k3 partial3 filepath]
    cancelled_ocr_returns_partial [of f w tr1 tr2 tr3 n4 k4 partial4 filepath]
    extract_from_pdf_simple_flag [where w = w and c = c and filepath = filepath and fo = fo]
    supported_entries_processed [of n names w members all_texts found s]
  by (intro conjI impI) (elim conjE, assumption+)+


text \<open>
  In each of the four stages, with the flag set while the first of three pages is
  processed, the block of that first page is returned and no later page is processed;
  with the flag always set, the archive loop still processes \<open>b.txt\<close>.
\<close>

theorem cancellation_read_in_pdf_page_loops_witness:
  "extract_from_pdf (cancel_in_stage_world Pdfplumber) (asc ''book.pdf'')
      (Some (plain_file pdf_bytes))
     = (Inr (page_block Pdfplumber 1 (asc ''one'')),
        [StageStarted Pdfplumber, PageProcessed Pdfplumber 0])
   \<and> extract_from_pdf (cancel_in_stage_world PyMuPDF) (asc ''book.pdf'')
      (Some (plain_file pdf_bytes))
     = (Inr (page_block PyMuPDF 1 (asc ''one'')),
        [StageStarted Pdfplumber, PageProcessed Pdfplumber 0, PageProcessed Pdfplumber 1,
         PageProcessed Pdfplumber 2, StageStarted PyMuPDF, PageProcessed PyMuPDF 0])
   \<and> extract_from_pdf (cancel_in_stage_world PyPDF2) (asc ''book.pdf'')
      (Some (plain_file pdf_bytes))
     = (Inr (page_block PyPDF2 1 (asc ''one'')),
        [StageStarted Pdfplumber, PageProcessed Pdfplumber 0, PageProcessed Pdfplumber 1,
         PageProcessed Pdfplumber 2, StageStarted PyMuPDF, PageProcessed PyMuPDF 0,
         PageProcessed PyMuPDF 1, PageProcessed PyMuPDF 2, StageStarted PyPDF2,
         PageProcessed PyPDF2 0])
   \<and> extract_from_pdf (cancel_in_stage_world OCR) (asc ''book.pdf'')
      (Some (plain_file pdf_bytes))
     = (Inr (page_block OCR 1 (asc ''scan'')),
        [StageStarted Pdfplumber, PageProcessed Pdfplumber 0, PageProcessed Pdfplumber 1,
         PageProcessed Pdfplumber 2, StageStarted PyMuPDF, PageProcessed PyMuPDF 0,
         PageProcessed PyMuPDF 1, PageProcessed PyMuPDF 2, StageStarted PyPDF2,
         PageProcessed PyPDF2 0, PageProcessed PyPDF2 1, PageProcessed PyPDF2 2,
         StageStarted OCR, PageProcessed OCR 0])
   \<and> read_cancelled (cancel_in_stage_world OCR) OCR 1
   \<and> \<not> read_cancelled (cancel_in_stage_world OCR) OCR 0
   \<and> asc ''b.txt'' \<in> set (map fst two_notes)
   \<and> ends_with_any (asc ''b.txt'') supported_extensions
   \<and> EntryProcessed (asc ''b.txt'')
      \<in> set (trace (snd (snd (archive_loop cancel_world two_notes (map fst two_notes) [] False
            (zip_state two_notes)))))"
proof -
  let ?f = "plain_file pdf_bytes"
  let ?tr1 = "[StageStarted Pdfplumber, PageProcessed Pdfplumber 0, PageProcessed Pdfplumber 1,
         PageProcessed Pdfplumber 2]"
  let ?tr2 = "?tr1 @ [StageStarted PyMuPDF, PageProcessed PyMuPDF 0,
         PageProcessed PyMuPDF 1, PageProcessed PyMuPDF 2]"
  let ?tr3 = "?tr2 @ [StageStarted PyPDF2, PageProcessed PyPDF2 0, PageProcessed PyPDF2 1,
         PageProcessed PyPDF2 2]"
  note ws = cancel_in_stage_world_simps
  have size: "cbytes (f_content ?f) \<noteq> []" "cbytes (f_content ?f) = pdf_bytes"
    by (simp_all add: plain_file_def pdf_bytes_def)
  have scan: "truthy_text (asc ''scan'')"
    by (simp add: truthy_text_iff asc_def py_isspace_def)
  have three: "length three_pages = 3" "take 1 three_pages = [Inr (asc ''one'')]"
    "length blank_pages = 3" "take (Suc 0) three_pages = [Inr (asc ''one'')]"
    "pdf_bytes \<noteq> []"
    by (simp_all add: three_pages_def blank_pages_def pdf_bytes_def)
  have ww: "with_warning st 3 [] = []" for st
    by (simp add: with_warning_def)
  have one: "page_loop (cancel_in_stage_world st) st 0 [Inr t] ([], tr)
      = ([page_block st 1 t], tr @ [PageProcessed st 0])" if "truthy_text t" for st t tr
    using first_page_only [of "cancel_in_stage_world st" st t "[]" tr] that
    by (simp add: ws)
  have blank: "page_loop (cancel_in_stage_world st) st' 0 blank_pages ([], tr)
      = ([], tr @ [PageProcessed st' 0, PageProcessed st' 1, PageProcessed st' 2])"
    if "stage_rank st' < stage_rank st" for st st' tr
    using that by (intro blank_stage) (auto simp: ws)
  have s1: "stage_pdfplumber (cancel_in_stage_world st) pdf_bytes = (Inr [], ?tr1)"
    if "0 < stage_rank st" for st
  proof -
    from that have "st \<noteq> Pdfplumber" by auto
    with blank [of Pdfplumber st "[StageStarted Pdfplumber]"] that show ?thesis
      by (simp add: stage_pdfplumber_def ws three ww)
  qed
  have s2: "stage_pymupdf (cancel_in_stage_world st) pdf_bytes ([], ?tr1) = ([], ?tr2)"
    if "1 < stage_rank st" for st
  proof -
    from that have "st \<noteq> PyMuPDF" by auto
    with blank [of PyMuPDF st "?tr1 @ [StageStarted PyMuPDF]"] that show ?thesis
      by (simp add: stage_pymupdf_def ws three ww)
  qed
  have s3: "stage_pypdf2 (cancel_in_stage_world OCR) pdf_bytes ([], ?tr2) = (Inr [], ?tr3)"
    using blank [of PyPDF2 OCR "?tr2 @ [StageStarted PyPDF2]"]
    by (simp add: stage_pypdf2_def ws three ww)
  let ?p1 = "([page_block Pdfplumber 1 (asc ''one'')],
              [StageStarted Pdfplumber, PageProcessed Pdfplumber 0])"
  let ?p2 = "([page_block PyMuPDF 1 (asc ''one'')],
              ?tr1 @ [StageStarted PyMuPDF, PageProcessed PyMuPDF 0])"
  let ?p3 = "([page_block PyPDF2 1 (asc ''one'')],
              ?tr2 @ [StageStarted PyPDF2, PageProcessed PyPDF2 0])"
  let ?p4 = "([page_block OCR 1 (asc ''scan'')],
              ?tr3 @ [StageStarted OCR, PageProcessed OCR 0])"
  have h1: "cbytes (f_content ?f) \<noteq> []
      \<and> pdfplumber_open (cancel_in_stage_world Pdfplumber) (cbytes (f_content ?f)) = Inr three_pages
      \<and> read_cancelled (cancel_in_stage_world Pdfplumber) Pdfplumber 1 \<and> 1 \<le> length three_pages
      \<and> ?p1 = page_loop (cancel_in_stage_world Pdfplumber) Pdfplumber 0 (take 1 three_pages)
             (with_warning Pdfplumber (length three_pages) [], [StageStarted Pdfplumber])
      \<and> fst ?p1 \<noteq> []"
    using one [of "asc ''one''" Pdfplumber "[StageStarted Pdfplumber]"] numbers_truthy(1)
    by (simp add: size ws three ww)
  have h2: "cbytes (f_content ?f) \<noteq> []
      \<and> stage_pdfplumber (cancel_in_stage_world PyMuPDF) (cbytes (f_content ?f)) = (Inr [], ?tr1)
      \<and> import_fitz (cancel_in_stage_world PyMuPDF) = None
      \<and> fitz_open (cancel_in_stage_world PyMuPDF) (cbytes (f_content ?f)) = Inr three_pages
      \<and> read_cancelled (cancel_in_stage_world PyMuPDF) PyMuPDF 1 \<and> 1 \<le> length three_pages
      \<and> ?p2 = page_loop (cancel_in_stage_world PyMuPDF) PyMuPDF 0 (take 1 three_pages)
             (with_warning PyMuPDF (length three_pages) [], ?tr1 @ [StageStarted PyMuPDF])
      \<and> fst ?p2 \<noteq> []"
    using one [of "asc ''one''" PyMuPDF "?tr1 @ [StageStarted PyMuPDF]"] numbers_truthy(1)
      s1 [of PyMuPDF]
    by (simp add: size ws three ww)
  have h3: "cbytes (f_content ?f) \<noteq> []
      \<and> stage_pdfplumber (cancel_in_stage_world PyPDF2) (cbytes (f_content ?f)) = (Inr [], ?tr1)
      \<and> stage_pymupdf (cancel_in_stage_world PyPDF2) (cbytes (f_content ?f)) ([], ?tr1)
          = ([], ?tr2)
      \<and> import_PyPDF2 (cancel_in_stage_world PyPDF2) = None
      \<and> PyPDF2_PdfReader (cancel_in_stage_world PyPDF2) (cbytes (f_content ?f))
          = Inr (PdfReader False three_pages)
      \<and> read_cancelled (cancel_in_stage_world PyPDF2) PyPDF2 1 \<and> 1 \<le> length three_pages
      \<and> ?p3 = page_loop (cancel_in_stage_world PyPDF2) PyPDF2 0 (take 1 three_pages)
             (with_warning PyPDF2 (length three_pages) [], ?tr2 @ [StageStarted PyPDF2])
      \<and> fst ?p3 \<noteq> []"
    using one [of "asc ''one''" PyPDF2 "?tr2 @ [StageStarted PyPDF2]"] numbers_truthy(1)
      s1 [of PyPDF2] s2 [of PyPDF2]
    by (simp add: size ws three ww)
  have h4: "cbytes (f_content ?f) \<noteq> []
      \<and> stage_pdfplumber (cancel_in_stage_world OCR) (cbytes (f_content ?f)) = (Inr [], ?tr1)
      \<and> stage_pymupdf (cancel_in_stage_world OCR) (cbytes (f_content ?f)) ([], ?tr1) = ([], ?tr2)
      \<and> stage_pypdf2 (cancel_in_stage_world OCR) (cbytes (f_content ?f)) ([], ?tr2)
          = (Inr [], ?tr3)
      \<and> TESSERACT_AVAILABLE (cancel_in_stage_world OCR)
      \<and> import_pdf2image (cancel_in_stage_world OCR) = None
      \<and> (poppler_in_known_dir (cancel_in_stage_world OCR)
           \<or> poppler_on_PATH (cancel_in_stage_world OCR))
      \<and> convert_from_path (cancel_in_stage_world OCR) (cbytes (f_content ?f)) = Inr 3
      \<and> read_cancelled (cancel_in_stage_world OCR) OCR 1 \<and> (1::nat) \<le> 3
      \<and> ?p4 = page_loop (cancel_in_stage_world OCR) OCR 0
             (map (image_to_string (cancel_in_stage_world OCR) (cbytes (f_content ?f))) [0..<1])
             (with_warning OCR 3 [], ?tr3 @ [StageStarted OCR])
      \<and> fst ?p4 \<noteq> []"
    using one [of "asc ''scan''" OCR "?tr3 @ [StageStarted OCR]"] scan
      s1 [of OCR] s2 [of OCR] s3
    by (simp add: size ws ww three)
  note stage1 = cancellation_read_in_pdf_page_loops [THEN conjunct2, THEN conjunct2,
      THEN conjunct1, THEN mp]
  note stage2 = cancellation_read_in_pdf_page_loops [THEN conjunct2, THEN conjunct2,
      THEN conjunct2, THEN conjunct1, THEN mp]
  note stage3 = cancellation_read_in_pdf_page_loops [THEN conjunct2, THEN conjunct2,
      THEN conjunct2, THEN conjunct2, THEN conjunct1, THEN mp]
  note stage4 = cancellation_read_in_pdf_page_loops [THEN conjunct2, THEN conjunct2,
      THEN conjunct2, THEN conjunct2, THEN conjunct2, THEN conjunct1, THEN mp]
  have a: "extract_from_pdf (cancel_in_stage_world Pdfplumber) (asc ''book.pdf'') (Some ?f)
     = (Inr (page_block Pdfplumber 1 (asc ''one'')),
        [StageStarted Pdfplumber, PageProcessed Pdfplumber 0])"
    using stage1 [OF h1, of "asc ''book.pdf''"] by simp
  have b: "extract_from_pdf (cancel_in_stage_world PyMuPDF) (asc ''book.pdf'') (Some ?f)
     = (Inr (page_block PyMuPDF 1 (asc ''one'')), ?tr1 @ [StageStarted PyMuPDF, PageProcessed PyMuPDF 0])"
    using stage2 [OF h2, of "asc ''book.pdf''"] by simp
  have c: "extract_from_pdf (cancel_in_stage_world PyPDF2) (asc ''book.pdf'') (Some ?f)
     = (Inr (page_block PyPDF2 1 (asc ''one'')), ?tr2 @ [StageStarted PyPDF2, PageProcessed PyPDF2 0])"
    using stage3 [OF h3, of "asc ''book.pdf''"] by simp
  have d: "extract_from_pdf (cancel_in_stage_world OCR) (asc ''book.pdf'') (Some ?f)
     = (Inr (page_block OCR 1 (asc ''scan'')), ?tr3 @ [StageStarted OCR, PageProcessed OCR 0])"
    using stage4 [OF h4, of "asc ''book.pdf''"] by simp
  have e: "read_cancelled (cancel_in_stage_world OCR) OCR 1"
    by (simp add: ws)
  have g: "\<not> read_cancelled (cancel_in_stage_world OCR) OCR 0"
  proof -
    have "PageProcessed OCR 0
        \<in> set (snd (extract_from_pdf (cancel_in_stage_world OCR) (asc ''book.pdf'') (Some ?f)))
        \<and> (0::nat) \<le> 0"
      by (simp add: d)
    from cancellation_read_in_pdf_page_loops [THEN conjunct1, THEN mp, OF this]
    show ?thesis .
  qed
  have sup: "ends_with_any (asc ''b.txt'') supported_extensions"
    by (simp add: ends_with_any_def supported_extensions_def py_endswith_def py_lower_def
        py_lower_cp_def ext_defs asc_def)
  have mem: "asc ''b.txt'' \<in> set (map fst two_notes)"
    by (simp add: two_notes_def)
  have h: "EntryProcessed (asc ''b.txt'')
      \<in> set (trace (snd (snd (archive_loop cancel_world two_notes (map fst two_notes) [] False
            (zip_state two_notes)))))"
  proof -
    from mem sup have "asc ''b.txt'' \<in> set (map fst two_notes)
        \<and> ends_with_any (asc ''b.txt'') supported_extensions" ..
    from cancellation_read_in_pdf_page_loops [THEN conjunct2, THEN conjunct2, THEN conjunct2,
        THEN conjunct2, THEN conjunct2, THEN conjunct2, THEN conjunct2, THEN mp, OF this]
    show ?thesis .
  qed
  from a b c d e g mem sup h show ?thesis by (intro conjI) simp_all
qed

end
